(* ===== verification/Usk_Prelude.thy ===== *)
theory Usk_Prelude
  imports Main "HOL-Library.Word" "HOL-Library.Char_ord" "HOL-Library.List_Lexorder"
begin

text \<open>
  Shared vocabulary of the development.

  A C++ \<open>std::string\<close> is a \<open>string\<close> (a list of 8-bit characters), so an embedded NUL
  and every byte from 0x80 up are ordinary elements. A thrown exception is a value of
  \<open>exn\<close> with the message the source gives it; a function that may throw returns
  \<open>'a res\<close>, and \<open>bindE\<close> stops at the first throw, as C++ unwinding does.
  Decimal and hexadecimal formatting (\<open>std::to_string\<close>, \<open>std::to_chars\<close>,
  \<open>std::setw\<close> with \<open>std::setfill('0')\<close>) are defined here with their inverse facts.
\<close>

section \<open>Exceptions as values\<close>

datatype exn = Runtime_error string | Logic_error string

type_synonym 'a res = "exn + 'a"

definition bindE :: "'a res \<Rightarrow> ('a \<Rightarrow> 'b res) \<Rightarrow> 'b res" where
  "bindE m f = (case m of Inl e \<Rightarrow> Inl e | Inr x \<Rightarrow> f x)"

definition throwE :: "string \<Rightarrow> 'a res" where
  "throwE msg = Inl (Runtime_error msg)"

definition requireE :: "bool \<Rightarrow> string \<Rightarrow> unit res" where
  "requireE b msg = (if b then Inr () else throwE msg)"

fun mapE :: "('a \<Rightarrow> 'b res) \<Rightarrow> 'a list \<Rightarrow> 'b list res" where
  "mapE f [] = Inr []"
| "mapE f (x # xs) = bindE (f x) (\<lambda>y. bindE (mapE f xs) (\<lambda>ys. Inr (y # ys)))"

definition accepts :: "'a res \<Rightarrow> bool" where
  "accepts m = (case m of Inl _ \<Rightarrow> False | Inr _ \<Rightarrow> True)"

named_theorems res_simps \<open>equations that run the exception monad\<close>

lemma bindE_Inl [simp, res_simps]: "bindE (Inl e) f = Inl e"
  by (simp add: bindE_def)

lemma bindE_Inr [simp, res_simps]: "bindE (Inr x) f = f x"
  by (simp add: bindE_def)

lemma bindE_assoc: "bindE (bindE m f) g = bindE m (\<lambda>x. bindE (f x) g)"
  by (simp add: bindE_def split: sum.splits)

lemma bindE_eq_Inr: "bindE m f = Inr y \<longleftrightarrow> (\<exists>x. m = Inr x \<and> f x = Inr y)"
  by (cases m) auto

lemma bindE_cong [fundef_cong]:
  "m = m' \<Longrightarrow> (\<And>x. m' = Inr x \<Longrightarrow> f x = f' x) \<Longrightarrow> bindE m f = bindE m' f'"
  by (cases m') auto

lemma bindE_InrE:
  assumes "bindE m f = Inr y"
  obtains x where "m = Inr x" "f x = Inr y"
  using assms by (auto simp: bindE_eq_Inr)

lemma throwE_neq_Inr [simp]: "throwE msg \<noteq> Inr x" "Inr x \<noteq> throwE msg"
  by (simp_all add: throwE_def)

lemma bindE_throwE [simp, res_simps]: "bindE (throwE msg) f = throwE msg"
  by (simp add: throwE_def)

lemma requireE_eq_Inr [simp]: "requireE b msg = Inr u \<longleftrightarrow> b"
  by (simp add: requireE_def)

lemma requireE_True [simp, res_simps]: "requireE True msg = Inr ()"
  by (simp add: requireE_def)

lemma requireE_False [simp, res_simps]: "requireE False msg = throwE msg"
  by (simp add: requireE_def)

lemma bindE_requireE: "bindE (requireE b msg) f = (if b then f () else throwE msg)"
  by (simp add: requireE_def)

lemma accepts_simps [simp]: "accepts (Inr x)" "\<not> accepts (Inl e)" "\<not> accepts (throwE msg)"
  by (simp_all add: accepts_def throwE_def)

lemma accepts_iff: "accepts m \<longleftrightarrow> (\<exists>x. m = Inr x)"
  by (cases m) auto

lemma mapE_eq_Inr: "mapE f xs = Inr ys \<longleftrightarrow> list_all2 (\<lambda>x y. f x = Inr y) xs ys"
  by (induction xs arbitrary: ys) (auto simp: bindE_eq_Inr list_all2_Cons1)

lemma mapE_map: "(\<And>x. x \<in> set xs \<Longrightarrow> f (g x) = Inr (h x)) \<Longrightarrow> mapE f (map g xs) = Inr (map h xs)"
  by (induction xs) auto

section \<open>Characters as bytes\<close>

text \<open>\<open>byte c\<close> is the \<open>unsigned char\<close> value; the character tests are those of the C locale.\<close>

abbreviation byte :: "char \<Rightarrow> nat" where
  "byte c \<equiv> of_char c"

definition isdigit :: "char \<Rightarrow> bool" where
  "isdigit c \<longleftrightarrow> 48 \<le> byte c \<and> byte c \<le> 57"

definition isalnum :: "char \<Rightarrow> bool" where
  "isalnum c \<longleftrightarrow> isdigit c \<or> (65 \<le> byte c \<and> byte c \<le> 90) \<or> (97 \<le> byte c \<and> byte c \<le> 122)"

definition tolower :: "char \<Rightarrow> char" where
  "tolower c = (if 65 \<le> byte c \<and> byte c \<le> 90 then char_of (byte c + 32) else c)"

lemma byte_less_256: "byte c < 256"
proof -
  have "byte c = byte c mod 256" by (simp only: of_char_mod_256)
  also have "\<dots> < 256" by (rule mod_less_divisor) simp
  finally show ?thesis .
qed

lemma byte_char_of [simp]: "n < 256 \<Longrightarrow> byte (char_of n) = n"
  by simp

lemma char_of_byte [simp]: "char_of (byte c) = c"
  by simp

lemma char_eqI_byte: "byte c = byte d \<Longrightarrow> c = d"
  by simp

lemma char_eq_iff_byte: "c = d \<longleftrightarrow> byte c = byte d"
  by simp

section \<open>Decimal and hexadecimal text\<close>

definition digit_char :: "nat \<Rightarrow> char" where
  "digit_char d = char_of (48 + d)"

definition digit_value :: "char \<Rightarrow> nat" where
  "digit_value c = byte c - 48"

fun dec :: "nat \<Rightarrow> string" where
  "dec n = (if n < 10 then [digit_char n] else dec (n div 10) @ [digit_char (n mod 10)])"

declare dec.simps [simp del]

definition hex_char :: "nat \<Rightarrow> char" where
  "hex_char d = (if d < 10 then char_of (48 + d) else char_of (87 + d))"

fun hex_pad :: "nat \<Rightarrow> nat \<Rightarrow> string" where
  "hex_pad 0 v = []"
| "hex_pad (Suc w) v = hex_pad w (v div 16) @ [hex_char (v mod 16)]"

definition zero_pad :: "nat \<Rightarrow> string \<Rightarrow> string" where
  "zero_pad w s = replicate (w - length s) (CHR ''0'') @ s"

lemma digit_value_char [simp]: "d < 10 \<Longrightarrow> digit_value (digit_char d) = d"
  by (simp add: digit_value_def digit_char_def)

lemma isdigit_digit_char [simp]: "d < 10 \<Longrightarrow> isdigit (digit_char d)"
  by (simp add: isdigit_def digit_char_def)

lemma byte_digit_char [simp]: "d < 10 \<Longrightarrow> byte (digit_char d) = 48 + d"
  by (simp add: digit_char_def)

lemma dec_small: "n < 10 \<Longrightarrow> dec n = [digit_char n]"
  by (simp add: dec.simps)

lemma dec_big: "10 \<le> n \<Longrightarrow> dec n = dec (n div 10) @ [digit_char (n mod 10)]"
  by (subst dec.simps) simp

lemma dec_nonempty [simp]: "dec n \<noteq> []"
  by (subst dec.simps) simp

lemma dec_isdigit: "c \<in> set (dec n) \<Longrightarrow> isdigit c"
proof (induction n rule: dec.induct)
  case (1 n)
  then show ?case by (cases "n < 10") (auto simp: dec_small dec_big)
qed

definition dec_read :: "string \<Rightarrow> nat" where
  "dec_read = foldl (\<lambda>v c. v * 10 + digit_value c) 0"

lemma dec_read_dec [simp]: "dec_read (dec n) = n"
proof (induction n rule: dec.induct)
  case (1 n)
  then show ?case by (cases "n < 10") (simp_all add: dec_small dec_big dec_read_def)
qed

lemma dec_inj [simp]: "dec m = dec n \<longleftrightarrow> m = n"
  by (metis dec_read_dec)

lemma digit_char_eq_0: "d < 10 \<Longrightarrow> digit_char d = CHR ''0'' \<longleftrightarrow> d = 0"
  by (subst char_eq_iff_byte) simp

lemma hd_dec_zero: "hd (dec n) = CHR ''0'' \<longleftrightarrow> n = 0"
proof (induction n rule: dec.induct)
  case (1 n)
  then show ?case
    by (cases "n < 10") (auto simp: dec_small dec_big digit_char_eq_0)
qed

lemma byte_hex_char: "d < 16 \<Longrightarrow> byte (hex_char d) = (if d < 10 then 48 + d else 87 + d)"
  by (simp add: hex_char_def)

lemma hex_char_inj: "d < 16 \<Longrightarrow> e < 16 \<Longrightarrow> hex_char d = hex_char e \<longleftrightarrow> d = e"
  by (subst char_eq_iff_byte) (auto simp: byte_hex_char split: if_splits)

lemma length_hex_pad [simp]: "length (hex_pad w v) = w"
  by (induction w arbitrary: v) auto

lemma hex_pad_inj: "v < 16 ^ w \<Longrightarrow> v' < 16 ^ w \<Longrightarrow> hex_pad w v = hex_pad w v' \<longleftrightarrow> v = v'"
proof (induction w arbitrary: v v')
  case 0
  then show ?case by simp
next
  case (Suc w)
  have "v div 16 < 16 ^ w" "v' div 16 < 16 ^ w"
    using Suc.prems by (simp_all add: less_mult_imp_div_less mult.commute)
  with Suc.IH have "hex_pad w (v div 16) = hex_pad w (v' div 16) \<longleftrightarrow> v div 16 = v' div 16"
    by blast
  moreover have "hex_char (v mod 16) = hex_char (v' mod 16) \<longleftrightarrow> v mod 16 = v' mod 16"
    by (rule hex_char_inj) simp_all
  ultimately show ?case by (auto) (metis div_mult_mod_eq)
qed

lemma length_zero_pad [simp]: "length (zero_pad w s) = max w (length s)"
  by (simp add: zero_pad_def)

section \<open>Digest and identifier shapes\<close>

definition is_lower_hex :: "char \<Rightarrow> bool" where
  "is_lower_hex c \<longleftrightarrow> isdigit c \<or> (97 \<le> byte c \<and> byte c \<le> 102)"

lemma is_lower_hex_hex_char: "d < 16 \<Longrightarrow> is_lower_hex (hex_char d)"
  by (auto simp: is_lower_hex_def isdigit_def byte_hex_char)

lemma hex_pad_lower_hex: "list_all is_lower_hex (hex_pad w v)"
  by (induction w arbitrary: v) (auto simp: is_lower_hex_hex_char)

end
