(* ===== verification/Usk_Sha256.thy ===== *)
theory Usk_Sha256
  imports Usk_Prelude "HOL-Library.While_Combinator"
begin

unbundle bit_operations_syntax

text \<open>
  The incremental hash of \<^verbatim>\<open>runtime/base/usk_sha256.cpp\<close>: the object of class
  \<^verbatim>\<open>Sha256\<close> is the record \<open>sha256\<close>, its 64-byte block buffer kept as an array with a
  fill count exactly as the class keeps it. The two loops of the class
  (\<^verbatim>\<open>while (size > 0)\<close> and \<^verbatim>\<open>while (block_size_ != 56u)\<close>) are \<open>while\<close> loops over
  the same state; that they stop is proved from the invariant \<open>sha_inv\<close>.

  The reference is \<open>sha256_spec\<close>: pad the whole message as FIPS 180-4 says, cut it in
  64-byte blocks, fold the compression function over them.
\<close>

section \<open>The object and its operations\<close>

record sha256 =
  sha_state :: "32 word list"
  sha_block :: "char list"
  sha_block_size :: nat
  sha_total_bytes :: "64 word"
  sha_finished :: bool

definition sha_init_state :: "32 word list" where
  "sha_init_state =
    [0x6a09e667, 0xbb67ae85, 0x3c6ef372, 0xa54ff53a,
     0x510e527f, 0x9b05688c, 0x1f83d9ab, 0x5be0cd19]"

definition sha_new :: sha256 where
  "sha_new = \<lparr>sha_state = sha_init_state, sha_block = replicate 64 (CHR 0x00),
    sha_block_size = 0, sha_total_bytes = 0, sha_finished = False\<rparr>"

definition rotate_right :: "32 word \<Rightarrow> nat \<Rightarrow> 32 word" where
  "rotate_right value bits = drop_bit bits value OR push_bit (32 - bits) value"

text \<open>The table of round constants, row by row as the source lays it out.\<close>

definition sha_constants :: "32 word list" where
  "sha_constants = concat [
    [0x428a2f98, 0x71374491, 0xb5c0fbcf, 0xe9b5dba5, 0x3956c25b, 0x59f111f1, 0x923f82a4, 0xab1c5ed5],
    [0xd807aa98, 0x12835b01, 0x243185be, 0x550c7dc3, 0x72be5d74, 0x80deb1fe, 0x9bdc06a7, 0xc19bf174],
    [0xe49b69c1, 0xefbe4786, 0x0fc19dc6, 0x240ca1cc, 0x2de92c6f, 0x4a7484aa, 0x5cb0a9dc, 0x76f988da],
    [0x983e5152, 0xa831c66d, 0xb00327c8, 0xbf597fc7, 0xc6e00bf3, 0xd5a79147, 0x06ca6351, 0x14292967],
    [0x27b70a85, 0x2e1b2138, 0x4d2c6dfc, 0x53380d13, 0x650a7354, 0x766a0abb, 0x81c2c92e, 0x92722c85],
    [0xa2bfe8a1, 0xa81a664b, 0xc24b8b70, 0xc76c51a3, 0xd192e819, 0xd6990624, 0xf40e3585, 0x106aa070],
    [0x19a4c116, 0x1e376c08, 0x2748774c, 0x34b0bcb5, 0x391c0cb3, 0x4ed8aa4a, 0x5b9cca4f, 0x682e6ff3],
    [0x748f82ee, 0x78a5636f, 0x84c87814, 0x8cc70208, 0x90befffa, 0xa4506ceb, 0xbef9a3f7, 0xc67178f2]]"

text \<open>The first sixteen words are the block read big-endian.\<close>

definition sha_load_word :: "char list \<Rightarrow> nat \<Rightarrow> 32 word" where
  "sha_load_word block offset =
    push_bit 24 (of_char (block ! offset)) OR push_bit 16 (of_char (block ! (offset + 1))) OR
    push_bit 8 (of_char (block ! (offset + 2))) OR of_char (block ! (offset + 3))"

definition sha_extend :: "nat \<Rightarrow> 32 word list \<Rightarrow> 32 word list" where
  "sha_extend index words =
    (let s0 = rotate_right (words ! (index - 15)) 7 XOR rotate_right (words ! (index - 15)) 18
                XOR drop_bit 3 (words ! (index - 15));
         s1 = rotate_right (words ! (index - 2)) 17 XOR rotate_right (words ! (index - 2)) 19
                XOR drop_bit 10 (words ! (index - 2))
     in words[index := words ! (index - 16) + s0 + words ! (index - 7) + s1])"

definition sha_schedule :: "char list \<Rightarrow> 32 word list" where
  "sha_schedule block =
    fold sha_extend [16..<64] (map (\<lambda>index. sha_load_word block (index * 4)) [0..<16] @ replicate 48 0)"

fun sha_round :: "32 word list \<Rightarrow> nat \<Rightarrow> 32 word list \<Rightarrow> 32 word list" where
  "sha_round words index [a, b, c, d, e, f, g, h] =
    (let t1 = h + (rotate_right e 6 XOR rotate_right e 11 XOR rotate_right e 25) +
              ((e AND f) XOR (NOT e AND g)) + sha_constants ! index + words ! index;
         t2 = (rotate_right a 2 XOR rotate_right a 13 XOR rotate_right a 22) +
              ((a AND b) XOR (a AND c) XOR (b AND c))
     in [t1 + t2, a, b, c, d + t1, e, f, g])"
| "sha_round words index vs = vs"

definition sha_transform :: "32 word list \<Rightarrow> char list \<Rightarrow> 32 word list" where
  "sha_transform state block =
    map2 (+) state (fold (sha_round (sha_schedule block)) [0..<64] state)"

text \<open>One pass of the loop of \<open>update\<close>: fill the block, transform it when it is full.\<close>

definition sha_absorb :: "sha256 \<times> char list \<Rightarrow> sha256 \<times> char list" where
  "sha_absorb = (\<lambda>(s, data).
    let count = min (length data) (64 - sha_block_size s);
        filled = sha_block_size s + count;
        block = take (sha_block_size s) (sha_block s) @ take count data @ drop filled (sha_block s);
        s' = s\<lparr>sha_block := block, sha_block_size := filled\<rparr>
    in (if filled = 64
        then s'\<lparr>sha_state := sha_transform (sha_state s) block, sha_block_size := 0\<rparr>
        else s', drop count data))"

definition sha_update :: "sha256 \<Rightarrow> char list \<Rightarrow> sha256 res" where
  "sha_update s data =
    (if sha_finished s then Inl (Logic_error ''invalid SHA-256 update'')
     else Inr (fst (while (\<lambda>(s, data). data \<noteq> []) sha_absorb
       (s\<lparr>sha_total_bytes := sha_total_bytes s + of_nat (length data)\<rparr>, data))))"

definition sha_pad_step :: "sha256 \<Rightarrow> sha256" where
  "sha_pad_step s = (case sha_update s [CHR 0x00] of Inl _ \<Rightarrow> s | Inr s' \<Rightarrow> s')"

definition sha_length_bytes :: "64 word \<Rightarrow> char list" where
  "sha_length_bytes bit_length =
    map (\<lambda>index. char_of (unat (drop_bit ((7 - index) * 8) bit_length AND 0xff))) [0..<8]"

definition sha_finish :: "sha256 \<Rightarrow> (string \<times> sha256) res" where
  "sha_finish s =
    (if sha_finished s then Inl (Logic_error ''SHA-256 was already finalized'')
     else let bit_length = sha_total_bytes s * 8 in
       bindE (sha_update s [CHR 0x80]) (\<lambda>s1.
       let s2 = while (\<lambda>s. sha_block_size s \<noteq> 56) sha_pad_step s1 in
       bindE (sha_update s2 (sha_length_bytes bit_length)) (\<lambda>s3.
       Inr (concat (map (\<lambda>v. hex_pad 8 (unat v)) (sha_state s3)), s3\<lparr>sha_finished := True\<rparr>))))"

text \<open>
  The two calls every user of the class makes, \<^verbatim>\<open>Sha256 h; h.update(...); h.finish()\<close>.
\<close>

definition sha256_hex :: "string \<Rightarrow> string" where
  "sha256_hex text =
    (case bindE (sha_update sha_new text) sha_finish of Inl _ \<Rightarrow> [] | Inr (hex, _) \<Rightarrow> hex)"

section \<open>The reference: pad, split, fold\<close>

fun blocks64 :: "nat \<Rightarrow> char list \<Rightarrow> char list list" where
  "blocks64 0 data = []"
| "blocks64 (Suc n) data = take 64 data # blocks64 n (drop 64 data)"

definition sha_compress_all :: "32 word list \<Rightarrow> char list \<Rightarrow> 32 word list" where
  "sha_compress_all h data = foldl sha_transform h (blocks64 (length data div 64) data)"

definition sha_padding :: "nat \<Rightarrow> char list" where
  "sha_padding n = CHR 0x80 # replicate ((119 - n mod 64) mod 64) (CHR 0x00) @
    sha_length_bytes (of_nat (8 * n))"

definition sha256_spec :: "string \<Rightarrow> string" where
  "sha256_spec msg = concat (map (\<lambda>v. hex_pad 8 (unat v))
    (sha_compress_all sha_init_state (msg @ sha_padding (length msg))))"

section \<open>Blocks of the message\<close>

lemma blocks64_append:
  "length a = 64 * n \<Longrightarrow> blocks64 (n + m) (a @ b) = blocks64 n a @ blocks64 m b"
  by (induction n arbitrary: a) auto

lemma sha_compress_all_append:
  assumes "64 dvd length a"
  shows "sha_compress_all h (a @ b) = sha_compress_all (sha_compress_all h a) b"
proof -
  from assms obtain n where n: "length a = 64 * n" by (auto elim: dvdE)
  then have "length (a @ b) div 64 = n + length b div 64" by simp
  with n blocks64_append [OF n, of "length b div 64" b] show ?thesis
    by (simp add: sha_compress_all_def)
qed

lemma sha_compress_all_block:
  assumes "64 dvd length a" and "length b = 64"
  shows "sha_compress_all h (a @ b) = sha_transform (sha_compress_all h a) b"
proof -
  have "blocks64 (Suc 0) b = [b]" using assms(2) by simp
  then have "sha_compress_all k b = sha_transform k b" for k
    using assms(2) by (simp add: sha_compress_all_def)
  with assms(1) show ?thesis by (simp add: sha_compress_all_append)
qed

section \<open>What the object holds\<close>

text \<open>
  \<open>sha_repr s msg\<close>: the object has absorbed exactly \<open>msg\<close>; its full blocks are in the
  chaining value, the rest is in the block buffer, which is never left full.
\<close>

definition sha_inv :: "sha256 \<Rightarrow> bool" where
  "sha_inv s \<longleftrightarrow> length (sha_block s) = 64 \<and> sha_block_size s < 64"

definition sha_repr :: "sha256 \<Rightarrow> char list \<Rightarrow> bool" where
  "sha_repr s msg \<longleftrightarrow> sha_inv s \<and> (\<exists>full. msg = full @ take (sha_block_size s) (sha_block s) \<and>
    64 dvd length full \<and> sha_state s = sha_compress_all sha_init_state full)"

definition sha_holds :: "sha256 \<Rightarrow> char list \<Rightarrow> bool" where
  "sha_holds s msg \<longleftrightarrow> sha_repr s msg \<and> sha_total_bytes s = of_nat (length msg) \<and> \<not> sha_finished s"

lemma sha_repr_block_size: "sha_repr s msg \<Longrightarrow> sha_block_size s = length msg mod 64"
  by (auto simp: sha_repr_def sha_inv_def elim!: dvdE)

lemma sha_repr_full:
  assumes "sha_repr s msg" and "64 dvd length msg"
  shows "sha_state s = sha_compress_all sha_init_state msg"
proof -
  have "sha_block_size s = 0"
    using sha_repr_block_size [OF assms(1)] assms(2) by (simp add: dvd_imp_mod_0)
  with assms(1) show ?thesis by (auto simp: sha_repr_def)
qed

lemma sha_holds_new: "sha_holds sha_new []"
  by (auto simp: sha_holds_def sha_repr_def sha_inv_def sha_new_def sha_compress_all_def)

lemma sha_absorb_frame:
  "sha_absorb (s, data) = (s', data') \<Longrightarrow>
    sha_total_bytes s' = sha_total_bytes s \<and> sha_finished s' = sha_finished s"
  by (auto simp: sha_absorb_def Let_def split: if_splits)

lemma sha_absorb_repr:
  assumes repr: "sha_repr s msg" and data: "data \<noteq> []"
    and step: "sha_absorb (s, data) = (s', data')"
  obtains chunk where "data = chunk @ data'" "chunk \<noteq> []" "sha_repr s' (msg @ chunk)"
proof -
  define bs where "bs = sha_block_size s"
  define count where "count = min (length data) (64 - bs)"
  define chunk where "chunk = take count data"
  define block where "block = take bs (sha_block s) @ chunk @ drop (bs + count) (sha_block s)"
  from repr obtain full where full: "msg = full @ take bs (sha_block s)" "64 dvd length full"
      "sha_state s = sha_compress_all sha_init_state full"
    and inv: "length (sha_block s) = 64" "bs < 64"
    by (auto simp: sha_repr_def sha_inv_def bs_def)
  have count: "0 < count" "bs + count \<le> 64" "length chunk = count"
    using inv data by (auto simp: count_def chunk_def)
  have block: "length block = 64" "take (bs + count) block = take bs (sha_block s) @ chunk"
    using inv count by (auto simp: block_def)
  have s': "s' = (if bs + count = 64
      then s\<lparr>sha_block := block, sha_state := sha_transform (sha_state s) block, sha_block_size := 0\<rparr>
      else s\<lparr>sha_block := block, sha_block_size := bs + count\<rparr>)" and data': "data' = drop count data"
    using step by (auto simp: sha_absorb_def Let_def bs_def [symmetric] count_def [symmetric]
        chunk_def [symmetric] block_def)
  have "sha_repr s' (msg @ chunk)"
  proof (cases "bs + count = 64")
    case True
    with block have "block = take bs (sha_block s) @ chunk" by simp
    with full have "msg @ chunk = full @ block" by simp
    moreover have "sha_compress_all sha_init_state (full @ block) = sha_transform (sha_state s) block"
      using full block by (simp add: sha_compress_all_block)
    ultimately show ?thesis
      using True s' full block by (auto simp: sha_repr_def sha_inv_def)
  next
    case False
    with count s' block full show ?thesis
      by (auto simp: sha_repr_def sha_inv_def)
  qed
  moreover have "data = chunk @ data'" by (simp add: chunk_def data')
  moreover have "chunk \<noteq> []" using count by auto
  ultimately show ?thesis by (rule that [rotated 2])
qed

lemma sha_loop_repr:
  assumes repr: "sha_repr s msg"
  obtains s' where "while (\<lambda>(s, data). data \<noteq> []) sha_absorb (s, data) = (s', [])"
    "sha_repr s' (msg @ data)" "sha_total_bytes s' = sha_total_bytes s"
    "sha_finished s' = sha_finished s"
proof -
  let ?P = "\<lambda>(t, d). \<exists>used. data = used @ d \<and> sha_repr t (msg @ used) \<and>
    sha_total_bytes t = sha_total_bytes s \<and> sha_finished t = sha_finished s"
  let ?Q = "\<lambda>(t, d). d = [] \<and> sha_repr t (msg @ data) \<and>
    sha_total_bytes t = sha_total_bytes s \<and> sha_finished t = sha_finished s"
  have step: "?P (sha_absorb x) \<and> (sha_absorb x, x) \<in> measure (\<lambda>(t, d). length d)"
    if P: "?P x" and b: "(\<lambda>(s, data). data \<noteq> []) x" for x
  proof -
    obtain t d where x: "x = (t, d)" by force
    obtain t' d' where x': "sha_absorb (t, d) = (t', d')" by force
    from P x obtain used where used: "data = used @ d" "sha_repr t (msg @ used)"
      "sha_total_bytes t = sha_total_bytes s" "sha_finished t = sha_finished s" by auto
    from b x have "d \<noteq> []" by simp
    from sha_absorb_repr [OF used(2) this x'] obtain chunk
      where chunk: "d = chunk @ d'" "chunk \<noteq> []" "sha_repr t' ((msg @ used) @ chunk)" by blast
    then have "data = (used @ chunk) @ d'" "sha_repr t' (msg @ used @ chunk)" using used by simp_all
    with chunk sha_absorb_frame [OF x'] used x x' show ?thesis by auto
  qed
  have "?Q (while (\<lambda>(s, data). data \<noteq> []) sha_absorb (s, data))"
    by (rule while_rule [where P = ?P and r = "measure (\<lambda>(t, d). length d)"])
      (use repr step in auto)
  then show ?thesis by (auto intro: that)
qed

lemma sha_update_holds:
  assumes "sha_holds s msg"
  obtains s' where "sha_update s data = Inr s'" "sha_holds s' (msg @ data)"
proof -
  let ?s = "s\<lparr>sha_total_bytes := sha_total_bytes s + of_nat (length data)\<rparr>"
  have "sha_repr ?s msg" using assms by (simp add: sha_holds_def sha_repr_def sha_inv_def)
  then obtain s' where "while (\<lambda>(s, data). data \<noteq> []) sha_absorb (?s, data) = (s', [])"
    "sha_repr s' (msg @ data)" "sha_total_bytes s' = sha_total_bytes ?s"
    "sha_finished s' = sha_finished ?s" by (rule sha_loop_repr)
  with assms show ?thesis by (intro that [of s']) (auto simp: sha_holds_def sha_update_def)
qed

section \<open>Finishing\<close>

lemma sha_pad_step_holds:
  "sha_holds s msg \<Longrightarrow> sha_holds (sha_pad_step s) (msg @ [CHR 0x00])"
  by (rule sha_update_holds [of s msg "[CHR 0x00]"]) (auto simp: sha_pad_step_def)

lemma mod64_cases: "x < 128 \<Longrightarrow> x mod 64 = (if x < 64 then x else x - (64 :: nat))"
  by (simp add: le_mod_geq)

lemma pad_count_eq: "(119 - n mod 64) mod 64 = (if n mod 64 \<le> 55 then 55 - n mod 64 else 119 - n mod (64 :: nat))"
proof -
  have "n mod 64 < 64" by simp
  then show ?thesis by (subst mod64_cases) auto
qed

lemma pad_size_eq:
  assumes "k \<le> (119 - n mod 64) mod (64 :: nat)"
  shows "(n + 1 + k) mod 64 = 56 \<longleftrightarrow> k = (119 - n mod 64) mod 64"
proof -
  have r: "n mod 64 < 64" by simp
  have "(n + 1 + k) mod 64 = (n mod 64 + (1 + k)) mod 64"
    by (simp only: mod_add_left_eq add.assoc)
  also have "\<dots> = (if n mod 64 + (1 + k) < 64 then n mod 64 + (1 + k) else n mod 64 + (1 + k) - 64)"
    using assms r by (intro mod64_cases) (auto simp: pad_count_eq split: if_splits)
  finally show ?thesis
    using assms r by (auto simp: pad_count_eq split: if_splits)
qed

lemma pad_measure: "b < 64 \<Longrightarrow> b \<noteq> 56 \<Longrightarrow> (120 - Suc b mod 64) mod 64 < (120 - b) mod (64 :: nat)"
  by (cases "b = 63") (auto simp: mod64_cases)

lemma sha_pad_loop:
  assumes "sha_holds s (msg @ [CHR 0x80])"
  shows "sha_holds (while (\<lambda>s. sha_block_size s \<noteq> 56) sha_pad_step s)
    (msg @ CHR 0x80 # replicate ((119 - length msg mod 64) mod 64) (CHR 0x00))"
proof -
  let ?n = "length msg" and ?K = "(119 - length msg mod 64) mod 64"
  let ?P = "\<lambda>t. \<exists>k \<le> ?K. sha_holds t (msg @ CHR 0x80 # replicate k (CHR 0x00))"
  have size: "sha_block_size t = (?n + 1 + k) mod 64"
    if "sha_holds t (msg @ CHR 0x80 # replicate k (CHR 0x00))" for t k
    using that sha_repr_block_size [of t "msg @ CHR 0x80 # replicate k (CHR 0x00)"]
    by (simp add: sha_holds_def)
  have step: "?P (sha_pad_step t) \<and>
      (sha_pad_step t, t) \<in> measure (\<lambda>t. (120 - sha_block_size t) mod 64)"
    if P: "?P t" and b: "sha_block_size t \<noteq> 56" for t
  proof -
    from P obtain k where k: "k \<le> ?K" "sha_holds t (msg @ CHR 0x80 # replicate k (CHR 0x00))" by blast
    have t': "sha_holds (sha_pad_step t) (msg @ CHR 0x80 # replicate (Suc k) (CHR 0x00))"
      using sha_pad_step_holds [OF k(2)] by (simp add: replicate_append_same)
    have "Suc k \<le> ?K" using pad_size_eq [OF k(1)] k(1) size [OF k(2)] b by simp
    moreover have "sha_block_size (sha_pad_step t) = Suc (sha_block_size t) mod 64"
      using size [OF t'] size [OF k(2)] by (simp add: mod_Suc_eq)
    moreover have "sha_block_size t < 64" using size [OF k(2)] by simp
    ultimately show ?thesis using t' pad_measure [of "sha_block_size t"] b by auto
  qed
  have stop: "sha_holds t (msg @ CHR 0x80 # replicate ?K (CHR 0x00))"
    if P: "?P t" and b: "\<not> sha_block_size t \<noteq> 56" for t
  proof -
    from P obtain k where k: "k \<le> ?K" "sha_holds t (msg @ CHR 0x80 # replicate k (CHR 0x00))" by blast
    then have "k = ?K" using pad_size_eq [OF k(1)] size [OF k(2)] b by simp
    with k show ?thesis by simp
  qed
  have start: "?P s" using assms by (intro exI [of _ 0]) simp
  show ?thesis
    by (rule while_rule [where P = ?P and r = "measure (\<lambda>t. (120 - sha_block_size t) mod 64)"])
      (use start step stop in blast)+
qed

lemma length_sha_length_bytes [simp]: "length (sha_length_bytes w) = 8"
  by (simp add: sha_length_bytes_def)

lemma length_sha_padding: "64 dvd n + length (sha_padding n)"
proof -
  let ?K = "(119 - n mod 64) mod 64"
  have "(n + 1 + ?K) mod 64 = 56" by (simp only: pad_size_eq)
  then have "(n + 1 + ?K + 8) mod 64 = 0" by (subst mod_add_left_eq [symmetric]) simp
  then have "64 dvd n + 1 + ?K + 8" by (simp only: dvd_eq_mod_eq_0)
  then show ?thesis by (simp add: sha_padding_def ac_simps)
qed

lemma sha_finish_holds:
  assumes "sha_holds s msg"
  obtains s' where "sha_finish s = Inr (sha256_spec msg, s')" "sha_finished s'"
proof -
  let ?z = "replicate ((119 - length msg mod 64) mod 64) (CHR 0x00)"
  let ?len = "sha_length_bytes (sha_total_bytes s * 8)"
  obtain s1 where s1: "sha_update s [CHR 0x80] = Inr s1" "sha_holds s1 (msg @ [CHR 0x80])"
    using assms by (rule sha_update_holds)
  define s2 where "s2 = while (\<lambda>s. sha_block_size s \<noteq> 56) sha_pad_step s1"
  have "sha_holds s2 (msg @ CHR 0x80 # ?z)"
    unfolding s2_def using s1(2) by (rule sha_pad_loop)
  then obtain s3 where s3: "sha_update s2 ?len = Inr s3" "sha_holds s3 ((msg @ CHR 0x80 # ?z) @ ?len)"
    by (rule sha_update_holds)
  have "?len = sha_length_bytes (of_nat (8 * length msg))"
    using assms by (simp add: sha_holds_def mult.commute)
  then have padded: "(msg @ CHR 0x80 # ?z) @ ?len = msg @ sha_padding (length msg)"
    by (simp add: sha_padding_def)
  have "64 dvd length (msg @ sha_padding (length msg))"
    using length_sha_padding by simp
  with s3(2) padded have "sha_state s3 = sha_compress_all sha_init_state (msg @ sha_padding (length msg))"
    by (metis sha_holds_def sha_repr_full)
  with assms s1(1) s3(1) show ?thesis
    by (intro that [of "s3\<lparr>sha_finished := True\<rparr>"])
      (simp_all add: sha_finish_def sha_holds_def Let_def sha256_spec_def s2_def [symmetric])
qed

section \<open>The digest interface\<close>

text \<open>
  Every client of the class makes one object, feeds it text in pieces of its own choice and
  finishes it. \<open>digest_stream\<close> is that contract; its lemma says that the pieces do not
  matter, only their concatenation does.
\<close>

fun feed_all :: "('s \<Rightarrow> string \<Rightarrow> 's res) \<Rightarrow> 's \<Rightarrow> string list \<Rightarrow> 's res" where
  "feed_all feed s [] = Inr s"
| "feed_all feed s (d # ds) = bindE (feed s d) (\<lambda>s'. feed_all feed s' ds)"

locale digest_stream =
  fixes fresh :: 's
    and feed :: "'s \<Rightarrow> string \<Rightarrow> 's res"
    and close :: "'s \<Rightarrow> (string \<times> 's) res"
    and holds :: "'s \<Rightarrow> string \<Rightarrow> bool"
    and digest :: "string \<Rightarrow> string"
  assumes holds_fresh: "holds fresh []"
    and feed_holds: "holds s m \<Longrightarrow> \<exists>s'. feed s d = Inr s' \<and> holds s' (m @ d)"
    and close_digest: "holds s m \<Longrightarrow> \<exists>s'. close s = Inr (digest m, s')"
begin

lemma feed_all_holds:
  "holds s m \<Longrightarrow> \<exists>s'. feed_all feed s ds = Inr s' \<and> holds s' (m @ concat ds)"
proof (induction ds arbitrary: s m)
  case Nil
  then show ?case by simp
next
  case (Cons d ds)
  from feed_holds [OF Cons.prems] obtain t where t: "feed s d = Inr t" "holds t (m @ d)" by blast
  from Cons.IH [OF t(2)] t(1) show ?case by simp
qed

lemma feed_all_close: "\<exists>s'. bindE (feed_all feed fresh ds) close = Inr (digest (concat ds), s')"
proof -
  from feed_all_holds [OF holds_fresh, of ds] obtain t
    where "feed_all feed fresh ds = Inr t" "holds t (concat ds)" by auto
  with close_digest show ?thesis by fastforce
qed

end

interpretation sha: digest_stream sha_new sha_update sha_finish sha_holds sha256_spec
proof unfold_locales
  show "sha_holds sha_new []" by (rule sha_holds_new)
  show "\<exists>s'. sha_update s d = Inr s' \<and> sha_holds s' (m @ d)" if "sha_holds s m" for s m d
    using that by (rule sha_update_holds) blast
  show "\<exists>s'. sha_finish s = Inr (sha256_spec m, s')" if "sha_holds s m" for s m
    using that by (rule sha_finish_holds) blast
qed

lemma sha256_hex_spec: "sha256_hex text = sha256_spec text"
proof -
  from sha.feed_all_close [of "[text]"] obtain s'
    where "bindE (sha_update sha_new text) sha_finish = Inr (sha256_spec text, s')"
    by (auto simp: bindE_assoc)
  then show ?thesis by (simp add: sha256_hex_def)
qed

lemma sha_finish_finished: "sha_finish s = Inr (h, s') \<Longrightarrow> sha_finished s'"
  by (auto simp: sha_finish_def Let_def bindE_eq_Inr split: if_splits)

section \<open>Shape of a digest\<close>

lemma length_sha_round: "length (sha_round w i vs) = length vs"
  by (induction w i vs rule: sha_round.induct) (simp_all add: Let_def)

lemma length_sha_rounds: "length (fold (sha_round w) is vs) = length vs"
  by (induction "is" arbitrary: vs) (simp_all add: length_sha_round)

lemma length_sha_transform [simp]: "length (sha_transform h b) = length h"
  by (simp add: sha_transform_def length_sha_rounds)

lemma length_foldl_sha_transform: "length (foldl sha_transform h bs) = length h"
  by (induction bs arbitrary: h) simp_all

lemma length_sha_compress_all [simp]: "length (sha_compress_all h d) = length h"
  by (simp add: sha_compress_all_def length_foldl_sha_transform)

lemma list_all_concat_hex: "list_all is_lower_hex (concat (map (\<lambda>v. hex_pad 8 (unat v)) ws))"
  by (induction ws) (simp_all add: hex_pad_lower_hex)

lemma length_concat_hex: "length (concat (map (\<lambda>v. hex_pad 8 (unat v)) ws)) = 8 * length ws"
  by (induction ws) simp_all

text \<open>The digest test that the repositories each define for themselves (\<^verbatim>\<open>sha256\<close>, \<^verbatim>\<open>digest\<close>, \<^verbatim>\<open>valid_sha256\<close>).\<close>

definition valid_sha256 :: "string \<Rightarrow> bool" where
  "valid_sha256 value \<longleftrightarrow> length value = 64 \<and> list_all is_lower_hex value"

lemma valid_sha256_hex [simp]: "valid_sha256 (sha256_hex text)"
  by (simp add: valid_sha256_def sha256_hex_spec sha256_spec_def list_all_concat_hex
      length_concat_hex sha_init_state_def)

section \<open>Hashing a file\<close>

text \<open>
  \<open>sha256_hex_file\<close> reads 64 KiB at a time until the stream stops. What the stream delivers is
  the argument: \<open>None\<close> when the file cannot be opened, otherwise the bytes it yields and
  whether it stopped at the end of the file.
\<close>

function file_reads :: "string \<Rightarrow> string list" where
  "file_reads content = (if content = [] then [] else take 65536 content # file_reads (drop 65536 content))"
  by pat_completeness auto
termination
  by (relation "measure length") auto

declare file_reads.simps [simp del]

lemma concat_file_reads: "concat (file_reads content) = content"
proof (induction content rule: file_reads.induct)
  case (1 content)
  then show ?case by (subst file_reads.simps) auto
qed

definition sha256_hex_file :: "string \<Rightarrow> (string \<times> bool) option \<Rightarrow> string res" where
  "sha256_hex_file path opened =
    (case opened of
       None \<Rightarrow> throwE (''cannot open file for SHA-256: '' @ path)
     | Some (content, at_eof) \<Rightarrow>
         bindE (feed_all sha_update sha_new (file_reads content)) (\<lambda>h.
         bindE (requireE at_eof (''failed while hashing: '' @ path)) (\<lambda>_.
         bindE (sha_finish h) (\<lambda>(hex, _). Inr hex))))"

lemma sha256_hex_file_ok: "sha256_hex_file path (Some (content, True)) = Inr (sha256_hex content)"
proof -
  from sha.feed_all_close [of "file_reads content"] obtain s'
    where "bindE (feed_all sha_update sha_new (file_reads content)) sha_finish = Inr (sha256_spec content, s')"
    by (auto simp: concat_file_reads)
  then show ?thesis
    by (auto simp: sha256_hex_file_def sha256_hex_spec bindE_eq_Inr elim!: bindE_InrE)
qed

end
