(* ===== verification/Usk_Utf8.thy ===== *)
theory Usk_Utf8
  imports Usk_Prelude
begin

unbundle bit_operations_syntax

text \<open>
  \<open>valid_utf8\<close> of \<^verbatim>\<open>runtime/base/usk_utf8_path.cpp\<close> and \<open>append_utf8\<close> of
  \<^verbatim>\<open>runtime/base/usk_json.cpp\<close>. The first decides a byte string by hand-written ranges and
  bit masks; the second is the encoder of the JSON reader. They meet in
  \<open>valid_utf8_iff\<close>: the accepted byte strings are exactly the concatenations of
  encoded Unicode scalar values.
\<close>

section \<open>Bit masks on small naturals\<close>

lemma or_low_bits:
  assumes "b < 2 ^ k"
  shows "push_bit k a OR b = a * 2 ^ k + (b :: nat)"
proof -
  have "b = take_bit k b" using assms by (simp add: take_bit_nat_eq_self)
  then have "push_bit k a AND b = push_bit k a AND take_bit k b" by simp
  also have "\<dots> = 0" by (simp add: bit_eq_iff bit_simps)
  finally show ?thesis by (simp add: disjunctive_add_eq_or [symmetric] push_bit_eq_mult)
qed

lemma and_mask_mod: "a AND (2 ^ k - 1) = a mod 2 ^ k" for a :: nat
  by (simp add: take_bit_eq_mod [symmetric] take_bit_eq_mask mask_eq_exp_minus_1)

lemma and_3f: "a AND 0x3f = a mod 64" for a :: nat
  using and_mask_mod [of a 6] by simp

lemma and_1f: "a AND 0x1f = a mod 32" for a :: nat
  using and_mask_mod [of a 5] by simp

lemma and_0f: "a AND 0x0f = a mod 16" for a :: nat
  using and_mask_mod [of a 4] by simp

lemma and_07: "a AND 0x07 = a mod 8" for a :: nat
  using and_mask_mod [of a 3] by simp

lemma or_80: "b < 64 \<Longrightarrow> 0x80 OR b = 128 + (b :: nat)"
  using or_low_bits [of b 6 2] by (simp add: push_bit_eq_mult)

lemma or_c0: "b < 32 \<Longrightarrow> 0xc0 OR b = 192 + (b :: nat)"
  using or_low_bits [of b 5 6] by (simp add: push_bit_eq_mult)

lemma or_e0: "b < 16 \<Longrightarrow> 0xe0 OR b = 224 + (b :: nat)"
  using or_low_bits [of b 4 14] by (simp add: push_bit_eq_mult)

lemma or_f0: "b < 8 \<Longrightarrow> 0xf0 OR b = 240 + (b :: nat)"
  using or_low_bits [of b 3 30] by (simp add: push_bit_eq_mult)

lemma shift_or_6: "b < 64 \<Longrightarrow> push_bit 6 a OR b = a * 64 + (b :: nat)"
  using or_low_bits [of b 6 a] by simp

lemma and_push_bit: "x AND push_bit k m = push_bit k (drop_bit k x AND m)" for x :: nat
  by (rule bit_eqI) (auto simp: bit_and_iff bit_push_bit_iff bit_drop_bit_eq)

lemma and_c0:
  assumes "x < 256"
  shows "x AND 0xc0 = x div 64 * (64 :: nat)"
proof -
  have "x AND 0xc0 = push_bit 6 (drop_bit 6 x AND 3)"
    using and_push_bit [of x 6 3] by (simp add: push_bit_eq_mult)
  also have "drop_bit 6 x AND 3 = drop_bit 6 x mod 4"
    using and_mask_mod [of "drop_bit 6 x" 2] by simp
  finally show ?thesis using assms by (simp add: push_bit_eq_mult drop_bit_eq_div)
qed

lemma split_64: "d < 64 \<Longrightarrow> (128 + d) div 64 = 2 \<and> (128 + d) mod 64 = (d :: nat)"
  using div_mult_self4 [of 64 2 d] mod_mult_self4 [of 64 2 d] by simp

lemma split_lead:
  "a < 32 \<Longrightarrow> (192 + a) mod 32 = (a :: nat)"
  "a < 16 \<Longrightarrow> (224 + a) mod 16 = (a :: nat)"
  "a < 8 \<Longrightarrow> (240 + a) mod 8 = (a :: nat)"
  using mod_mult_self4 [of 32 6 a] mod_mult_self4 [of 16 14 a] mod_mult_self4 [of 8 30 a] by simp_all

lemmas mask_simps = and_3f and_1f and_0f and_07 or_80 or_c0 or_e0 or_f0 shift_or_6 drop_bit_eq_div

section \<open>The decoder\<close>

definition utf8_lead :: "nat \<Rightarrow> (nat \<times> nat) option" where
  "utf8_lead first =
    (if first \<ge> 0xc2 \<and> first \<le> 0xdf then Some (first AND 0x1f, 1)
     else if first \<ge> 0xe0 \<and> first \<le> 0xef then Some (first AND 0x0f, 2)
     else if first \<ge> 0xf0 \<and> first \<le> 0xf4 then Some (first AND 0x07, 3)
     else None)"

fun utf8_continue :: "nat \<Rightarrow> string \<Rightarrow> nat option" where
  "utf8_continue codepoint [] = Some codepoint"
| "utf8_continue codepoint (c # cs) =
    (if byte c AND 0xc0 \<noteq> 0x80 then None
     else utf8_continue (push_bit 6 codepoint OR (byte c AND 0x3f)) cs)"

function valid_utf8 :: "string \<Rightarrow> bool" where
  "valid_utf8 [] = True"
| "valid_utf8 (c # cs) =
    (if byte c \<le> 0x7f then valid_utf8 cs
     else case utf8_lead (byte c) of
       None \<Rightarrow> False
     | Some (lead, remaining) \<Rightarrow>
         if remaining > length cs then False
         else case utf8_continue lead (take remaining cs) of
           None \<Rightarrow> False
         | Some codepoint \<Rightarrow>
             if remaining = 2 \<and> codepoint < 0x800 \<or> remaining = 3 \<and> codepoint < 0x10000 \<or>
                codepoint > 0x10ffff \<or> codepoint \<ge> 0xd800 \<and> codepoint \<le> 0xdfff
             then False
             else valid_utf8 (drop remaining cs))"
  by pat_completeness auto
termination
  by (relation "measure length") auto

section \<open>The encoder\<close>

definition append_utf8 :: "nat \<Rightarrow> string" where
  "append_utf8 codepoint =
    (if codepoint \<le> 0x7f then [char_of codepoint]
     else if codepoint \<le> 0x7ff then
       [char_of (0xc0 OR drop_bit 6 codepoint), char_of (0x80 OR (codepoint AND 0x3f))]
     else if codepoint \<le> 0xffff then
       [char_of (0xe0 OR drop_bit 12 codepoint), char_of (0x80 OR (drop_bit 6 codepoint AND 0x3f)),
        char_of (0x80 OR (codepoint AND 0x3f))]
     else
       [char_of (0xf0 OR drop_bit 18 codepoint), char_of (0x80 OR (drop_bit 12 codepoint AND 0x3f)),
        char_of (0x80 OR (drop_bit 6 codepoint AND 0x3f)), char_of (0x80 OR (codepoint AND 0x3f))])"

definition unicode_scalar :: "nat \<Rightarrow> bool" where
  "unicode_scalar cp \<longleftrightarrow> cp \<le> 0x10ffff \<and> \<not> (0xd800 \<le> cp \<and> cp \<le> 0xdfff)"

section \<open>The two agree\<close>

lemma continuation_char:
  "d < 64 \<Longrightarrow> byte (char_of (128 + d)) AND 0xc0 = 0x80 \<and> byte (char_of (128 + d)) AND 0x3f = d"
  by (simp add: and_c0 and_3f split_64)

lemma continue_char:
  "d < 64 \<Longrightarrow> utf8_continue cp (char_of (128 + d) # cs) = utf8_continue (cp * 64 + d) cs"
  using continuation_char [of d] shift_or_6 [of d cp] by simp

lemma continue_cases:
  "utf8_continue cp (c # cs) = Some r \<longleftrightarrow>
    (\<exists>d<64. c = char_of (128 + d) \<and> utf8_continue (cp * 64 + d) cs = Some r)"
proof
  assume *: "utf8_continue cp (c # cs) = Some r"
  have lt: "byte c < 256" by (rule byte_less_256)
  from * have "byte c div 64 * 64 = 128" using and_c0 [OF lt] by (auto split: if_splits)
  then have eq: "byte c = 128 + byte c mod 64" by (metis div_mult_mod_eq)
  then have "c = char_of (128 + byte c mod 64)" by (metis char_of_byte)
  moreover from * have "utf8_continue (cp * 64 + byte c mod 64) cs = Some r"
    by (auto simp: mask_simps split: if_splits)
  ultimately show "\<exists>d<64. c = char_of (128 + d) \<and> utf8_continue (cp * 64 + d) cs = Some r"
    by (intro exI [of _ "byte c mod 64"]) simp
next
  assume "\<exists>d<64. c = char_of (128 + d) \<and> utf8_continue (cp * 64 + d) cs = Some r"
  then show "utf8_continue cp (c # cs) = Some r" by (metis continue_char)
qed

declare utf8_continue.simps(2) [simp del]

lemma append_utf8_eq:
  "cp \<le> 0x7f \<Longrightarrow> append_utf8 cp = [char_of cp]"
  "0x80 \<le> cp \<Longrightarrow> cp \<le> 0x7ff \<Longrightarrow> append_utf8 cp = [char_of (192 + cp div 64), char_of (128 + cp mod 64)]"
  "0x800 \<le> cp \<Longrightarrow> cp \<le> 0xffff \<Longrightarrow> append_utf8 cp =
    [char_of (224 + cp div 4096), char_of (128 + cp div 64 mod 64), char_of (128 + cp mod 64)]"
  "0x10000 \<le> cp \<Longrightarrow> cp \<le> 0x10ffff \<Longrightarrow> append_utf8 cp =
    [char_of (240 + cp div 262144), char_of (128 + cp div 4096 mod 64),
     char_of (128 + cp div 64 mod 64), char_of (128 + cp mod 64)]"
  by (auto simp: append_utf8_def mask_simps)

lemma utf8_lead_eq:
  "2 \<le> a \<Longrightarrow> a < 32 \<Longrightarrow> utf8_lead (192 + a) = Some (a, 1)"
  "a < 16 \<Longrightarrow> utf8_lead (224 + a) = Some (a, 2)"
  "a < 5 \<Longrightarrow> utf8_lead (240 + a) = Some (a, 3)"
  by (auto simp: utf8_lead_def mask_simps split_lead)

lemma utf8_lead_cases:
  assumes "utf8_lead b = Some (cp, k)"
  obtains "k = 1" "b = 192 + cp" "2 \<le> cp" "cp < 32"
  | "k = 2" "b = 224 + cp" "cp < 16"
  | "k = 3" "b = 240 + cp" "cp < 5"
proof -
  consider "b \<ge> 0xc2" "b \<le> 0xdf" | "b \<ge> 0xe0" "b \<le> 0xef" | "b \<ge> 0xf0" "b \<le> 0xf4"
    using assms by (auto simp: utf8_lead_def split: if_splits)
  then show ?thesis
  proof cases
    case 1
    then obtain a where "b = 192 + a" "2 \<le> a" "a < 32"
      by (intro that [of "b - 192"]) auto
    with assms that(1) utf8_lead_eq(1) [of a] show ?thesis by auto
  next
    case 2
    then obtain a where "b = 224 + a" "a < 16"
      by (intro that [of "b - 224"]) auto
    with assms that(2) utf8_lead_eq(2) [of a] show ?thesis by auto
  next
    case 3
    then obtain a where "b = 240 + a" "a < 5"
      by (intro that [of "b - 240"]) auto
    with assms that(3) utf8_lead_eq(3) [of a] show ?thesis by auto
  qed
qed

lemma valid_utf8_append_utf8:
  assumes "unicode_scalar cp"
  shows "valid_utf8 (append_utf8 cp @ rest) = valid_utf8 rest"
proof -
  consider "cp \<le> 0x7f" | "0x80 \<le> cp" "cp \<le> 0x7ff" | "0x800 \<le> cp" "cp \<le> 0xffff"
    | "0x10000 \<le> cp" "cp \<le> 0x10ffff"
    using assms by (force simp: unicode_scalar_def)
  then show ?thesis
  proof cases
    case 1
    then show ?thesis by (simp add: append_utf8_eq)
  next
    case 2
    then have "2 \<le> cp div 64" "cp div 64 < 32" by simp_all
    with 2 utf8_lead_eq(1) [of "cp div 64"] show ?thesis
      by (simp add: append_utf8_eq continue_char)
  next
    case 3
    then have "cp div 4096 < 16" by simp
    moreover have "cp div 4096 * 64 + cp div 64 mod 64 = cp div 64"
      using div_mult_mod_eq [of "cp div 64" 64] by (simp add: div_mult2_eq [symmetric])
    ultimately show ?thesis using 3 assms utf8_lead_eq(2) [of "cp div 4096"]
      by (auto simp: append_utf8_eq continue_char unicode_scalar_def)
  next
    case 4
    then have "cp div 262144 < 5" by simp
    moreover have "cp div 262144 * 64 + cp div 4096 mod 64 = cp div 4096"
      and "cp div 4096 * 64 + cp div 64 mod 64 = cp div 64"
      using div_mult_mod_eq [of "cp div 4096" 64] div_mult_mod_eq [of "cp div 64" 64]
      by (simp_all add: div_mult2_eq [symmetric])
    ultimately show ?thesis using 4 assms utf8_lead_eq(3) [of "cp div 262144"]
      by (simp add: append_utf8_eq continue_char unicode_scalar_def)
  qed
qed

lemma valid_utf8_encoded:
  "list_all unicode_scalar cps \<Longrightarrow> valid_utf8 (concat (map append_utf8 cps))"
  by (induction cps) (simp_all add: valid_utf8_append_utf8)

lemma base64_digit: "e < 64 \<Longrightarrow> (q * 64 + e) div 64 = q" "e < 64 \<Longrightarrow> (q * 64 + e) mod 64 = (e :: nat)"
  by simp_all

lemma utf8_continue_encodes:
  assumes lead: "utf8_lead (byte c) = Some (lead, k)" and len: "k \<le> length cs"
    and cont: "utf8_continue lead (take k cs) = Some cp"
    and ok: "\<not> (k = 2 \<and> cp < 0x800 \<or> k = 3 \<and> cp < 0x10000 \<or> cp > 0x10ffff)"
  shows "c # take k cs = append_utf8 cp"
  using lead
proof (cases rule: utf8_lead_cases)
  case 1
  have c: "c = char_of (192 + lead)" using 1 by (metis char_of_byte)
  obtain c1 where t: "take k cs = [c1]" using len 1(1) by (cases cs) auto
  with cont obtain d where d: "d < 64" "c1 = char_of (128 + d)" "cp = lead * 64 + d"
    by (auto simp: continue_cases)
  then show ?thesis using c t 1 by (simp add: append_utf8_eq)
next
  case 2
  have c: "c = char_of (224 + lead)" using 2 by (metis char_of_byte)
  obtain c1 c2 where t: "take k cs = [c1, c2]"
    using len 2(1) by (cases cs; cases "tl cs") auto
  with cont obtain d e where d: "d < 64" "c1 = char_of (128 + d)" "e < 64" "c2 = char_of (128 + e)"
      "cp = (lead * 64 + d) * 64 + e"
    by (auto simp: continue_cases)
  have *: "cp div 64 = lead * 64 + d" "cp mod 64 = e" using d by (simp_all only: base64_digit)
  moreover from * d have "cp div 4096 = lead" using div_mult2_eq [of cp 64 64] by simp
  ultimately show ?thesis using c t d 2 ok by (simp add: append_utf8_eq)
next
  case 3
  have c: "c = char_of (240 + lead)" using 3 by (metis char_of_byte)
  obtain c1 c2 c3 where t: "take k cs = [c1, c2, c3]"
    using len 3(1) by (cases cs; cases "tl cs"; cases "tl (tl cs)") auto
  with cont obtain d e f where d: "d < 64" "c1 = char_of (128 + d)" "e < 64" "c2 = char_of (128 + e)"
      "f < 64" "c3 = char_of (128 + f)" "cp = ((lead * 64 + d) * 64 + e) * 64 + f"
    by (auto simp: continue_cases)
  have *: "cp div 64 = (lead * 64 + d) * 64 + e" "cp mod 64 = f" using d by (simp_all only: base64_digit)
  moreover have **: "cp div 4096 = lead * 64 + d"
    using div_mult2_eq [of cp 64 64] * base64_digit(1) [OF d(3), of "lead * 64 + d"] by simp
  moreover from * d have "cp div 64 mod 64 = e" by (simp only: base64_digit)
  moreover from ** d have "cp div 4096 mod 64 = d" by (simp only: base64_digit)
  moreover from ** d have "cp div 262144 = lead" using div_mult2_eq [of cp 4096 64] by simp
  ultimately show ?thesis using c t d(2,4,6) 3 ok append_utf8_eq(4) [of cp] by simp
qed

lemma valid_utf8_decodes:
  "valid_utf8 s \<Longrightarrow> \<exists>cps. list_all unicode_scalar cps \<and> s = concat (map append_utf8 cps)"
proof (induction s rule: valid_utf8.induct)
  case 1
  show ?case by (intro exI [of _ "[]"]) simp
next
  case (2 c cs)
  show ?case
  proof (cases "byte c \<le> 0x7f")
    case True
    with 2 obtain cps where "list_all unicode_scalar cps" "cs = concat (map append_utf8 cps)" by auto
    with True show ?thesis
      by (intro exI [of _ "byte c # cps"]) (auto simp: append_utf8_eq unicode_scalar_def [of "byte c"])
  next
    case False
    with "2.prems" obtain lead k where lead: "utf8_lead (byte c) = Some (lead, k)"
      by (cases "utf8_lead (byte c)") auto
    with "2.prems" False obtain cp where cp: "utf8_continue lead (take k cs) = Some cp"
      by (cases "utf8_continue lead (take k cs)") (auto split: if_splits)
    have s: "utf8_lead (byte c) = Some (lead, k)" "k \<le> length cs" "utf8_continue lead (take k cs) = Some cp"
      and ok: "\<not> (k = 2 \<and> cp < 0x800 \<or> k = 3 \<and> cp < 0x10000 \<or> cp > 0x10ffff \<or> cp \<ge> 0xd800 \<and> cp \<le> 0xdfff)"
      and v: "valid_utf8 (drop k cs)"
      using "2.prems" False lead cp by (auto split: if_splits)
    from "2.IH"(2) [OF False s(1) refl _ s(3) _ v] s(2) ok obtain cps
      where cps: "list_all unicode_scalar cps" "drop k cs = concat (map append_utf8 cps)" by auto
    have "c # take k cs = append_utf8 cp" using s ok by (intro utf8_continue_encodes) auto
    then have "c # cs = append_utf8 cp @ drop k cs" by (metis append_Cons append_take_drop_id)
    with cps ok show ?thesis
      by (intro exI [of _ "cp # cps"]) (auto simp: unicode_scalar_def [of cp])
  qed
qed

lemma valid_utf8_append: "valid_utf8 a \<Longrightarrow> valid_utf8 b \<Longrightarrow> valid_utf8 (a @ b)"
proof -
  assume "valid_utf8 a" "valid_utf8 b"
  then obtain xs ys where "list_all unicode_scalar xs" "a = concat (map append_utf8 xs)"
    "list_all unicode_scalar ys" "b = concat (map append_utf8 ys)"
    by (metis valid_utf8_decodes)
  then show ?thesis using valid_utf8_encoded [of "xs @ ys"] by simp
qed

lemma valid_utf8_ascii: "list_all (\<lambda>c. byte c \<le> 0x7f) s \<Longrightarrow> valid_utf8 s"
  by (induction s) auto

end
