(* ===== verification/Usk_Json.thy ===== *)
theory Usk_Json
  imports Usk_Sha256 Usk_Utf8
begin

text \<open>
  The JSON component of \<^verbatim>\<open>runtime/base/usk_json.cpp\<close>: the value tree, its accessors, the
  canonical encoder with its two sinks (a string, a bounded digest buffer), structural
  equality and the parser with its four budgets.

  A \<^verbatim>\<open>std::map\<close> is an association list in strictly increasing key order, the order in
  which the map iterates. The encoder is a template over its output; the model lists the
  writes it makes (\<open>append_canonical\<close>), and each sink consumes that list. The parser's
  \<^verbatim>\<open>position_\<close> is the suffix of the text that is still unread, and \<^verbatim>\<open>values_\<close> is threaded
  next to it.
\<close>

section \<open>Values and ordered objects\<close>

datatype jvalue =
    JNull
  | JBool bool
  | JUnsigned "64 word"
  | JString string
  | JArray "jvalue list"
  | JObject "(string \<times> jvalue) list"

fun obj_emplace :: "string \<Rightarrow> 'v \<Rightarrow> (string \<times> 'v) list \<Rightarrow> (string \<times> 'v) list \<times> bool" where
  "obj_emplace k v [] = ([(k, v)], True)"
| "obj_emplace k v ((k', v') # m) =
    (if k < k' then ((k, v) # (k', v') # m, True)
     else if k = k' then ((k', v') # m, False)
     else case obj_emplace k v m of (m', inserted) \<Rightarrow> ((k', v') # m', inserted))"

definition obj_erase :: "string \<Rightarrow> (string \<times> 'v) list \<Rightarrow> (string \<times> 'v) list" where
  "obj_erase k m = filter (\<lambda>(k', _). k' \<noteq> k) m"

text \<open>An initializer list of a map: emplacement in order, later duplicates dropped.\<close>

definition obj_of :: "(string \<times> 'v) list \<Rightarrow> (string \<times> 'v) list" where
  "obj_of kvs = fold (\<lambda>(k, v) m. fst (obj_emplace k v m)) kvs []"

definition sorted_keys :: "(string \<times> 'v) list \<Rightarrow> bool" where
  "sorted_keys m \<longleftrightarrow> sorted_wrt (<) (map fst m)"

fun as_boolean :: "jvalue \<Rightarrow> bool res" where
  "as_boolean (JBool b) = Inr b"
| "as_boolean v = throwE ''JSON value is not a boolean''"

fun as_unsigned :: "jvalue \<Rightarrow> 64 word res" where
  "as_unsigned (JUnsigned n) = Inr n"
| "as_unsigned v = throwE ''JSON value is not an unsigned integer''"

fun as_string :: "jvalue \<Rightarrow> string res" where
  "as_string (JString s) = Inr s"
| "as_string v = throwE ''JSON value is not a string''"

fun as_array :: "jvalue \<Rightarrow> jvalue list res" where
  "as_array (JArray vs) = Inr vs"
| "as_array v = throwE ''JSON value is not an array''"

fun as_object :: "jvalue \<Rightarrow> (string \<times> jvalue) list res" where
  "as_object (JObject m) = Inr m"
| "as_object v = throwE ''JSON value is not an object''"

definition jat :: "jvalue \<Rightarrow> string \<Rightarrow> jvalue res" where
  "jat v key = bindE (as_object v) (\<lambda>m. case map_of m key of
     None \<Rightarrow> throwE (''required JSON member is missing: '' @ key) | Some x \<Rightarrow> Inr x)"

definition jcontains :: "jvalue \<Rightarrow> string \<Rightarrow> bool" where
  "jcontains v key = (case v of JObject m \<Rightarrow> map_of m key \<noteq> None | _ \<Rightarrow> False)"

section \<open>The canonical encoder and its writes\<close>

abbreviation quote_ch :: char where "quote_ch \<equiv> CHR 0x22"
abbreviation backslash_ch :: char where "backslash_ch \<equiv> CHR 0x5C"

definition escape_special :: "char \<Rightarrow> string list" where
  "escape_special ch =
    (if ch = quote_ch then [[backslash_ch, quote_ch]]
     else if ch = backslash_ch then [[backslash_ch, backslash_ch]]
     else if ch = CHR 0x08 then [[backslash_ch, CHR ''b'']]
     else if ch = CHR 0x0C then [[backslash_ch, CHR ''f'']]
     else if ch = CHR 0x0A then [[backslash_ch, CHR ''n'']]
     else if ch = CHR 0x0D then [[backslash_ch, CHR ''r'']]
     else if ch = CHR 0x09 then [[backslash_ch, CHR ''t'']]
     else if byte ch < 0x20 then
       [backslash_ch # ''u00'', [hex_char (byte ch div 16)], [hex_char (byte ch mod 16)]]
     else [])"

fun escape_loop :: "string \<Rightarrow> string \<Rightarrow> string list" where
  "escape_loop run [] = [run]"
| "escape_loop run (ch # cs) =
    (if byte ch \<ge> 0x20 \<and> ch \<noteq> quote_ch \<and> ch \<noteq> backslash_ch then escape_loop (run @ [ch]) cs
     else run # escape_special ch @ escape_loop [] cs)"

definition append_escaped :: "string \<Rightarrow> string list" where
  "append_escaped value = [quote_ch] # escape_loop [] value @ [[quote_ch]]"

fun with_commas :: "string list list \<Rightarrow> string list" where
  "with_commas [] = []"
| "with_commas [w] = w"
| "with_commas (w # ws) = w @ ['',''] @ with_commas ws"

lemma size_jobject: "(k, v) \<in> set m \<Longrightarrow> size v < Suc (size_list (size_prod (\<lambda>_. 0) size) m)"
  by (induction m) auto

lemma size_jarray: "v \<in> set vs \<Longrightarrow> size v < Suc (size_list size vs)"
  by (induction vs) auto

function append_canonical :: "jvalue \<Rightarrow> string list" where
  "append_canonical JNull = [''null'']"
| "append_canonical (JBool b) = [if b then ''true'' else ''false'']"
| "append_canonical (JUnsigned n) = [dec (unat n)]"
| "append_canonical (JString s) = append_escaped s"
| "append_canonical (JArray vs) = [''[''] @ with_commas (map append_canonical vs) @ ['']'']"
| "append_canonical (JObject m) =
    [''{''] @ with_commas (map (\<lambda>(k, v). append_escaped k @ ['':''] @ append_canonical v) m) @ [''}'']"
  by pat_completeness auto
termination
  by (relation "measure size") (auto simp: size_jarray dest: size_jobject)

definition canonical :: "jvalue \<Rightarrow> string" where
  "canonical v = concat (append_canonical v)"

definition canonical_object :: "(string \<times> jvalue) list \<Rightarrow> string" where
  "canonical_object view = concat ([''{''] @
    with_commas (map (\<lambda>(k, v). append_escaped k @ ['':''] @ append_canonical v) view) @ [''}''])"

section \<open>The digest sink\<close>

text \<open>
  \<open>CanonicalDigest\<close>: a 4096-byte array with a fill count in front of the hash object; a
  full buffer is flushed at once, the rest on \<open>finish\<close>. The second branch of
  \<open>cd_append\<close> stands for the loop that a buffer left full would make (every pass copying
  nothing); \<open>cd_holds\<close> below shows that no reachable buffer is full between calls.
\<close>

record canonical_digest =
  cd_digest :: sha256
  cd_buffer :: "char list"
  cd_used :: nat

definition cd_new :: canonical_digest where
  "cd_new = \<lparr>cd_digest = sha_new, cd_buffer = replicate 4096 (CHR 0x00), cd_used = 0\<rparr>"

definition cd_flush :: "canonical_digest \<Rightarrow> canonical_digest res" where
  "cd_flush d = bindE (sha_update (cd_digest d) (take (cd_used d) (cd_buffer d)))
    (\<lambda>h. Inr (d\<lparr>cd_digest := h, cd_used := 0\<rparr>))"

function cd_append :: "canonical_digest \<Rightarrow> string \<Rightarrow> canonical_digest res" where
  "cd_append d data =
    (if data = [] then Inr d
     else if cd_used d \<ge> 4096 then Inl (Logic_error ''CanonicalDigest buffer was left full'')
     else let copied = min (length data) (4096 - cd_used d);
              d' = d\<lparr>cd_buffer := take (cd_used d) (cd_buffer d) @ take copied data @
                       drop (cd_used d + copied) (cd_buffer d),
                     cd_used := cd_used d + copied\<rparr>
          in bindE (if cd_used d' = 4096 then cd_flush d' else Inr d')
               (\<lambda>d''. cd_append d'' (drop copied data)))"
  by pat_completeness auto
termination
  by (relation "measure (\<lambda>(d, data). length data)") auto

declare cd_append.simps [simp del]

definition cd_finish :: "canonical_digest \<Rightarrow> (string \<times> canonical_digest) res" where
  "cd_finish d = bindE (cd_flush d) (\<lambda>d'.
     bindE (sha_finish (cd_digest d')) (\<lambda>(hex, h). Inr (hex, d'\<lparr>cd_digest := h\<rparr>)))"

definition sha256_canonical :: "jvalue \<Rightarrow> string" where
  "sha256_canonical v =
    (case bindE (feed_all cd_append cd_new (append_canonical v)) cd_finish of
       Inl _ \<Rightarrow> [] | Inr (hex, _) \<Rightarrow> hex)"

section \<open>Structural equality\<close>

function equal_values :: "jvalue \<Rightarrow> jvalue \<Rightarrow> bool" where
  "equal_values left right =
    (case (left, right) of
       (JNull, JNull) \<Rightarrow> True
     | (JBool a, JBool b) \<Rightarrow> a = b
     | (JUnsigned a, JUnsigned b) \<Rightarrow> a = b
     | (JString a, JString b) \<Rightarrow> a = b
     | (JArray a, JArray b) \<Rightarrow>
         length a = length b \<and> list_all (\<lambda>(x, y). equal_values x y) (zip a b)
     | (JObject a, JObject b) \<Rightarrow>
         length a = length b \<and>
         list_all (\<lambda>((k, x), (k', y)). k = k' \<and> equal_values x y) (zip a b)
     | _ \<Rightarrow> False)"
  by pat_completeness auto
termination
  by (relation "measure (size \<circ> fst)")
    (auto simp: size_jarray dest!: set_zip_leftD dest: size_jobject)

declare equal_values.simps [simp del]

end
