(* ===== verification/Usk_Json_Parse.thy ===== *)
theory Usk_Json_Parse
  imports Usk_Json
begin

text \<open>
  The class \<^verbatim>\<open>Parser\<close> of \<^verbatim>\<open>runtime/base/usk_json.cpp\<close>. Each member function takes the
  unread suffix of the text (and the value count where it changes it) and returns what is
  left, or the exception it throws. The three mutually recursive loops (\<^verbatim>\<open>value\<close>, the element
  loop of \<^verbatim>\<open>array\<close>, the member loop of \<^verbatim>\<open>object\<close>) are total: every call leaves a suffix no
  longer than it got, which is proved for the partial functions first and then closes the
  termination proof.
\<close>

section \<open>Budgets and lexical functions\<close>

record parse_limits =
  max_bytes :: nat
  max_depth :: nat
  max_values :: nat
  max_string_bytes :: nat

definition default_limits :: parse_limits where
  "default_limits = \<lparr>max_bytes = 4 * 1024 * 1024, max_depth = 64, max_values = 100000,
    max_string_bytes = 1024 * 1024\<rparr>"

definition is_space :: "char \<Rightarrow> bool" where
  "is_space c \<longleftrightarrow> c = CHR '' '' \<or> c = CHR 0x09 \<or> c = CHR 0x0D \<or> c = CHR 0x0A"

definition skip_space :: "string \<Rightarrow> string" where
  "skip_space s = dropWhile is_space s"

definition consume :: "char \<Rightarrow> string \<Rightarrow> string option" where
  "consume expected s = (case s of [] \<Rightarrow> None | c # cs \<Rightarrow> if c = expected then Some cs else None)"

definition require_ch :: "char \<Rightarrow> string \<Rightarrow> string res" where
  "require_ch expected s = (case consume expected (skip_space s) of
     None \<Rightarrow> throwE ''JSON punctuation is invalid'' | Some cs \<Rightarrow> Inr cs)"

definition p_literal :: "string \<Rightarrow> string \<Rightarrow> string res" where
  "p_literal token s = (if take (length token) s \<noteq> token then throwE ''JSON literal is invalid''
     else Inr (drop (length token) s))"

fun p_digits :: "64 word \<Rightarrow> string \<Rightarrow> (64 word \<times> string) res" where
  "p_digits result [] = Inr (result, [])"
| "p_digits result (c # cs) =
    (if \<not> isdigit c then Inr (result, c # cs)
     else let digit = of_nat (digit_value c) in
       if result > (- 1 - digit) div 10 then throwE ''JSON integer overflows uint64''
       else p_digits (result * 10 + digit) cs)"

definition p_number :: "string \<Rightarrow> (64 word \<times> string) res" where
  "p_number s =
    (if take 1 s = ''0'' \<and> drop 1 s \<noteq> [] \<and> isdigit (hd (drop 1 s))
     then throwE ''JSON integer has a leading zero''
     else bindE (p_digits 0 s) (\<lambda>(result, rest).
       if rest \<noteq> [] \<and> (hd rest = CHR ''.'' \<or> hd rest = CHR ''e'' \<or> hd rest = CHR ''E'')
       then throwE ''JSON floating point numbers are forbidden''
       else Inr (result, rest)))"

definition hex_digit :: "char \<Rightarrow> nat res" where
  "hex_digit ch =
    (if CHR ''0'' \<le> ch \<and> ch \<le> CHR ''9'' then Inr (byte ch - byte (CHR ''0''))
     else if CHR ''a'' \<le> ch \<and> ch \<le> CHR ''f'' then Inr (byte ch - byte (CHR ''a'') + 10)
     else if CHR ''A'' \<le> ch \<and> ch \<le> CHR ''F'' then Inr (byte ch - byte (CHR ''A'') + 10)
     else throwE ''JSON Unicode escape is invalid'')"

fun hex_digits :: "nat \<Rightarrow> string \<Rightarrow> nat res" where
  "hex_digits result [] = Inr result"
| "hex_digits result (c # cs) = bindE (hex_digit c) (\<lambda>d. hex_digits (result * 16 + d) cs)"

definition unicode_escape :: "string \<Rightarrow> (nat \<times> string) res" where
  "unicode_escape s =
    (if 4 > length s then throwE ''JSON Unicode escape is truncated''
     else bindE (hex_digits 0 (take 4 s)) (\<lambda>u. Inr (u, drop 4 s)))"

definition unicode_char :: "string \<Rightarrow> (nat \<times> string) res" where
  "unicode_char s = bindE (unicode_escape s) (\<lambda>(codepoint, s1).
    if codepoint \<ge> 0xd800 \<and> codepoint \<le> 0xdbff then
      (if take 2 s1 \<noteq> [backslash_ch, CHR ''u'']
       then throwE ''JSON high surrogate lacks a low surrogate''
       else bindE (unicode_escape (drop 2 s1)) (\<lambda>(low, s2).
         if low < 0xdc00 \<or> low > 0xdfff then throwE ''JSON low surrogate is invalid''
         else Inr (0x10000 + (codepoint - 0xd800) * 1024 + (low - 0xdc00), s2)))
    else if codepoint \<ge> 0xdc00 \<and> codepoint \<le> 0xdfff
      then throwE ''JSON contains an unpaired low surrogate''
    else Inr (codepoint, s1))"

definition simple_escape :: "char \<Rightarrow> char option" where
  "simple_escape e =
    (if e = quote_ch then Some quote_ch else if e = backslash_ch then Some backslash_ch
     else if e = CHR ''/'' then Some (CHR ''/'') else if e = CHR ''b'' then Some (CHR 0x08)
     else if e = CHR ''f'' then Some (CHR 0x0C) else if e = CHR ''n'' then Some (CHR 0x0A)
     else if e = CHR ''r'' then Some (CHR 0x0D) else if e = CHR ''t'' then Some (CHR 0x09) else None)"

lemma unicode_escape_length: "unicode_escape s = Inr (u, r) \<Longrightarrow> length r + 4 = length s"
  by (auto simp: unicode_escape_def bindE_eq_Inr split: if_splits)

lemma unicode_char_length: "unicode_char s = Inr (u, r) \<Longrightarrow> length r < length s"
  by (auto simp: unicode_char_def bindE_eq_Inr dest!: unicode_escape_length split: if_splits)

section \<open>Strings\<close>

function p_string :: "parse_limits \<Rightarrow> string \<Rightarrow> string \<Rightarrow> (string \<times> string) res" where
  "p_string L result s =
    (case s of
       [] \<Rightarrow> throwE ''JSON string is unterminated''
     | ch # s1 \<Rightarrow>
         if ch = quote_ch then
           (if length result > max_string_bytes L then throwE ''JSON string exceeds budget''
            else if \<not> valid_utf8 result then throwE ''JSON string is not valid UTF-8''
            else Inr (result, s1))
         else if byte ch < 0x20 then throwE ''JSON string contains an unescaped control byte''
         else if ch \<noteq> backslash_ch then p_string L (result @ [ch]) s1
         else (case s1 of
             [] \<Rightarrow> throwE ''JSON escape is truncated''
           | e # s2 \<Rightarrow> (case simple_escape e of
               Some c \<Rightarrow> p_string L (result @ [c]) s2
             | None \<Rightarrow>
                 if e = CHR ''u''
                 then bindE (unicode_char s2) (\<lambda>(u, s3). p_string L (result @ append_utf8 u) s3)
                 else throwE ''JSON string escape is invalid'')))"
  by pat_completeness auto
termination
  by (relation "measure (\<lambda>(L, result, s). length s)") (auto dest: unicode_char_length)

declare p_string.simps [simp del]

lemma p_string_Nil: "p_string L result [] = throwE ''JSON string is unterminated''"
  by (subst p_string.simps) simp

lemma p_string_quote:
  "p_string L result (quote_ch # s) =
    (if length result > max_string_bytes L then throwE ''JSON string exceeds budget''
     else if \<not> valid_utf8 result then throwE ''JSON string is not valid UTF-8''
     else Inr (result, s))"
  by (subst p_string.simps) simp

lemma p_string_control:
  "ch \<noteq> quote_ch \<Longrightarrow> byte ch < 0x20 \<Longrightarrow>
    p_string L result (ch # s) = throwE ''JSON string contains an unescaped control byte''"
  by (subst p_string.simps) simp

lemma p_string_plain:
  "byte ch \<ge> 0x20 \<Longrightarrow> ch \<noteq> quote_ch \<Longrightarrow> ch \<noteq> backslash_ch \<Longrightarrow>
    p_string L result (ch # s) = p_string L (result @ [ch]) s"
  by (subst p_string.simps) simp

lemma p_string_escape:
  "p_string L result (backslash_ch # s) =
    (case s of [] \<Rightarrow> throwE ''JSON escape is truncated''
     | e # s2 \<Rightarrow> (case simple_escape e of
         Some c \<Rightarrow> p_string L (result @ [c]) s2
       | None \<Rightarrow>
           if e = CHR ''u''
           then bindE (unicode_char s2) (\<lambda>(u, s3). p_string L (result @ append_utf8 u) s3)
           else throwE ''JSON string escape is invalid''))"
  by (subst p_string.simps) simp

lemmas p_string_cases = p_string_Nil p_string_quote p_string_control p_string_plain p_string_escape

text \<open>Induction over a successful run: one case per way a character of the result is read.\<close>

lemma p_string_Inr_induct [consumes 1, case_names quote plain simple unicode]:
  assumes "p_string L acc s = Inr (t, r)"
    and quote: "\<And>acc. length acc \<le> max_string_bytes L \<Longrightarrow> valid_utf8 acc \<Longrightarrow> P acc (quote_ch # r) acc"
    and plain: "\<And>acc ch s. byte ch \<ge> 0x20 \<Longrightarrow> ch \<noteq> quote_ch \<Longrightarrow> ch \<noteq> backslash_ch \<Longrightarrow>
      P (acc @ [ch]) s t \<Longrightarrow> P acc (ch # s) t"
    and simple: "\<And>acc e c s. simple_escape e = Some c \<Longrightarrow> P (acc @ [c]) s t \<Longrightarrow>
      P acc (backslash_ch # e # s) t"
    and unicode: "\<And>acc s u s'. unicode_char s = Inr (u, s') \<Longrightarrow> P (acc @ append_utf8 u) s' t \<Longrightarrow>
      P acc (backslash_ch # CHR ''u'' # s) t"
  shows "P acc s t"
  using assms(1)
proof (induction "length s" arbitrary: s acc rule: less_induct)
  case less
  note IH = less.hyps
  show ?case
  proof (cases s)
    case Nil
    with less.prems show ?thesis by (simp add: p_string_Nil)
  next
    case (Cons ch s1)
    consider "ch = quote_ch" | "ch \<noteq> quote_ch" "byte ch < 0x20"
      | "byte ch \<ge> 0x20" "ch \<noteq> quote_ch" "ch \<noteq> backslash_ch" | "ch = backslash_ch"
      by fastforce
    then show ?thesis
    proof cases
      case 1
      with less.prems Cons quote [of acc] show ?thesis by (auto simp: p_string_quote split: if_splits)
    next
      case 3
      with less.prems Cons IH [of s1 "acc @ [ch]"] show ?thesis by (simp add: p_string_plain plain)
    next
      case 4
      with less.prems Cons obtain e s2 where s1: "s1 = e # s2"
        by (cases s1) (auto simp: p_string_escape)
      show ?thesis
      proof (cases "simple_escape e")
        case None
        with less.prems Cons 4 s1 obtain u s3 where u: "e = CHR ''u''" "unicode_char s2 = Inr (u, s3)"
          "p_string L (acc @ append_utf8 u) s3 = Inr (t, r)"
          by (auto simp: p_string_escape bindE_eq_Inr split: if_splits)
        then have "P (acc @ append_utf8 u) s3 t" using IH [of s3] unicode_char_length [OF u(2)] Cons s1 by simp
        with Cons s1 4 u unicode show ?thesis by simp
      next
        case (Some c)
        with less.prems Cons 4 s1 IH [of s2 "acc @ [c]"] simple [of e c] show ?thesis
          by (simp add: p_string_escape)
      qed
    qed (use less.prems Cons in \<open>simp add: p_string_control\<close>)
  qed
qed

lemma p_string_length: "p_string L acc s = Inr (t, r) \<Longrightarrow> length r < length s"
  by (induction rule: p_string_Inr_induct) (auto dest: unicode_char_length)

section \<open>Values, arrays and objects\<close>

lemma length_skip_space: "length (skip_space s) \<le> length s"
  by (simp add: skip_space_def length_dropWhile_le)

lemma consume_length: "consume c s = Some r \<Longrightarrow> length s = Suc (length r)"
  by (auto simp: consume_def split: list.splits if_splits)

lemma require_length: "require_ch c s = Inr r \<Longrightarrow> length r < length s"
  using length_skip_space [of s]
  by (auto simp: require_ch_def dest!: consume_length split: option.splits)

lemma p_literal_length: "p_literal t s = Inr r \<Longrightarrow> length r \<le> length s"
  by (auto simp: p_literal_def split: if_splits)

lemma p_digits_length: "p_digits w s = Inr (n, r) \<Longrightarrow> length r \<le> length s"
  by (induction w s rule: p_digits.induct) (auto simp: Let_def split: if_splits)

lemma p_number_length: "p_number s = Inr (n, r) \<Longrightarrow> length r \<le> length s"
  by (auto simp: p_number_def bindE_eq_Inr dest: p_digits_length split: if_splits)

function p_value :: "parse_limits \<Rightarrow> nat \<Rightarrow> string \<Rightarrow> nat \<Rightarrow> (jvalue \<times> string \<times> nat) res"
  and p_elements :: "parse_limits \<Rightarrow> nat \<Rightarrow> jvalue list \<Rightarrow> string \<Rightarrow> nat \<Rightarrow> (jvalue \<times> string \<times> nat) res"
  and p_members :: "parse_limits \<Rightarrow> nat \<Rightarrow> (string \<times> jvalue) list \<Rightarrow> string \<Rightarrow> nat
      \<Rightarrow> (jvalue \<times> string \<times> nat) res" where
  "p_value L depth s0 n0 =
    (if depth > max_depth L then throwE ''JSON exceeds depth budget''
     else if Suc n0 > max_values L then throwE ''JSON exceeds value budget''
     else (case skip_space s0 of
         [] \<Rightarrow> throwE ''JSON value is truncated''
       | ch # s \<Rightarrow>
         if ch = CHR ''n'' then bindE (p_literal ''null'' (ch # s)) (\<lambda>r. Inr (JNull, r, Suc n0))
         else if ch = CHR ''t'' then bindE (p_literal ''true'' (ch # s)) (\<lambda>r. Inr (JBool True, r, Suc n0))
         else if ch = CHR ''f'' then bindE (p_literal ''false'' (ch # s)) (\<lambda>r. Inr (JBool False, r, Suc n0))
         else if ch = quote_ch then bindE (p_string L [] s) (\<lambda>(t, r). Inr (JString t, r, Suc n0))
         else if ch = CHR ''['' then
           (case consume (CHR '']'') (skip_space s) of
              Some r \<Rightarrow> Inr (JArray [], r, Suc n0)
            | None \<Rightarrow> p_elements L (Suc depth) [] (skip_space s) (Suc n0))
         else if ch = CHR ''{'' then
           (case consume (CHR ''}'') (skip_space s) of
              Some r \<Rightarrow> Inr (JObject [], r, Suc n0)
            | None \<Rightarrow> p_members L (Suc depth) [] (skip_space s) (Suc n0))
         else if isdigit ch then bindE (p_number (ch # s)) (\<lambda>(w, r). Inr (JUnsigned w, r, Suc n0))
         else throwE ''JSON contains an unsupported value token''))"
| "p_elements L depth result s n =
    bindE (p_value L depth s n) (\<lambda>(v, s1, n1).
      (case consume (CHR '']'') (skip_space s1) of
         Some r \<Rightarrow> Inr (JArray (result @ [v]), r, n1)
       | None \<Rightarrow> bindE (require_ch (CHR '','') (skip_space s1))
           (\<lambda>s2. p_elements L depth (result @ [v]) s2 n1)))"
| "p_members L depth result s n =
    (case skip_space s of
       [] \<Rightarrow> throwE ''JSON object key is invalid''
     | ch # s1 \<Rightarrow>
       if ch \<noteq> quote_ch then throwE ''JSON object key is invalid''
       else bindE (p_string L [] s1) (\<lambda>(key, s2).
         bindE (require_ch (CHR '':'') (skip_space s2)) (\<lambda>s3.
         bindE (p_value L depth s3 n) (\<lambda>(v, s4, n1).
         (case obj_emplace key v result of (result', inserted) \<Rightarrow>
           if \<not> inserted then throwE ''JSON object contains a duplicate key''
           else (case consume (CHR ''}'') (skip_space s4) of
             Some r \<Rightarrow> Inr (JObject result', r, n1)
           | None \<Rightarrow> bindE (require_ch (CHR '','') (skip_space s4))
               (\<lambda>s5. p_members L depth result' s5 n1)))))))"
  by pat_completeness auto

text \<open>What a call leaves unread is never longer than what it got.\<close>

lemma p_length_partial:
  "p_value_p_elements_p_members_dom (Inl (L, depth, s, n)) \<Longrightarrow>
    \<forall>v r m. p_value L depth s n = Inr (v, r, m) \<longrightarrow> length r \<le> length s"
  "p_value_p_elements_p_members_dom (Inr (Inl (L, depth, vs, s, n))) \<Longrightarrow>
    \<forall>v r m. p_elements L depth vs s n = Inr (v, r, m) \<longrightarrow> length r \<le> length s"
  "p_value_p_elements_p_members_dom (Inr (Inr (L, depth, ms, s, n))) \<Longrightarrow>
    \<forall>v r m. p_members L depth ms s n = Inr (v, r, m) \<longrightarrow> length r \<le> length s"
proof (induction L depth s n and L depth vs s n and L depth ms s n
    rule: p_value_p_elements_p_members.pinduct)
  case (1 L depth s n)
  show ?case
  proof (intro allI impI)
    fix v r m
    assume *: "p_value L depth s n = Inr (v, r, m)"
    note eq = * [unfolded p_value.psimps [OF "1.hyps"]]
    from eq obtain ch s' where s': "skip_space s = ch # s'"
      by (cases "skip_space s") (auto split: if_splits)
    have len: "length (ch # s') \<le> length s" using length_skip_space [of s] s' by simp
    have len2: "length (skip_space s') \<le> length s'" by (rule length_skip_space)
    have guards: "\<not> max_depth L < depth" "\<not> max_values L < Suc n"
      using eq by (auto split: if_splits)
    have "length r \<le> length (ch # s')"
    proof (cases "ch = CHR ''['' \<or> ch = CHR ''{''")
      case True
      then show ?thesis
      proof
        assume ch: "ch = CHR ''[''"
        show ?thesis
        proof (cases "consume (CHR '']'') (skip_space s')")
          case None
          with "1.IH"(1) [OF guards s'] eq s' ch guards len2 show ?thesis by fastforce
        next
          case (Some q)
          with eq s' ch guards len2 consume_length [OF Some] show ?thesis by simp
        qed
      next
        assume ch: "ch = CHR ''{''"
        show ?thesis
        proof (cases "consume (CHR ''}'') (skip_space s')")
          case None
          with "1.IH"(2) [OF guards s'] eq s' ch guards len2 show ?thesis by fastforce
        next
          case (Some q)
          with eq s' ch guards len2 consume_length [OF Some] show ?thesis by simp
        qed
      qed
    next
      case False
      then show ?thesis
        using eq s' guards by (auto simp: bindE_eq_Inr split: if_splits
          dest!: p_literal_length p_string_length p_number_length)
    qed
    with len show "length r \<le> length s" by simp
  qed
next
  case (2 L depth vs s n)
  show ?case
  proof (intro allI impI)
    fix v r m
    assume *: "p_elements L depth vs s n = Inr (v, r, m)"
    from * [unfolded p_elements.psimps [OF "2.hyps"]] obtain x s1 n1
      where x: "p_value L depth s n = Inr (x, s1, n1)"
        and rest: "(case consume (CHR '']'') (skip_space s1) of
          Some r \<Rightarrow> Inr (JArray (vs @ [x]), r, n1)
        | None \<Rightarrow> bindE (require_ch (CHR '','') (skip_space s1))
           (\<lambda>s2. p_elements L depth (vs @ [x]) s2 n1)) = Inr (v, r, m)"
      by (auto simp: bindE_eq_Inr)
    have len: "length (skip_space s1) \<le> length s"
      using "2.IH"(1) x length_skip_space [of s1] by fastforce
    show "length r \<le> length s"
    proof (cases "consume (CHR '']'') (skip_space s1)")
      case None
      with rest obtain s2 where s2: "require_ch (CHR '','') (skip_space s1) = Inr s2"
        "p_elements L depth (vs @ [x]) s2 n1 = Inr (v, r, m)" by (auto simp: bindE_eq_Inr)
      then have "length r \<le> length s2" using "2.IH"(2) [OF x refl refl None s2(1)] by blast
      with require_length [OF s2(1)] len show ?thesis by simp
    next
      case (Some q)
      with rest len consume_length [OF Some] show ?thesis by simp
    qed
  qed
next
  case (3 L depth ms s n)
  show ?case
  proof (intro allI impI)
    fix v r m
    assume *: "p_members L depth ms s n = Inr (v, r, m)"
    note eq = * [unfolded p_members.psimps [OF "3.hyps"]]
    from eq obtain s' where s': "skip_space s = quote_ch # s'"
      by (cases "skip_space s") (auto split: if_splits)
    from eq s' obtain key s2 s3 where k: "p_string L [] s' = Inr (key, s2)"
      "require_ch (CHR '':'') (skip_space s2) = Inr s3"
      by (auto simp: bindE_eq_Inr)
    from eq s' k obtain x s4 n1 where x: "p_value L depth s3 n = Inr (x, s4, n1)"
      by (auto simp: bindE_eq_Inr)
    obtain ms' b where e: "obj_emplace key x ms = (ms', b)" by force
    have rest: "(case consume (CHR ''}'') (skip_space s4) of
          Some r \<Rightarrow> Inr (JObject ms', r, n1)
        | None \<Rightarrow> bindE (require_ch (CHR '','') (skip_space s4))
           (\<lambda>s5. p_members L depth ms' s5 n1)) = Inr (v, r, m)" and b: "b"
      using eq s' k x e by (auto split: if_splits)
    have "length s2 < length s" "length s3 < length s2"
      using p_string_length [OF k(1)] length_skip_space [of s] s' require_length [OF k(2)]
        length_skip_space [of s2] by simp_all
    moreover have "length (skip_space s4) \<le> length s3"
      using "3.IH"(1) [OF s' _ k(1) refl k(2)] x length_skip_space [of s4] by fastforce
    ultimately have len: "length (skip_space s4) \<le> length s" by simp
    show "length r \<le> length s"
    proof (cases "consume (CHR ''}'') (skip_space s4)")
      case None
      with rest obtain s5 where s5: "require_ch (CHR '','') (skip_space s4) = Inr s5"
        "p_members L depth ms' s5 n1 = Inr (v, r, m)" by (auto simp: bindE_eq_Inr)
      then have "length r \<le> length s5"
        using "3.IH"(2) [OF s' _ k(1) refl k(2) x refl refl e [symmetric] _ None s5(1)] b by blast
      with require_length [OF s5(1)] len show ?thesis by simp
    next
      case (Some q)
      with rest len consume_length [OF Some] show ?thesis by simp
    qed
  qed
qed

lemma p_dom_all: "All p_value_p_elements_p_members_dom"
proof (relation "measure (\<lambda>x. case x of Inl (L, d, s, n) \<Rightarrow> 2 * length s
    | Inr (Inl (L, d, vs, s, n)) \<Rightarrow> 2 * length s + 1
    | Inr (Inr (L, d, ms, s, n)) \<Rightarrow> 2 * length s + 1)", goal_cases)
  case 1
  show ?case by simp
next
  case (2 L depth s0 n0 ch s)
  then show ?case using length_skip_space [of s0] length_skip_space [of s] by simp
next
  case (3 L depth s0 n0 ch s)
  then show ?case using length_skip_space [of s0] length_skip_space [of s] by simp
next
  case (4 L depth result s n)
  then show ?case by simp
next
  case (5 L depth result s n x v y s1 n1 s2)
  then show ?case
    using p_length_partial(1) [of L depth s n] length_skip_space [of s1]
    by (fastforce dest!: require_length)
next
  case (6 L depth result s n ch s1 x key s2 s3)
  then show ?case
    using length_skip_space [of s] length_skip_space [of s2]
    by (auto dest!: require_length p_string_length)
next
  case (7 L depth result s n ch s1 x key s2 s3 xa v y s4 n1 result' inserted s5)
  then show ?case
    using length_skip_space [of s] length_skip_space [of s2] length_skip_space [of s4]
      p_length_partial(1) [of L depth s3 n]
    by (fastforce dest!: require_length p_string_length)
qed

termination p_value
  by (rule p_dom_all)

declare p_value.simps [simp del] p_elements.simps [simp del] p_members.simps [simp del]

lemma p_value_length: "p_value L depth s n = Inr (v, r, m) \<Longrightarrow> length r \<le> length s"
  using p_length_partial(1) [OF p_dom_all [rule_format]] by blast

section \<open>Entry point\<close>

definition parse :: "string \<Rightarrow> parse_limits \<Rightarrow> jvalue res" where
  "parse text L =
    (if length text > max_bytes L then throwE ''JSON input exceeds byte budget''
     else bindE (p_value L 0 (skip_space text) 0) (\<lambda>(result, rest, _).
       if skip_space rest \<noteq> [] then throwE ''JSON has trailing content'' else Inr result))"

end
