(* ===== verification/Usk_Json_Text.thy ===== *)
theory Usk_Json_Text
  imports Usk_Json_Parse "HOL-Library.Multiset"
begin

text \<open>
  What the parser does with well-formed text. \<open>json_text v t\<close> says that \<open>t\<close> is a compact JSON
  text of \<open>v\<close>: any legal escape for each byte, members in any order but with distinct keys,
  no blanks. The canonical encoder produces such texts, and so does the hand-written
  journal writer of the transaction session. For them the parser's answer is known exactly:
  it accepts if and only if the value respects the budgets and every string is UTF-8, and
  then it returns the value.
\<close>

section \<open>Ordered objects\<close>

lemma obj_emplace_keys: "fst ` set (fst (obj_emplace k v m)) = insert k (fst ` set m)"
proof (induction k v m rule: obj_emplace.induct)
  case (2 k v k' v' m)
  then show ?case by (cases "obj_emplace k v m") auto
qed simp

lemma sorted_keys_Nil [simp]: "sorted_keys []"
  by (simp add: sorted_keys_def)

lemma sorted_keys_Cons: "sorted_keys ((k, v) # m) \<longleftrightarrow> (\<forall>k' \<in> fst ` set m. k < k') \<and> sorted_keys m"
  by (simp add: sorted_keys_def)

lemma sorted_keys_append:
  "sorted_keys (m @ m') \<longleftrightarrow>
    sorted_keys m \<and> sorted_keys m' \<and> (\<forall>k \<in> fst ` set m. \<forall>k' \<in> fst ` set m'. k < k')"
  by (auto simp: sorted_keys_def sorted_wrt_append)

lemma obj_emplace_sorted: "sorted_keys m \<Longrightarrow> sorted_keys (fst (obj_emplace k v m))"
proof (induction k v m rule: obj_emplace.induct)
  case (2 k v k' v' m)
  show ?case
  proof (cases "k < k' \<or> k = k'")
    case True
    with "2.prems" show ?thesis by (auto simp: sorted_keys_Cons)
  next
    case False
    with 2 obj_emplace_keys [of k v m] show ?thesis
      by (cases "obj_emplace k v m") (auto simp: sorted_keys_Cons)
  qed
qed (simp add: sorted_keys_Cons)

lemma obj_emplace_inserted: "sorted_keys m \<Longrightarrow> snd (obj_emplace k v m) \<longleftrightarrow> k \<notin> fst ` set m"
proof (induction k v m rule: obj_emplace.induct)
  case (2 k v k' v' m)
  then show ?case by (cases "obj_emplace k v m") (auto simp: sorted_keys_Cons)
qed simp

lemma obj_emplace_map_of:
  "sorted_keys m \<Longrightarrow> k \<notin> fst ` set m \<Longrightarrow> map_of (fst (obj_emplace k v m)) = (map_of m)(k \<mapsto> v)"
proof (induction k v m rule: obj_emplace.induct)
  case (2 k v k' v' m)
  then show ?case by (cases "obj_emplace k v m") (auto simp: sorted_keys_Cons fun_eq_iff)
qed simp

lemma obj_emplace_last:
  "(\<forall>k' \<in> fst ` set m. k' < k) \<Longrightarrow> obj_emplace k v m = (m @ [(k, v)], True)"
  by (induction k v m rule: obj_emplace.induct) auto

lemma sorted_keys_distinct: "sorted_keys m \<Longrightarrow> distinct (map fst m)"
  unfolding sorted_keys_def by (induction m) auto

lemma fold_emplace_sorted:
  "sorted_keys m \<Longrightarrow> sorted_keys (fold (\<lambda>(k, v) m. fst (obj_emplace k v m)) kvs m)"
  by (induction kvs arbitrary: m) (auto simp: obj_emplace_sorted)

lemma fold_emplace_map_of:
  "sorted_keys m \<Longrightarrow> distinct (map fst m @ map fst kvs) \<Longrightarrow>
    map_of (fold (\<lambda>(k, v) m. fst (obj_emplace k v m)) kvs m) = map_of m ++ map_of kvs"
proof (induction kvs arbitrary: m)
  case (Cons p kvs)
  obtain k v where p: "p = (k, v)" by force
  let ?m = "fst (obj_emplace k v m)"
  have fresh: "k \<notin> fst ` set m" "k \<notin> dom (map_of kvs)"
    using Cons.prems p by (auto simp: dom_map_of_conv_image_fst)
  have sorted: "sorted_keys ?m" using Cons.prems by (simp add: obj_emplace_sorted)
  have "distinct (map fst ?m @ map fst kvs)"
    using Cons.prems p obj_emplace_keys [of k v m] sorted_keys_distinct [OF sorted] by auto
  then have "map_of (fold (\<lambda>(k, v) m. fst (obj_emplace k v m)) kvs ?m) = map_of ?m ++ map_of kvs"
    using sorted by (intro Cons.IH)
  also have "\<dots> = (map_of m ++ map_of kvs)(k \<mapsto> v)"
    using fresh Cons.prems by (simp add: obj_emplace_map_of map_add_upd_left)
  also have "\<dots> = map_of m ++ map_of (p # kvs)" using p by simp
  finally show ?case using p by (simp add: fun_eq_iff map_add_def)
qed simp

lemma sorted_keys_obj_of: "sorted_keys (obj_of kvs)"
  unfolding obj_of_def by (rule fold_emplace_sorted) (simp add: sorted_keys_def)

lemma map_of_obj_of: "distinct (map fst kvs) \<Longrightarrow> map_of (obj_of kvs) = map_of kvs"
  unfolding obj_of_def by (subst fold_emplace_map_of) (simp_all add: sorted_keys_def)

lemma fold_emplace_append:
  "sorted_keys (m @ kvs) \<Longrightarrow> fold (\<lambda>(k, v) m. fst (obj_emplace k v m)) kvs m = m @ kvs"
proof (induction kvs arbitrary: m)
  case (Cons p kvs)
  obtain k v where p: "p = (k, v)" by force
  have "\<forall>k' \<in> fst ` set m. k' < k"
    using Cons.prems p by (auto simp: sorted_keys_append)
  then have "obj_emplace k v m = (m @ [(k, v)], True)" by (rule obj_emplace_last)
  with Cons p show ?case by simp
qed simp

lemma obj_of_sorted: "sorted_keys m \<Longrightarrow> obj_of m = m"
  unfolding obj_of_def using fold_emplace_append [of "[]" m] by simp

lemma fold_emplace_keys:
  "fst ` set (fold (\<lambda>(k, v) m. fst (obj_emplace k v m)) kvs m) = fst ` set m \<union> fst ` set kvs"
proof (induction kvs arbitrary: m)
  case (Cons p kvs)
  obtain k v where p: "p = (k, v)" by force
  show ?case using Cons.IH [of "fst (obj_emplace k v m)"] obj_emplace_keys [of k v m] p by simp
qed simp

lemma keys_obj_of: "fst ` set (obj_of kvs) = fst ` set kvs"
  unfolding obj_of_def by (subst fold_emplace_keys) simp

lemma obj_emplace_mset:
  "sorted_keys m \<Longrightarrow> k \<notin> fst ` set m \<Longrightarrow> mset (fst (obj_emplace k v m)) = add_mset (k, v) (mset m)"
proof (induction k v m rule: obj_emplace.induct)
  case (2 k v k' v' m)
  then show ?case by (cases "obj_emplace k v m") (auto simp: sorted_keys_Cons)
qed simp

lemma fold_emplace_mset:
  "sorted_keys m \<Longrightarrow> distinct (map fst m @ map fst kvs) \<Longrightarrow>
    mset (fold (\<lambda>(k, v) m. fst (obj_emplace k v m)) kvs m) = mset m + mset kvs"
proof (induction kvs arbitrary: m)
  case (Cons p kvs)
  obtain k v where p: "p = (k, v)" by force
  let ?m = "fst (obj_emplace k v m)"
  have "distinct (map fst ?m @ map fst kvs)"
    using Cons.prems p obj_emplace_keys [of k v m] sorted_keys_distinct [OF obj_emplace_sorted, of m k v]
    by auto
  then have "mset (fold (\<lambda>(k, v) m. fst (obj_emplace k v m)) kvs ?m) = mset ?m + mset kvs"
    using Cons.prems by (intro Cons.IH obj_emplace_sorted)
  moreover have "mset ?m = add_mset (k, v) (mset m)"
    using Cons.prems p by (intro obj_emplace_mset) auto
  ultimately show ?case using p by simp
qed simp

lemma mset_obj_of: "distinct (map fst kvs) \<Longrightarrow> mset (obj_of kvs) = mset kvs"
  unfolding obj_of_def by (subst fold_emplace_mset) simp_all

lemma set_obj_of: "distinct (map fst kvs) \<Longrightarrow> set (obj_of kvs) = set kvs"
  by (metis mset_obj_of set_mset_mset)

section \<open>Well-formed values and their size in the budgets\<close>

fun wf_json :: "jvalue \<Rightarrow> bool" where
  "wf_json (JArray vs) = list_all wf_json vs"
| "wf_json (JObject m) = (sorted_keys m \<and> list_all wf_json (map snd m))"
| "wf_json _ = True"

lemma wf_json_induct [case_names JNull JBool JUnsigned JString JArray JObject]:
  assumes "P JNull" "\<And>b. P (JBool b)" "\<And>n. P (JUnsigned n)" "\<And>s. P (JString s)"
    and "\<And>vs. (\<And>v. v \<in> set vs \<Longrightarrow> P v) \<Longrightarrow> P (JArray vs)"
    and "\<And>m. (\<And>k v. (k, v) \<in> set m \<Longrightarrow> P v) \<Longrightarrow> P (JObject m)"
  shows "P v"
proof (induction v)
  case (JObject m)
  then show ?case by (intro assms(6)) (auto intro: prod_set_defs)
qed (auto intro: assms)

text \<open>The number of calls of \<^verbatim>\<open>value()\<close> a value costs, and the depth and string budgets.\<close>

fun value_count :: "jvalue \<Rightarrow> nat" where
  "value_count (JArray vs) = Suc (sum_list (map value_count vs))"
| "value_count (JObject m) = Suc (sum_list (map (\<lambda>p. value_count (snd p)) m))"
| "value_count _ = 1"

definition string_ok :: "parse_limits \<Rightarrow> string \<Rightarrow> bool" where
  "string_ok L s \<longleftrightarrow> length s \<le> max_string_bytes L \<and> valid_utf8 s"

fun shape_ok :: "parse_limits \<Rightarrow> nat \<Rightarrow> jvalue \<Rightarrow> bool" where
  "shape_ok L d (JString s) = (d \<le> max_depth L \<and> string_ok L s)"
| "shape_ok L d (JArray vs) = (d \<le> max_depth L \<and> list_all (shape_ok L (Suc d)) vs)"
| "shape_ok L d (JObject m) =
    (d \<le> max_depth L \<and> list_all (\<lambda>(k, v). string_ok L k \<and> shape_ok L (Suc d) v) m)"
| "shape_ok L d _ = (d \<le> max_depth L)"

section \<open>Compact texts\<close>

fun commas :: "string list \<Rightarrow> string" where
  "commas [] = []"
| "commas [t] = t"
| "commas (t # ts) = t @ '','' @ commas ts"

inductive str_text :: "string \<Rightarrow> string \<Rightarrow> bool" where
  nil: "str_text [] []"
| plain: "\<lbrakk>byte c \<ge> 0x20; c \<noteq> quote_ch; c \<noteq> backslash_ch; str_text s t\<rbrakk> \<Longrightarrow> str_text (c # s) (c # t)"
| simple: "\<lbrakk>simple_escape e = Some c; str_text s t\<rbrakk> \<Longrightarrow> str_text (c # s) (backslash_ch # e # t)"
| control: "\<lbrakk>byte c < 0x20; str_text s t\<rbrakk> \<Longrightarrow>
    str_text (c # s) (backslash_ch # ''u00'' @ [hex_char (byte c div 16), hex_char (byte c mod 16)] @ t)"

inductive json_text :: "jvalue \<Rightarrow> string \<Rightarrow> bool" where
  null: "json_text JNull ''null''"
| bool: "json_text (JBool b) (if b then ''true'' else ''false'')"
| unsigned: "json_text (JUnsigned w) (dec (unat w))"
| string: "str_text s t \<Longrightarrow> json_text (JString s) (quote_ch # t @ [quote_ch])"
| array: "list_all2 json_text vs ts \<Longrightarrow> json_text (JArray vs) (''['' @ commas ts @ '']'')"
| object: "\<lbrakk>list_all2 (\<lambda>kv t. \<exists>kt vt. str_text (fst kv) kt \<and> json_text (snd kv) vt \<and>
      t = quote_ch # kt @ [quote_ch] @ '':'' @ vt) kvs ts; distinct (map fst kvs)\<rbrakk> \<Longrightarrow>
    json_text (JObject (obj_of kvs)) (''{'' @ commas ts @ ''}'')"

lemma hex_digit_hex_char: "n < 16 \<Longrightarrow> hex_digit (hex_char n) = Inr n"
  by (simp add: hex_digit_def less_eq_char_def byte_hex_char)

lemma hex_digit_0: "hex_digit (CHR ''0'') = Inr 0"
  by (simp add: hex_digit_def less_eq_char_def)

lemma p_string_text:
  "str_text s t \<Longrightarrow> p_string L acc (t @ quote_ch # rest) = p_string L (acc @ s) (quote_ch # rest)"
proof (induction arbitrary: acc rule: str_text.induct)
  case (simple e c s t)
  then show ?case by (simp add: p_string_escape)
next
  case (control c s t)
  have "simple_escape (CHR ''u'') = None" by (simp add: simple_escape_def)
  moreover have "unicode_char (''00'' @ [hex_char (byte c div 16), hex_char (byte c mod 16)] @ t @ quote_ch # rest)
      = Inr (byte c, t @ quote_ch # rest)"
    using control(1) by (simp add: unicode_char_def unicode_escape_def hex_digit_hex_char hex_digit_0)
  moreover have "append_utf8 (byte c) = [c]"
    using control(1) by (simp add: append_utf8_eq(1))
  ultimately show ?case
    using control by (simp add: p_string_escape)
qed (simp_all add: p_string_plain)

section \<open>Integers\<close>

text \<open>The overflow guard in front of \<^verbatim>\<open>result * 10 + digit\<close> is exact.\<close>

lemma digit_guard:
  fixes r :: "64 word"
  assumes "d < 10"
  shows "(- 1 - of_nat d) div 10 < r \<longleftrightarrow> 2 ^ 64 \<le> unat r * 10 + d"
proof -
  have d: "unat (of_nat d :: 64 word) = d" using assms by (simp add: unat_of_nat take_bit_nat_eq_self)
  have "of_nat d \<le> (- 1 :: 64 word)" by simp
  then have "unat (- 1 - of_nat d :: 64 word) = 2 ^ 64 - 1 - d"
    by (simp add: unat_sub d unsigned_minus_1_eq_mask mask_eq_exp_minus_1)
  then have "unat ((- 1 - of_nat d) div 10 :: 64 word) = (2 ^ 64 - 1 - d) div 10"
    by (simp add: unat_div)
  then have "(- 1 - of_nat d) div 10 < r \<longleftrightarrow> (2 ^ 64 - 1 - d) div 10 < unat r"
    by (simp add: word_less_nat_alt)
  also have "\<dots> \<longleftrightarrow> 2 ^ 64 \<le> unat r * 10 + d"
    using assms by (auto simp: div_less_iff_less_mult)
  finally show ?thesis .
qed

lemma isdigit_value: "isdigit c \<Longrightarrow> digit_value c < 10"
  by (auto simp: isdigit_def digit_value_def)

definition dec_from :: "nat \<Rightarrow> string \<Rightarrow> nat" where
  "dec_from = foldl (\<lambda>v c. v * 10 + digit_value c)"

lemma dec_from_simps [simp]:
  "dec_from v [] = v" "dec_from v (c # cs) = dec_from (v * 10 + digit_value c) cs"
  by (simp_all add: dec_from_def)

lemma dec_from_ge: "v \<le> dec_from v cs"
proof (induction cs arbitrary: v)
  case (Cons c cs)
  then show ?case using le_trans [OF _ Cons.IH [of "v * 10 + digit_value c"], of v] by simp
qed simp

lemma p_digits_exact:
  assumes "list_all isdigit ds" "rest = [] \<or> \<not> isdigit (hd rest)"
  shows "p_digits r (ds @ rest) =
    (if dec_from (unat r) ds < 2 ^ 64 then Inr (of_nat (dec_from (unat r) ds), rest)
     else throwE ''JSON integer overflows uint64'')"
  using assms(1)
proof (induction ds arbitrary: r)
  case Nil
  have "unat r < 2 ^ 64" using unsigned_less [of r] by simp
  then show ?case using assms(2) by (cases rest) auto
next
  case (Cons c ds)
  let ?d = "digit_value c"
  have d: "?d < 10" using Cons.prems by (simp add: isdigit_value)
  have guard: "(- 1 - of_nat ?d) div 10 < r \<longleftrightarrow> 2 ^ 64 \<le> unat r * 10 + ?d"
    using d by (rule digit_guard)
  show ?case
  proof (cases "2 ^ 64 \<le> unat r * 10 + ?d")
    case True
    then have "\<not> dec_from (unat r) (c # ds) < 2 ^ 64"
      using dec_from_ge [of "unat r * 10 + ?d" ds] by (simp add: mult.commute)
    with True guard Cons.prems show ?thesis by (simp add: Let_def)
  next
    case False
    then have "unat (r * 10 + of_nat ?d) = unat r * 10 + ?d"
      using d by (simp add: unat_word_ariths unat_of_nat)
    with False guard Cons show ?thesis by (simp add: Let_def)
  qed
qed

definition ends_number :: "string \<Rightarrow> bool" where
  "ends_number rest \<longleftrightarrow> rest = [] \<or>
    (\<not> isdigit (hd rest) \<and> hd rest \<noteq> CHR ''.'' \<and> hd rest \<noteq> CHR ''e'' \<and> hd rest \<noteq> CHR ''E'')"

lemma ends_number_simps [simp]:
  "ends_number []" "ends_number (CHR '','' # s)" "ends_number (CHR '']'' # s)" "ends_number (CHR ''}'' # s)"
  by (simp_all add: ends_number_def isdigit_def)

lemma p_number_dec:
  assumes "ends_number rest"
  shows "p_number (dec (unat w) @ rest) = Inr (w, rest)"
proof -
  have digits: "list_all isdigit (dec (unat w))" by (auto simp: list_all_iff intro: dec_isdigit)
  have val: "dec_from 0 (dec (unat w)) = unat w" using dec_read_dec by (simp add: dec_from_def dec_read_def)
  have follow: "rest = [] \<or> \<not> isdigit (hd rest)" using assms by (auto simp: ends_number_def)
  have "p_digits 0 (dec (unat w) @ rest) = Inr (w, rest)"
    using p_digits_exact [OF digits follow, of 0] unsigned_less [of w] val by simp
  moreover have "\<not> (take 1 (dec (unat w) @ rest) = ''0'' \<and> drop 1 (dec (unat w) @ rest) \<noteq> []
      \<and> isdigit (hd (drop 1 (dec (unat w) @ rest))))"
    using follow dec_small [of "unat w"] hd_dec_zero [of "unat w"] dec_nonempty [of "unat w"]
    by (cases "dec (unat w)") auto
  ultimately show ?thesis using assms by (auto simp: p_number_def ends_number_def)
qed

section \<open>The parser decides compact texts\<close>

text \<open>\<open>m\<close> returns \<open>x\<close> when \<open>ok\<close> holds and throws otherwise.\<close>

definition decides :: "'a res \<Rightarrow> bool \<Rightarrow> 'a \<Rightarrow> bool" where
  "decides m ok x \<longleftrightarrow> (if ok then m = Inr x else \<not> accepts m)"

lemma decides_Inr [simp]: "decides (Inr y) ok x \<longleftrightarrow> ok \<and> y = x"
  by (auto simp: decides_def)

lemma decides_throwE [simp]: "decides (throwE msg) ok x \<longleftrightarrow> \<not> ok"
  by (auto simp: decides_def)

lemma decides_bindE:
  "decides m ok x \<Longrightarrow> (ok \<Longrightarrow> decides (f x) ok' y) \<Longrightarrow> decides (bindE m f) (ok \<and> ok') y"
  by (cases m) (auto simp: decides_def split: if_splits)

lemma decides_cong: "decides m ok x \<Longrightarrow> ok = ok' \<Longrightarrow> x = x' \<Longrightarrow> decides m ok' x'"
  by simp

lemma p_string_decides:
  "str_text s t \<Longrightarrow> decides (p_string L [] (t @ quote_ch # rest)) (string_ok L s) (s, rest)"
  by (simp add: p_string_text p_string_quote string_ok_def)

lemma dec_hd: obtains c cs where "dec n = c # cs" "isdigit c"
  using dec_nonempty [of n] dec_isdigit [of _ n] by (cases "dec n") auto

lemma isdigit_not_special:
  "isdigit c \<Longrightarrow> \<not> is_space c \<and> c \<notin> {CHR '']'', CHR ''}'', CHR ''n'', CHR ''t'', CHR ''f'', quote_ch, CHR ''['', CHR ''{''}"
  by (auto simp: isdigit_def is_space_def)

lemma json_text_hd:
  assumes "json_text v t"
  obtains c t' where "t = c # t'" "\<not> is_space c" "c \<noteq> CHR '']''" "c \<noteq> CHR ''}''"
  using assms
proof cases
  case (unsigned w)
  obtain c cs where "dec (unat w) = c # cs" "isdigit c" by (rule dec_hd)
  with unsigned isdigit_not_special [of c] that show ?thesis by auto
next
  case (bool b)
  then show ?thesis by (cases b) (auto simp: is_space_def intro: that)
qed (auto simp: is_space_def intro: that)

lemma skip_space_Cons: "\<not> is_space c \<Longrightarrow> skip_space (c # s) = c # s"
  by (simp add: skip_space_def)

lemma is_space_simps [simp]:
  "\<not> is_space (CHR '','')" "\<not> is_space (CHR '']'')" "\<not> is_space (CHR ''}'')" "\<not> is_space (CHR '':'')"
  "\<not> is_space quote_ch" "\<not> is_space (CHR ''['')" "\<not> is_space (CHR ''{'')"
  by (simp_all add: is_space_def)

lemma p_value_deep: "max_depth L < depth \<Longrightarrow> p_value L depth s n = throwE ''JSON exceeds depth budget''"
  by (subst p_value.simps) simp

lemma p_value_full:
  "depth \<le> max_depth L \<Longrightarrow> max_values L < Suc n \<Longrightarrow> p_value L depth s n = throwE ''JSON exceeds value budget''"
  by (subst p_value.simps) simp

lemma p_value_guards:
  assumes "depth \<le> max_depth L \<Longrightarrow> Suc n \<le> max_values L \<Longrightarrow> decides (p_value L depth s n) ok x"
    and "ok \<Longrightarrow> depth \<le> max_depth L \<and> Suc n \<le> max_values L"
  shows "decides (p_value L depth s n) ok x"
proof (cases "max_depth L < depth \<or> max_values L < Suc n")
  case True
  then have "\<not> ok" using assms(2) by linarith
  with True show ?thesis by (cases "max_depth L < depth") (simp_all add: p_value_deep p_value_full)
next
  case False
  then show ?thesis using assms(1) by simp
qed

lemma p_value_token:
  assumes "depth \<le> max_depth L" "Suc n0 \<le> max_values L" "skip_space s0 = ch # s"
  shows "p_value L depth s0 n0 =
    (if ch = CHR ''n'' then bindE (p_literal ''null'' (ch # s)) (\<lambda>r. Inr (JNull, r, Suc n0))
     else if ch = CHR ''t'' then bindE (p_literal ''true'' (ch # s)) (\<lambda>r. Inr (JBool True, r, Suc n0))
     else if ch = CHR ''f'' then bindE (p_literal ''false'' (ch # s)) (\<lambda>r. Inr (JBool False, r, Suc n0))
     else if ch = quote_ch then bindE (p_string L [] s) (\<lambda>(t, r). Inr (JString t, r, Suc n0))
     else if ch = CHR ''['' then
       (case consume (CHR '']'') (skip_space s) of
          Some r \<Rightarrow> Inr (JArray [], r, Suc n0)
        | None \<Rightarrow> p_elements L (Suc depth) [] (skip_space s) (Suc n0))
     else if ch = CHR ''{'' then
       (case consume (CHR ''}'') (skip_space s) of
          Some r \<Rightarrow> Inr (JObject [], r, Suc n0)
        | None \<Rightarrow> p_members L (Suc depth) [] (skip_space s) (Suc n0))
     else if isdigit ch then bindE (p_number (ch # s)) (\<lambda>(w, r). Inr (JUnsigned w, r, Suc n0))
     else throwE ''JSON contains an unsupported value token'')"
  using assms by (subst p_value.simps) simp

lemma value_count_pos: "0 < value_count v"
  by (cases v) auto

text \<open>What the induction on \<open>json_text\<close> establishes for one value and its text.\<close>

definition read_back :: "jvalue \<Rightarrow> string \<Rightarrow> bool" where
  "read_back v t \<longleftrightarrow> json_text v t \<and> (\<forall>L depth rest n. ends_number rest \<longrightarrow>
    decides (p_value L depth (t @ rest) n)
      (shape_ok L depth v \<and> n + value_count v \<le> max_values L) (v, rest, n + value_count v))"

lemma read_back_text: "read_back v t \<Longrightarrow> json_text v t"
  by (simp add: read_back_def)

lemma read_backD:
  "read_back v t \<Longrightarrow> ends_number rest \<Longrightarrow>
    decides (p_value L depth (t @ rest) n)
      (shape_ok L depth v \<and> n + value_count v \<le> max_values L) (v, rest, n + value_count v)"
  by (simp add: read_back_def)

lemma p_elements_decides:
  assumes "list_all2 read_back vs ts" "vs \<noteq> []"
  shows "decides (p_elements L depth acc (commas ts @ CHR '']'' # rest) n)
    (list_all (shape_ok L depth) vs \<and> n + sum_list (map value_count vs) \<le> max_values L)
    (JArray (acc @ vs), rest, n + sum_list (map value_count vs))"
  using assms
proof (induction vs ts arbitrary: acc n rule: list_all2_induct)
  case (Cons v vs t ts)
  let ?ok = "shape_ok L depth v \<and> n + value_count v \<le> max_values L"
  show ?case
  proof (cases "ts = []")
    case True
    then have vs: "vs = []" using Cons by (cases vs) auto
    have "decides (p_elements L depth acc (t @ CHR '']'' # rest) n) (?ok \<and> True)
        (JArray (acc @ [v]), rest, n + value_count v)"
      by (subst p_elements.simps, rule decides_bindE [OF read_backD [OF Cons.hyps(1)]])
        (simp_all add: skip_space_Cons consume_def)
    then show ?thesis using True vs by simp
  next
    case False
    then obtain t' ts' where ts: "ts = t' # ts'" by (cases ts) auto
    then have vs: "vs \<noteq> []" using Cons by (cases vs) auto
    have eq: "commas (t # ts) @ CHR '']'' # rest = t @ CHR '','' # commas ts @ CHR '']'' # rest"
      using ts by simp
    have "decides (p_elements L depth acc (t @ CHR '','' # commas ts @ CHR '']'' # rest) n)
       (?ok \<and> (list_all (shape_ok L depth) vs \<and>
          (n + value_count v) + sum_list (map value_count vs) \<le> max_values L))
       (JArray ((acc @ [v]) @ vs), rest, (n + value_count v) + sum_list (map value_count vs))"
      by (subst p_elements.simps, rule decides_bindE [OF read_backD [OF Cons.hyps(1)]])
        (use Cons.IH [OF vs, of "acc @ [v]" "n + value_count v"] in
          \<open>simp_all add: skip_space_Cons consume_def require_ch_def\<close>)
    then show ?thesis unfolding eq by (rule decides_cong) auto
  qed
qed simp

definition member_text :: "string \<times> jvalue \<Rightarrow> string \<Rightarrow> bool" where
  "member_text kv t \<longleftrightarrow> (\<exists>kt vt. str_text (fst kv) kt \<and> read_back (snd kv) vt \<and>
    t = quote_ch # kt @ [quote_ch] @ '':'' @ vt)"

abbreviation emplace_all :: "(string \<times> jvalue) list \<Rightarrow> (string \<times> jvalue) list \<Rightarrow> (string \<times> jvalue) list" where
  "emplace_all \<equiv> fold (\<lambda>(k, v) m. fst (obj_emplace k v m))"

text \<open>One member: key, colon and value are read, the value is stored, the rest decides.\<close>

lemma p_members_step:
  assumes "str_text k kt" "read_back v vt" "sorted_keys m" "k \<notin> fst ` set m" "ends_number rest"
    and "string_ok L k \<Longrightarrow> shape_ok L depth v \<Longrightarrow> n + value_count v \<le> max_values L \<Longrightarrow>
      decides (case consume (CHR ''}'') (skip_space rest) of
          Some r \<Rightarrow> Inr (JObject (fst (obj_emplace k v m)), r, n + value_count v)
        | None \<Rightarrow> bindE (require_ch (CHR '','') (skip_space rest))
            (\<lambda>s5. p_members L depth (fst (obj_emplace k v m)) s5 (n + value_count v))) ok x"
  shows "decides (p_members L depth m (quote_ch # kt @ [quote_ch] @ '':'' @ vt @ rest) n)
    (string_ok L k \<and> (shape_ok L depth v \<and> n + value_count v \<le> max_values L) \<and> ok) x"
proof -
  obtain m' where m': "obj_emplace k v m = (m', True)"
    using obj_emplace_inserted [OF assms(3), of k v] assms(4) by (cases "obj_emplace k v m") simp
  let ?body = "\<lambda>(v, s4, n1). case obj_emplace k v m of (result', inserted) \<Rightarrow>
      if \<not> inserted then throwE ''JSON object contains a duplicate key''
      else (case consume (CHR ''}'') (skip_space s4) of
             Some r \<Rightarrow> Inr (JObject result', r, n1)
           | None \<Rightarrow> bindE (require_ch (CHR '','') (skip_space s4))
               (\<lambda>s5. p_members L depth result' s5 n1))"
  have "decides (bindE (p_value L depth (vt @ rest) n) ?body)
      ((shape_ok L depth v \<and> n + value_count v \<le> max_values L) \<and> ok) x" if "string_ok L k"
    by (rule decides_bindE [OF read_backD [OF assms(2,5)]]) (use assms(6) [unfolded m' fst_conv] that in \<open>simp add: m'\<close>)
  moreover have "p_members L depth m (quote_ch # kt @ [quote_ch] @ '':'' @ vt @ rest) n =
      bindE (p_string L [] (kt @ quote_ch # CHR '':'' # vt @ rest)) (\<lambda>(key, s2).
        bindE (require_ch (CHR '':'') (skip_space s2)) (\<lambda>s3.
        bindE (p_value L depth s3 n) (\<lambda>(v, s4, n1).
         (case obj_emplace key v m of (result', inserted) \<Rightarrow>
           if \<not> inserted then throwE ''JSON object contains a duplicate key''
           else (case consume (CHR ''}'') (skip_space s4) of
             Some r \<Rightarrow> Inr (JObject result', r, n1)
           | None \<Rightarrow> bindE (require_ch (CHR '','') (skip_space s4))
               (\<lambda>s5. p_members L depth result' s5 n1))))))"
    by (subst p_members.simps) (simp add: skip_space_Cons)
  ultimately show ?thesis
    by (simp only:) (rule decides_bindE [OF p_string_decides [OF assms(1)]],
      simp add: skip_space_Cons require_ch_def consume_def)
qed

lemma p_members_decides:
  assumes "list_all2 member_text kvs ts" "kvs \<noteq> []" "sorted_keys m" "distinct (map fst m @ map fst kvs)"
  shows "decides (p_members L depth m (commas ts @ CHR ''}'' # rest) n)
    (list_all (\<lambda>(k, v). string_ok L k \<and> shape_ok L depth v) kvs \<and>
      n + sum_list (map (\<lambda>p. value_count (snd p)) kvs) \<le> max_values L)
    (JObject (emplace_all kvs m), rest, n + sum_list (map (\<lambda>p. value_count (snd p)) kvs))"
  using assms
proof (induction kvs ts arbitrary: m n rule: list_all2_induct)
  case (Cons p kvs t ts)
  obtain k v where p: "p = (k, v)" by force
  obtain kt vt where t: "str_text k kt" "read_back v vt" "t = quote_ch # kt @ [quote_ch] @ '':'' @ vt"
    using Cons.hyps(1) p by (auto simp: member_text_def)
  let ?m = "fst (obj_emplace k v m)"
  have k: "k \<notin> fst ` set m" using Cons.prems p by auto
  have sorted: "sorted_keys ?m" using Cons.prems by (simp add: obj_emplace_sorted)
  have dist: "distinct (map fst ?m @ map fst kvs)"
    using Cons.prems p obj_emplace_keys [of k v m] sorted_keys_distinct [OF sorted] by auto
  note step = p_members_step [OF t(1,2) Cons.prems(2) k]
  show ?case
  proof (cases "ts = []")
    case True
    then have "kvs = []" using Cons by (cases kvs) auto
    moreover have "decides (p_members L depth m (quote_ch # kt @ [quote_ch] @ '':'' @ vt @ CHR ''}'' # rest) n)
      (string_ok L k \<and> (shape_ok L depth v \<and> n + value_count v \<le> max_values L) \<and> True)
      (JObject ?m, rest, n + value_count v)"
      by (rule step) (simp_all add: skip_space_Cons consume_def)
    ultimately show ?thesis using True p t by (simp add: conj_assoc)
  next
    case False
    then obtain t' ts' where ts: "ts = t' # ts'" by (cases ts) auto
    then have kvs: "kvs \<noteq> []" using Cons by (cases kvs) auto
    have eq: "commas (t # ts) @ CHR ''}'' # rest =
      quote_ch # kt @ [quote_ch] @ '':'' @ vt @ CHR '','' # commas ts @ CHR ''}'' # rest"
      using ts t by simp
    have "decides (p_members L depth m (quote_ch # kt @ [quote_ch] @ '':'' @ vt @ CHR '','' # commas ts @ CHR ''}'' # rest) n)
      (string_ok L k \<and> (shape_ok L depth v \<and> n + value_count v \<le> max_values L) \<and>
        (list_all (\<lambda>(k, v). string_ok L k \<and> shape_ok L depth v) kvs \<and>
          (n + value_count v) + sum_list (map (\<lambda>p. value_count (snd p)) kvs) \<le> max_values L))
      (JObject (emplace_all kvs ?m), rest, (n + value_count v) + sum_list (map (\<lambda>p. value_count (snd p)) kvs))"
      by (rule step, simp)
        (simp add: skip_space_Cons consume_def require_ch_def, rule Cons.IH [OF kvs sorted dist])
    then show ?thesis unfolding eq by (rule decides_cong) (auto simp: p)
  qed
qed simp

lemma shape_ok_depth: "shape_ok L depth v \<Longrightarrow> depth \<le> max_depth L"
  by (cases v) auto

lemma read_backI:
  assumes "json_text v t"
    and "\<And>L depth rest n. ends_number rest \<Longrightarrow> depth \<le> max_depth L \<Longrightarrow> Suc n \<le> max_values L \<Longrightarrow>
      decides (p_value L depth (t @ rest) n)
        (shape_ok L depth v \<and> n + value_count v \<le> max_values L) (v, rest, n + value_count v)"
  shows "read_back v t"
proof -
  have "decides (p_value L depth (t @ rest) n)
      (shape_ok L depth v \<and> n + value_count v \<le> max_values L) (v, rest, n + value_count v)"
    if "ends_number rest" for L depth rest n
  proof (rule p_value_guards)
    assume "shape_ok L depth v \<and> n + value_count v \<le> max_values L"
    then show "depth \<le> max_depth L \<and> Suc n \<le> max_values L"
      using shape_ok_depth [of L depth v] value_count_pos [of v] by simp
  qed (rule assms(2) [OF that])
  then show ?thesis using assms(1) by (simp add: read_back_def)
qed

lemma read_back_null: "read_back JNull ''null''"
  by (rule read_backI [OF json_text.null])
    (simp add: p_value_token skip_space_Cons is_space_def p_literal_def)

lemma read_back_bool: "read_back (JBool b) (if b then ''true'' else ''false'')"
  by (rule read_backI [OF json_text.bool], cases b)
    (simp_all add: p_value_token skip_space_Cons is_space_def p_literal_def)

lemma read_back_unsigned: "read_back (JUnsigned w) (dec (unat w))"
proof (rule read_backI [OF json_text.unsigned])
  fix L :: parse_limits and depth rest n
  assume *: "ends_number rest" "depth \<le> max_depth L" "Suc n \<le> max_values L"
  obtain c cs where dec: "dec (unat w) = c # cs" "isdigit c" by (rule dec_hd)
  have num: "p_number (c # cs @ rest) = Inr (w, rest)" using p_number_dec [OF *(1), of w] dec by simp
  have "skip_space (dec (unat w) @ rest) = c # cs @ rest"
    using isdigit_not_special [OF dec(2)] dec(1) by (simp add: skip_space_Cons)
  from p_value_token [OF *(2,3) this] num isdigit_not_special [OF dec(2)] dec(2)
  have "p_value L depth (dec (unat w) @ rest) n = Inr (JUnsigned w, rest, Suc n)" by simp
  with * show "decides (p_value L depth (dec (unat w) @ rest) n)
      (shape_ok L depth (JUnsigned w) \<and> n + value_count (JUnsigned w) \<le> max_values L)
      (JUnsigned w, rest, n + value_count (JUnsigned w))" by simp
qed

lemma read_back_string:
  assumes "str_text s t"
  shows "read_back (JString s) (quote_ch # t @ [quote_ch])"
proof (rule read_backI [OF json_text.string [OF assms]])
  fix L :: parse_limits and depth rest n
  assume *: "depth \<le> max_depth L" "Suc n \<le> max_values L"
  have "decides (bindE (p_string L [] (t @ quote_ch # rest)) (\<lambda>(t, r). Inr (JString t, r, Suc n)))
      (string_ok L s \<and> True) (JString s, rest, Suc n)"
    by (rule decides_bindE [OF p_string_decides [OF assms]]) simp
  with * show "decides (p_value L depth ((quote_ch # t @ [quote_ch]) @ rest) n)
      (shape_ok L depth (JString s) \<and> n + value_count (JString s) \<le> max_values L)
      (JString s, rest, n + value_count (JString s))"
    by (simp add: p_value_token skip_space_Cons)
qed

lemma read_back_array:
  assumes "list_all2 read_back vs ts"
  shows "read_back (JArray vs) (''['' @ commas ts @ '']'')"
proof (rule read_backI)
  show "json_text (JArray vs) (''['' @ commas ts @ '']'')"
    using assms by (intro json_text.array) (auto simp: read_back_def elim: list_all2_mono)
  fix L :: parse_limits and depth rest n
  assume g: "depth \<le> max_depth L" "Suc n \<le> max_values L"
  have sp: "skip_space ((''['' @ commas ts @ '']'') @ rest) = CHR ''['' # commas ts @ CHR '']'' # rest"
    by (simp add: skip_space_Cons)
  show "decides (p_value L depth ((''['' @ commas ts @ '']'') @ rest) n)
      (shape_ok L depth (JArray vs) \<and> n + value_count (JArray vs) \<le> max_values L)
      (JArray vs, rest, n + value_count (JArray vs))"
  proof (cases ts)
    case Nil
    then show ?thesis
      using assms g p_value_token [OF g sp] by (simp add: skip_space_Cons consume_def)
  next
    case (Cons t ts')
    with assms obtain v vs' where v: "vs = v # vs'" "read_back v t" by (cases vs) auto
    then obtain c t' where t: "t = c # t'" "\<not> is_space c" "c \<noteq> CHR '']''"
      by (auto simp: read_back_def elim: json_text_hd)
    obtain u where u: "commas ts = c # u" using Cons t by (cases ts') auto
    have "p_value L depth ((''['' @ commas ts @ '']'') @ rest) n =
        p_elements L (Suc depth) [] (commas ts @ CHR '']'' # rest) (Suc n)"
      using p_value_token [OF g sp] u t by (simp add: skip_space_Cons consume_def)
    moreover have "decides (p_elements L (Suc depth) [] (commas ts @ CHR '']'' # rest) (Suc n))
        (list_all (shape_ok L (Suc depth)) vs \<and> Suc n + sum_list (map value_count vs) \<le> max_values L)
        (JArray ([] @ vs), rest, Suc n + sum_list (map value_count vs))"
      by (rule p_elements_decides [OF assms]) (simp add: v)
    ultimately show ?thesis using g by (simp only:) (erule decides_cong, auto)
  qed
qed

lemma read_back_object:
  assumes "list_all2 member_text kvs ts" "distinct (map fst kvs)"
  shows "read_back (JObject (obj_of kvs)) (''{'' @ commas ts @ ''}'')"
proof (rule read_backI)
  show "json_text (JObject (obj_of kvs)) (''{'' @ commas ts @ ''}'')"
    by (rule json_text.object [OF list_all2_mono [OF assms(1)] assms(2)])
      (unfold member_text_def, blast intro: read_back_text)
  have count: "value_count (JObject (obj_of kvs)) = Suc (\<Sum>p\<leftarrow>kvs. value_count (snd p))"
    using arg_cong [OF mset_obj_of [OF assms(2)], of "\<lambda>M. sum_mset (image_mset (\<lambda>p. value_count (snd p)) M)"]
    by (simp add: sum_mset_sum_list flip: mset_map)
  fix L :: parse_limits and depth rest n
  assume g: "depth \<le> max_depth L" "Suc n \<le> max_values L"
  have shape: "shape_ok L depth (JObject (obj_of kvs)) \<longleftrightarrow>
      list_all (\<lambda>(k, v). string_ok L k \<and> shape_ok L (Suc depth) v) kvs"
    using set_obj_of [OF assms(2)] g by (simp add: list_all_iff)
  have sp: "skip_space ((''{'' @ commas ts @ ''}'') @ rest) = CHR ''{'' # commas ts @ CHR ''}'' # rest"
    by (simp add: skip_space_Cons)
  show "decides (p_value L depth ((''{'' @ commas ts @ ''}'') @ rest) n)
      (shape_ok L depth (JObject (obj_of kvs)) \<and> n + value_count (JObject (obj_of kvs)) \<le> max_values L)
      (JObject (obj_of kvs), rest, n + value_count (JObject (obj_of kvs)))"
  proof (cases ts)
    case Nil
    then show ?thesis
      using assms g p_value_token [OF g sp] by (simp add: skip_space_Cons consume_def obj_of_def)
  next
    case (Cons t ts')
    with assms obtain kv kvs' where kv: "kvs = kv # kvs'" "member_text kv t" by (cases kvs) auto
    obtain u where u: "commas ts = quote_ch # u"
      using Cons kv by (cases ts') (auto simp: member_text_def)
    have "p_value L depth ((''{'' @ commas ts @ ''}'') @ rest) n =
        p_members L (Suc depth) [] (commas ts @ CHR ''}'' # rest) (Suc n)"
      using p_value_token [OF g sp] u by (simp add: skip_space_Cons consume_def)
    moreover have "decides (p_members L (Suc depth) [] (commas ts @ CHR ''}'' # rest) (Suc n))
        (list_all (\<lambda>(k, v). string_ok L k \<and> shape_ok L (Suc depth) v) kvs \<and>
          Suc n + (\<Sum>p\<leftarrow>kvs. value_count (snd p)) \<le> max_values L)
        (JObject (obj_of kvs), rest, Suc n + (\<Sum>p\<leftarrow>kvs. value_count (snd p)))"
      unfolding obj_of_def by (rule p_members_decides [OF assms(1)]) (use kv assms(2) in simp_all)
    ultimately show ?thesis unfolding count shape by (simp only:) (erule decides_cong, auto)
  qed
qed

theorem json_text_read_back: "json_text v t \<Longrightarrow> read_back v t"
proof (induction rule: json_text.induct)
  case (array vs ts)
  then show ?case by (intro read_back_array) (auto elim: list_all2_mono)
next
  case (object kvs ts)
  then show ?case
    by (intro read_back_object, elim list_all2_mono) (unfold member_text_def, blast)
qed (rule read_back_null read_back_bool read_back_unsigned read_back_string | assumption)+

end
