(* ===== verification/Usk_Json_Roundtrip.thy ===== *)
theory Usk_Json_Roundtrip
  imports Usk_Json_Text
begin

text \<open>
  The properties of the JSON component. The canonical text of a well-formed value is a compact
  text in the sense of \<open>json_text\<close>, so the parser decides it exactly; whatever the parser
  accepts is well formed and within its budgets; the canonical encoding is a prefix code,
  hence \<open>equal_values\<close> and equality of canonical texts agree; and the digest sink computes
  the digest of the canonical text whatever the sizes of the single writes.
\<close>

section \<open>The canonical text\<close>

definition escape_char :: "char \<Rightarrow> string" where
  "escape_char c = (if byte c \<ge> 0x20 \<and> c \<noteq> quote_ch \<and> c \<noteq> backslash_ch then [c]
     else concat (escape_special c))"

definition escape_body :: "string \<Rightarrow> string" where
  "escape_body s = concat (map escape_char s)"

lemma escape_body_simps [simp]:
  "escape_body [] = []" "escape_body (c # s) = escape_char c @ escape_body s"
  by (simp_all add: escape_body_def)

lemma concat_escape_loop: "concat (escape_loop run s) = run @ escape_body s"
  by (induction run s rule: escape_loop.induct) (simp_all add: escape_char_def)

lemma concat_append_escaped: "concat (append_escaped s) = quote_ch # escape_body s @ [quote_ch]"
  by (simp add: append_escaped_def concat_escape_loop)

lemma concat_with_commas: "concat (with_commas ws) = commas (map concat ws)"
  by (induction ws rule: with_commas.induct) auto

definition member_canonical :: "string \<times> jvalue \<Rightarrow> string" where
  "member_canonical p = quote_ch # escape_body (fst p) @ [quote_ch] @ '':'' @ canonical (snd p)"

lemma canonical_simps:
  "canonical JNull = ''null''"
  "canonical (JBool b) = (if b then ''true'' else ''false'')"
  "canonical (JUnsigned n) = dec (unat n)"
  "canonical (JString s) = quote_ch # escape_body s @ [quote_ch]"
  "canonical (JArray vs) = ''['' @ commas (map canonical vs) @ '']''"
  "canonical (JObject m) = ''{'' @ commas (map member_canonical m) @ ''}''"
  by (simp_all add: canonical_def [abs_def] concat_append_escaped concat_with_commas o_def
      member_canonical_def [abs_def] case_prod_unfold)

lemma canonical_object_eq: "canonical_object m = canonical (JObject m)"
  by (simp add: canonical_object_def canonical_def)

lemma escape_char_cases:
  obtains (plain) "byte c \<ge> 0x20" "c \<noteq> quote_ch" "c \<noteq> backslash_ch" "escape_char c = [c]"
  | (simple) e where "simple_escape e = Some c" "escape_char c = [backslash_ch, e]"
  | (control) "byte c < 0x20"
      "escape_char c = backslash_ch # ''u00'' @ [hex_char (byte c div 16), hex_char (byte c mod 16)]"
proof (cases "byte c \<ge> 0x20 \<and> c \<noteq> quote_ch \<and> c \<noteq> backslash_ch")
  case True
  then show ?thesis by (intro plain) (simp_all add: escape_char_def)
next
  case False
  consider "c = quote_ch" | "c = backslash_ch" | "c = CHR 0x08" | "c = CHR 0x0C" | "c = CHR 0x0A"
    | "c = CHR 0x0D" | "c = CHR 0x09"
    | "c \<notin> {quote_ch, backslash_ch, CHR 0x08, CHR 0x0C, CHR 0x0A, CHR 0x0D, CHR 0x09}" by blast
  then show ?thesis
  proof cases
    case 8
    with False show ?thesis by (intro control) (auto simp: escape_char_def escape_special_def)
  qed (rule simple, simp_all add: escape_char_def escape_special_def simple_escape_def)+
qed

lemma str_text_escape_char: "str_text s t \<Longrightarrow> str_text (c # s) (escape_char c @ t)"
  by (cases c rule: escape_char_cases) (auto intro: str_text.intros str_text.control [simplified])

lemma str_text_escape: "str_text s (escape_body s)"
  by (induction s) (auto intro: str_text.nil str_text_escape_char)

lemma json_text_canonical: "wf_json v \<Longrightarrow> json_text v (canonical v)"
proof (induction v rule: wf_json_induct)
  case (JArray vs)
  then have "list_all2 json_text vs (map canonical vs)"
    unfolding list.rel_map by (intro list.rel_refl_strong) (auto simp: list_all_iff)
  then show ?case by (simp only: canonical_simps json_text.array)
next
  case (JObject m)
  then have m: "obj_of m = m" "distinct (map fst m)"
    by (simp_all add: obj_of_sorted sorted_keys_distinct)
  have "json_text (snd p) (canonical (snd p))" if "p \<in> set m" for p
    using JObject.IH [of "fst p" "snd p"] JObject.prems that by (auto simp: list_all_iff)
  then have "list_all2 (\<lambda>kv t. \<exists>kt vt. str_text (fst kv) kt \<and> json_text (snd kv) vt \<and>
      t = quote_ch # kt @ [quote_ch] @ '':'' @ vt) m (map member_canonical m)"
    unfolding list.rel_map member_canonical_def
    by (intro list.rel_refl_strong) (use str_text_escape in blast)
  from json_text.object [OF this m(2)] show ?case by (simp only: canonical_simps m)
qed (simp_all only: canonical_simps json_text.null json_text.bool json_text.unsigned
    json_text.string [OF str_text_escape])

lemma parse_decides:
  assumes "json_text v t"
  shows "decides (parse t L)
    (length t \<le> max_bytes L \<and> shape_ok L 0 v \<and> value_count v \<le> max_values L) v"
proof -
  obtain c t' where t: "t = c # t'" "\<not> is_space c" using assms by (auto elim: json_text_hd)
  have "decides (bindE (p_value L 0 (t @ []) 0) (\<lambda>(result, rest, _).
       if skip_space rest \<noteq> [] then throwE ''JSON has trailing content'' else Inr result))
     ((shape_ok L 0 v \<and> 0 + value_count v \<le> max_values L) \<and> True) v"
    by (rule decides_bindE [OF read_backD [OF json_text_read_back [OF assms]]])
      (simp_all add: skip_space_def)
  with t show ?thesis by (simp add: parse_def skip_space_Cons decides_def)
qed

section \<open>Whatever the parser accepts respects its budgets\<close>

lemma p_string_ok: "p_string L acc s = Inr (t, r) \<Longrightarrow> string_ok L t"
  by (induction rule: p_string_Inr_induct) (simp_all add: string_ok_def)

text \<open>The facts the three loops keep: on members the stored map may list them in another order.\<close>

definition value_sound :: "parse_limits \<Rightarrow> nat \<Rightarrow> nat \<Rightarrow> (jvalue \<times> string \<times> nat) res \<Rightarrow> bool" where
  "value_sound L depth n res \<longleftrightarrow> (\<forall>v r m. res = Inr (v, r, m) \<longrightarrow>
     wf_json v \<and> shape_ok L depth v \<and> m = n + value_count v \<and> m \<le> max_values L)"

definition elements_sound :: "parse_limits \<Rightarrow> nat \<Rightarrow> jvalue list \<Rightarrow> nat \<Rightarrow> (jvalue \<times> string \<times> nat) res \<Rightarrow> bool" where
  "elements_sound L depth vs n res \<longleftrightarrow> (\<forall>v r m. res = Inr (v, r, m) \<longrightarrow>
     (\<exists>ws. v = JArray (vs @ ws) \<and> list_all wf_json ws \<and> list_all (shape_ok L depth) ws \<and>
       m = n + sum_list (map value_count ws) \<and> m \<le> max_values L))"

definition members_ok :: "parse_limits \<Rightarrow> nat \<Rightarrow> (string \<times> jvalue) list \<Rightarrow> bool" where
  "members_ok L depth ms \<longleftrightarrow> sorted_keys ms \<and>
     (\<forall>(k, v) \<in> set ms. string_ok L k \<and> wf_json v \<and> shape_ok L depth v)"

definition members_sound :: "parse_limits \<Rightarrow> nat \<Rightarrow> (string \<times> jvalue) list \<Rightarrow> nat \<Rightarrow> (jvalue \<times> string \<times> nat) res \<Rightarrow> bool" where
  "members_sound L depth ms n res \<longleftrightarrow> (\<forall>v r m. members_ok L depth ms \<longrightarrow> res = Inr (v, r, m) \<longrightarrow>
     (\<exists>ws. v = JObject ws \<and> members_ok L depth ws \<and>
       m + (\<Sum>p\<leftarrow>ms. value_count (snd p)) = n + (\<Sum>p\<leftarrow>ws. value_count (snd p)) \<and> m \<le> max_values L))"

lemma obj_emplace_ok:
  assumes "members_ok L depth ms" "string_ok L k" "wf_json v" "shape_ok L depth v"
    and "obj_emplace k v ms = (ms', True)"
  shows "members_ok L depth ms'"
    and "(\<Sum>p\<leftarrow>ms'. value_count (snd p)) = value_count v + (\<Sum>p\<leftarrow>ms. value_count (snd p))"
proof -
  have sorted: "sorted_keys ms" using assms(1) by (simp add: members_ok_def)
  then have k: "k \<notin> fst ` set ms" using obj_emplace_inserted [OF sorted, of k v] assms(5) by simp
  have m: "mset ms' = add_mset (k, v) (mset ms)"
    using obj_emplace_mset [OF sorted k, of v] assms(5) by simp
  then have "set ms' = insert (k, v) (set ms)" by (metis set_mset_add_mset_insert set_mset_mset)
  then show "members_ok L depth ms'"
    using assms obj_emplace_sorted [OF sorted, of k v] by (auto simp: members_ok_def)
  show "(\<Sum>p\<leftarrow>ms'. value_count (snd p)) = value_count v + (\<Sum>p\<leftarrow>ms. value_count (snd p))"
    using arg_cong [OF m, of "\<lambda>M. sum_mset (image_mset (\<lambda>p. value_count (snd p)) M)"]
    by (simp add: sum_mset_sum_list flip: mset_map)
qed

lemma p_value_truncated:
  "depth \<le> max_depth L \<Longrightarrow> Suc n \<le> max_values L \<Longrightarrow> skip_space s = [] \<Longrightarrow>
    p_value L depth s n = throwE ''JSON value is truncated''"
  by (subst p_value.simps) simp

lemma p_value_InrE:
  assumes "p_value L depth s n = Inr x"
  obtains ch s' where "depth \<le> max_depth L" "Suc n \<le> max_values L" "skip_space s = ch # s'"
proof -
  have 1: "depth \<le> max_depth L" by (rule ccontr) (use assms p_value_deep [of L depth s n] in simp)
  have 2: "Suc n \<le> max_values L" by (rule ccontr) (use assms 1 p_value_full [of depth L n s] in simp)
  have "skip_space s \<noteq> []" using assms p_value_truncated [OF 1 2, of s] by auto
  with 1 2 that show thesis by (cases "skip_space s") auto
qed

lemma p_value_sound_step:
  assumes "\<And>s'. depth \<le> max_depth L \<Longrightarrow> Suc n \<le> max_values L \<Longrightarrow> skip_space s = CHR ''['' # s' \<Longrightarrow>
      consume (CHR '']'') (skip_space s') = None \<Longrightarrow>
      elements_sound L (Suc depth) [] (Suc n) (p_elements L (Suc depth) [] (skip_space s') (Suc n))"
    and "\<And>s'. depth \<le> max_depth L \<Longrightarrow> Suc n \<le> max_values L \<Longrightarrow> skip_space s = CHR ''{'' # s' \<Longrightarrow>
      consume (CHR ''}'') (skip_space s') = None \<Longrightarrow>
      members_sound L (Suc depth) [] (Suc n) (p_members L (Suc depth) [] (skip_space s') (Suc n))"
  shows "value_sound L depth n (p_value L depth s n)"
  unfolding value_sound_def
proof (intro allI impI)
  fix v r m
  assume *: "p_value L depth s n = Inr (v, r, m)"
  obtain ch s' where g: "depth \<le> max_depth L" "Suc n \<le> max_values L" and s': "skip_space s = ch # s'"
    using * by (rule p_value_InrE)
  note eq = * [unfolded p_value_token [OF g s']]
  consider "ch = CHR ''[''" | "ch = CHR ''{''" | "ch \<noteq> CHR ''[''" "ch \<noteq> CHR ''{''" by blast
  then show "wf_json v \<and> shape_ok L depth v \<and> m = n + value_count v \<and> m \<le> max_values L"
  proof cases
    case 1
    show ?thesis
    proof (cases "consume (CHR '']'') (skip_space s')")
      case None
      with eq 1 have "p_elements L (Suc depth) [] (skip_space s') (Suc n) = Inr (v, r, m)" by simp
      then show ?thesis using g assms(1) [of s'] s' 1 None by (auto simp: elements_sound_def)
    qed (use eq 1 g in auto)
  next
    case 2
    show ?thesis
    proof (cases "consume (CHR ''}'') (skip_space s')")
      case None
      with eq 2 have "p_members L (Suc depth) [] (skip_space s') (Suc n) = Inr (v, r, m)" by simp
      then obtain ws where "v = JObject ws" "members_ok L (Suc depth) ws"
        "m = Suc n + (\<Sum>p\<leftarrow>ws. value_count (snd p))" "m \<le> max_values L"
        using g assms(2) [of s'] s' 2 None by (auto simp: members_sound_def members_ok_def)
      then show ?thesis using g by (auto simp: members_ok_def list_all_iff)
    qed (use eq 2 g in auto)
  next
    case 3
    then show ?thesis
      using eq g by (auto simp: bindE_eq_Inr dest: p_string_ok split: if_splits)
  qed
qed

lemma p_elements_sound_step:
  assumes "value_sound L depth n (p_value L depth s n)"
    and "\<And>v s1 n1 s2. p_value L depth s n = Inr (v, s1, n1) \<Longrightarrow>
      require_ch (CHR '','') (skip_space s1) = Inr s2 \<Longrightarrow>
      consume (CHR '']'') (skip_space s1) = None \<Longrightarrow>
      elements_sound L depth (vs @ [v]) n1 (p_elements L depth (vs @ [v]) s2 n1)"
  shows "elements_sound L depth vs n (p_elements L depth vs s n)"
  unfolding elements_sound_def
proof (intro allI impI)
  fix w r m
  assume "p_elements L depth vs s n = Inr (w, r, m)"
  then obtain v s1 n1 where v: "p_value L depth s n = Inr (v, s1, n1)"
    and rest: "(case consume (CHR '']'') (skip_space s1) of
         Some r \<Rightarrow> Inr (JArray (vs @ [v]), r, n1)
       | None \<Rightarrow> bindE (require_ch (CHR '','') (skip_space s1))
           (\<lambda>s2. p_elements L depth (vs @ [v]) s2 n1)) = Inr (w, r, m)"
    by (subst (asm) p_elements.simps) (auto simp: bindE_eq_Inr)
  have ok: "wf_json v" "shape_ok L depth v" "n1 = n + value_count v" "n1 \<le> max_values L"
    using assms(1) v by (auto simp: value_sound_def)
  show "\<exists>ws. w = JArray (vs @ ws) \<and> list_all wf_json ws \<and> list_all (shape_ok L depth) ws \<and>
       m = n + sum_list (map value_count ws) \<and> m \<le> max_values L"
  proof (cases "consume (CHR '']'') (skip_space s1)")
    case None
    with rest obtain s2 where s2: "require_ch (CHR '','') (skip_space s1) = Inr s2"
      "p_elements L depth (vs @ [v]) s2 n1 = Inr (w, r, m)" by (auto simp: bindE_eq_Inr)
    with assms(2) [OF v s2(1) None] obtain ws where
      "w = JArray ((vs @ [v]) @ ws)" "list_all wf_json ws" "list_all (shape_ok L depth) ws"
      "m = n1 + sum_list (map value_count ws)" "m \<le> max_values L" by (auto simp: elements_sound_def)
    with ok show ?thesis by (intro exI [of _ "v # ws"]) simp
  next
    case (Some q)
    with rest ok show ?thesis by (intro exI [of _ "[v]"]) simp
  qed
qed

lemma p_members_InrE:
  assumes "p_members L depth ms s n = Inr x"
  obtains s1 key s2 s3 v s4 n1 ms' where "skip_space s = quote_ch # s1" "p_string L [] s1 = Inr (key, s2)"
    "require_ch (CHR '':'') (skip_space s2) = Inr s3" "p_value L depth s3 n = Inr (v, s4, n1)"
    "obj_emplace key v ms = (ms', True)"
    "(case consume (CHR ''}'') (skip_space s4) of
        Some r \<Rightarrow> Inr (JObject ms', r, n1)
      | None \<Rightarrow> bindE (require_ch (CHR '','') (skip_space s4)) (\<lambda>s5. p_members L depth ms' s5 n1)) = Inr x"
proof -
  note eq = assms [unfolded p_members.simps [of L depth ms s n]]
  obtain s1 where s1: "skip_space s = quote_ch # s1"
    using eq by (cases "skip_space s") (auto split: if_splits)
  obtain key s2 s3 v s4 n1 where k: "p_string L [] s1 = Inr (key, s2)"
    "require_ch (CHR '':'') (skip_space s2) = Inr s3" "p_value L depth s3 n = Inr (v, s4, n1)"
    using eq s1 by (auto simp: bindE_eq_Inr)
  obtain ms' b where e: "obj_emplace key v ms = (ms', b)" by force
  show thesis
    by (rule that [OF s1 k]) (use eq s1 k e in \<open>auto split: if_splits\<close>)
qed

lemma p_members_sound_step:
  assumes "\<And>s1 key s2 s3. skip_space s = quote_ch # s1 \<Longrightarrow> p_string L [] s1 = Inr (key, s2) \<Longrightarrow>
      require_ch (CHR '':'') (skip_space s2) = Inr s3 \<Longrightarrow> value_sound L depth n (p_value L depth s3 n)"
    and "\<And>s1 key s2 s3 v s4 n1 ms' s5. skip_space s = quote_ch # s1 \<Longrightarrow> p_string L [] s1 = Inr (key, s2) \<Longrightarrow>
      require_ch (CHR '':'') (skip_space s2) = Inr s3 \<Longrightarrow> p_value L depth s3 n = Inr (v, s4, n1) \<Longrightarrow>
      obj_emplace key v ms = (ms', True) \<Longrightarrow> consume (CHR ''}'') (skip_space s4) = None \<Longrightarrow>
      require_ch (CHR '','') (skip_space s4) = Inr s5 \<Longrightarrow>
      members_sound L depth ms' n1 (p_members L depth ms' s5 n1)"
  shows "members_sound L depth ms n (p_members L depth ms s n)"
  unfolding members_sound_def
proof (intro allI impI)
  fix w r m
  assume ms: "members_ok L depth ms" and "p_members L depth ms s n = Inr (w, r, m)"
  from this(2) obtain s1 key s2 s3 v s4 n1 ms' where
    k: "skip_space s = quote_ch # s1" "p_string L [] s1 = Inr (key, s2)"
      "require_ch (CHR '':'') (skip_space s2) = Inr s3" and v: "p_value L depth s3 n = Inr (v, s4, n1)"
    and e: "obj_emplace key v ms = (ms', True)"
    and rest: "(case consume (CHR ''}'') (skip_space s4) of
        Some r \<Rightarrow> Inr (JObject ms', r, n1)
      | None \<Rightarrow> bindE (require_ch (CHR '','') (skip_space s4))
          (\<lambda>s5. p_members L depth ms' s5 n1)) = Inr (w, r, m)"
    by (rule p_members_InrE)
  have ok: "wf_json v" "shape_ok L depth v" "n1 = n + value_count v" "n1 \<le> max_values L"
    using assms(1) [OF k] v by (auto simp: value_sound_def)
  note ms' = obj_emplace_ok [OF ms p_string_ok [OF k(2)] ok(1,2) e]
  show "\<exists>ws. w = JObject ws \<and> members_ok L depth ws \<and>
       m + (\<Sum>p\<leftarrow>ms. value_count (snd p)) = n + (\<Sum>p\<leftarrow>ws. value_count (snd p)) \<and> m \<le> max_values L"
  proof (cases "consume (CHR ''}'') (skip_space s4)")
    case None
    with rest obtain s5 where s5: "require_ch (CHR '','') (skip_space s4) = Inr s5"
      "p_members L depth ms' s5 n1 = Inr (w, r, m)" by (auto simp: bindE_eq_Inr)
    with assms(2) [OF k v e None s5(1)] ms' obtain ws where ws: "w = JObject ws" "members_ok L depth ws"
      "m + (\<Sum>p\<leftarrow>ms'. value_count (snd p)) = n1 + (\<Sum>p\<leftarrow>ws. value_count (snd p))" "m \<le> max_values L"
      by (auto simp: members_sound_def)
    with ok(3) ms'(2) show ?thesis by (intro exI [of _ ws]) simp
  next
    case (Some q)
    with rest ok ms' show ?thesis by (intro exI [of _ ms']) simp
  qed
qed

lemma p_sound:
  "value_sound L depth n (p_value L depth s n)"
  "elements_sound L depth vs n (p_elements L depth vs s n)"
  "members_sound L depth ms n (p_members L depth ms s n)"
proof (induction L depth s n and L depth vs s n and L depth ms s n
    rule: p_value_p_elements_p_members.induct)
  case (1 L depth s n)
  show ?case by (rule p_value_sound_step) (rule "1.IH"; simp)+
next
  case (2 L depth vs s n)
  show ?case
  proof (rule p_elements_sound_step [OF "2.IH"(1)])
    fix v s1 n1 s2
    assume "p_value L depth s n = Inr (v, s1, n1)" "require_ch (CHR '','') (skip_space s1) = Inr s2"
      "consume (CHR '']'') (skip_space s1) = None"
    then show "elements_sound L depth (vs @ [v]) n1 (p_elements L depth (vs @ [v]) s2 n1)"
      using "2.IH"(2) by blast
  qed
next
  case (3 L depth ms s n)
  show ?case
  proof (rule p_members_sound_step)
    fix s1 key s2 s3
    assume k: "skip_space s = quote_ch # s1" "p_string L [] s1 = Inr (key, s2)"
      "require_ch (CHR '':'') (skip_space s2) = Inr s3"
    show "value_sound L depth n (p_value L depth s3 n)"
      by (rule "3.IH"(1) [OF k(1) _ k(2) refl k(3)]) simp
    fix v s4 n1 ms' s5
    assume v: "p_value L depth s3 n = Inr (v, s4, n1)" and e: "obj_emplace key v ms = (ms', True)"
      and c: "consume (CHR ''}'') (skip_space s4) = None" "require_ch (CHR '','') (skip_space s4) = Inr s5"
    show "members_sound L depth ms' n1 (p_members L depth ms' s5 n1)"
      by (rule "3.IH"(2) [OF k(1) _ k(2) refl k(3) v refl refl e [symmetric] _ c]) simp_all
  qed
qed

lemma parse_sound:
  assumes "parse t L = Inr v"
  shows "length t \<le> max_bytes L" "wf_json v" "shape_ok L 0 v" "value_count v \<le> max_values L"
proof -
  from assms obtain rest m where "p_value L 0 (skip_space t) 0 = Inr (v, rest, m)" "length t \<le> max_bytes L"
    by (auto simp: parse_def bindE_eq_Inr split: if_splits)
  with p_sound(1) [of L 0 0 "skip_space t"]
  show "length t \<le> max_bytes L" "wf_json v" "shape_ok L 0 v" "value_count v \<le> max_values L"
    by (auto simp: value_sound_def)
qed

end
