(* ===== verification/Usk_Json_Equal.thy ===== *)
theory Usk_Json_Equal
  imports Usk_Json_Roundtrip
begin

text \<open>
  The canonical encoding is a prefix code, so equal canonical texts come from equal values and
  \<^verbatim>\<open>equal_values\<close> decides equality of canonical texts without building them. The second half
  treats \<^verbatim>\<open>CanonicalDigest\<close> as another digest stream: whatever the sizes of the single
  writes, it computes the digest of their concatenation.
\<close>

section \<open>The canonical encoding is a prefix code\<close>

lemma simple_escape_u: "simple_escape (CHR ''u'') = None"
  by (simp add: simple_escape_def)

lemma escape_char_prefix:
  assumes "escape_char c @ x = escape_char d @ y"
  shows "c = d \<and> x = y"
proof (cases c rule: escape_char_cases)
  case plain
  then show ?thesis using assms by (cases d rule: escape_char_cases) auto
next
  case (simple e)
  then show ?thesis using assms simple_escape_u by (cases d rule: escape_char_cases) auto
next
  case control
  show ?thesis
  proof (cases d rule: escape_char_cases)
    case (simple e)
    then show ?thesis using control assms simple_escape_u by auto
  next
    case control': control
    have "hex_char (byte c div 16) = hex_char (byte d div 16)" "hex_char (byte c mod 16) = hex_char (byte d mod 16)"
      and x: "x = y"
      using assms control control' by auto
    then have "byte c div 16 = byte d div 16" "byte c mod 16 = byte d mod 16"
      using control control' by (simp_all add: hex_char_inj)
    then have "byte c = byte d" by (metis div_mult_mod_eq)
    with x show ?thesis by (simp add: char_eqI_byte)
  qed (use control assms in auto)
qed

lemma escape_char_hd: obtains e t where "escape_char c = e # t" "e \<noteq> quote_ch"
  by (cases c rule: escape_char_cases) auto

lemma escape_body_prefix:
  "escape_body s @ quote_ch # x = escape_body t @ quote_ch # y \<Longrightarrow> s = t \<and> x = y"
proof (induction s arbitrary: t)
  case Nil
  show ?case
  proof (cases t)
    case (Cons d t')
    with Nil show ?thesis by (cases rule: escape_char_hd [of d]) auto
  qed (use Nil in simp)
next
  case (Cons c s)
  show ?case
  proof (cases t)
    case Nil
    with Cons.prems show ?thesis by (cases rule: escape_char_hd [of c]) auto
  next
    case t: (Cons d t')
    then have "escape_char c @ (escape_body s @ quote_ch # x) = escape_char d @ (escape_body t' @ quote_ch # y)"
      using Cons.prems by simp
    from escape_char_prefix [OF this] Cons.IH [of t'] t show ?thesis by simp
  qed
qed

definition splits_at :: "('a \<Rightarrow> string) \<Rightarrow> 'a \<Rightarrow> bool" where
  "splits_at f a \<longleftrightarrow> (\<forall>b x y. ends_number x \<longrightarrow> ends_number y \<longrightarrow> f a @ x = f b @ y \<longrightarrow> a = b \<and> x = y)"

lemma splits_atD: "splits_at f a \<Longrightarrow> ends_number x \<Longrightarrow> ends_number y \<Longrightarrow> f a @ x = f b @ y \<Longrightarrow> a = b \<and> x = y"
  by (simp add: splits_at_def)

lemma commas_Cons: "commas (t # ts) = t @ (if ts = [] then [] else CHR '','' # commas ts)"
  by (cases ts) auto

lemma commas_prefix:
  assumes close: "close = CHR '']'' \<or> close = CHR ''}''"
    and hd: "\<And>a. \<exists>c t. f a = c # t \<and> c \<noteq> close"
    and "\<And>a. a \<in> set xs \<Longrightarrow> splits_at f a"
    and "commas (map f xs) @ close # x = commas (map f ys) @ close # y"
  shows "xs = ys \<and> x = y"
  using assms(3,4)
proof (induction xs arbitrary: ys)
  case Nil
  show ?case
  proof (cases ys)
    case (Cons b ys')
    then show ?thesis using Nil.prems(2) hd [of b] by (auto simp: commas_Cons)
  qed (use Nil.prems in simp)
next
  case (Cons a xs)
  define tail where "tail zs r = (if zs = [] then close # r else CHR '','' # commas (map f zs) @ close # r)" for zs r
  have tail: "ends_number (tail zs r)" for zs r using close by (auto simp: tail_def)
  have split: "commas (map f (z # zs)) @ close # r = f z @ tail zs r" for z zs r
    by (simp add: commas_Cons tail_def)
  show ?case
  proof (cases ys)
    case Nil
    then show ?thesis using Cons.prems(2) hd [of a] by (auto simp: commas_Cons)
  next
    case ys: (Cons b ys')
    then have "f a @ tail xs x = f b @ tail ys' y" using Cons.prems(2) by (simp only: split)
    with Cons.prems(1) [of a] tail have ab: "a = b" "tail xs x = tail ys' y"
      by (auto dest: splits_atD)
    then have "commas (map f xs) @ close # x = commas (map f ys') @ close # y"
      using close by (auto simp: tail_def split: if_splits)
    with Cons.IH [of ys'] Cons.prems(1) ab ys show ?thesis by simp
  qed
qed

fun token_class :: "jvalue \<Rightarrow> nat" where
  "token_class JNull = 0" | "token_class (JBool _) = 1" | "token_class (JUnsigned _) = 2"
| "token_class (JString _) = 3" | "token_class (JArray _) = 4" | "token_class (JObject _) = 5"

definition class_of_char :: "char \<Rightarrow> nat" where
  "class_of_char c = (if c = CHR ''n'' then 0 else if c = CHR ''t'' \<or> c = CHR ''f'' then 1
    else if isdigit c then 2 else if c = quote_ch then 3 else if c = CHR ''['' then 4
    else if c = CHR ''{'' then 5 else 6)"

lemma canonical_hd:
  obtains c t where "canonical v = c # t" "class_of_char c = token_class v" "c \<noteq> CHR '']''" "c \<noteq> CHR ''}''"
proof (cases v)
  case (JUnsigned w)
  obtain c cs where c: "dec (unat w) = c # cs" "isdigit c" by (rule dec_hd)
  show ?thesis
    by (rule that [of c cs]) (use c JUnsigned isdigit_not_special [OF c(2)] in \<open>auto simp: canonical_simps class_of_char_def\<close>)
next
  case (JBool b)
  then show ?thesis using that by (cases b) (auto simp: canonical_simps class_of_char_def)
qed (use that in \<open>auto simp: canonical_simps class_of_char_def isdigit_def split: if_splits\<close>)

lemma dec_prefix:
  assumes "dec m @ x = dec n @ y" "ends_number x" "ends_number y"
  shows "m = n \<and> x = y"
proof -
  have tw: "takeWhile isdigit (dec k @ z) = dec k" if "ends_number z" for k z
    using that dec_isdigit [of _ k] by (subst takeWhile_append2) (cases z; auto simp: ends_number_def)+
  have "dec m = dec n" using tw [OF assms(2), of m] tw [OF assms(3), of n] assms(1) by simp
  with assms(1) show ?thesis by simp
qed

lemma member_canonical_prefix:
  assumes "splits_at canonical (snd p)"
  shows "splits_at member_canonical p"
  unfolding splits_at_def
proof (intro allI impI)
  fix q x y
  assume ends: "ends_number x" "ends_number y" and eq: "member_canonical p @ x = member_canonical q @ y"
  from eq have "escape_body (fst p) @ quote_ch # CHR '':'' # canonical (snd p) @ x =
      escape_body (fst q) @ quote_ch # CHR '':'' # canonical (snd q) @ y"
    by (simp add: member_canonical_def)
  from escape_body_prefix [OF this] splits_atD [OF assms ends, of "snd q"]
  show "p = q \<and> x = y" by (auto simp: prod_eq_iff)
qed

lemma canonical_same_class:
  assumes "canonical v @ x = canonical w @ y"
  shows "token_class v = token_class w"
proof -
  obtain c t where c: "canonical v = c # t" "class_of_char c = token_class v" by (rule canonical_hd)
  obtain d u where d: "canonical w = d # u" "class_of_char d = token_class w" by (rule canonical_hd)
  from c d assms show ?thesis by simp
qed

lemma canonical_splits: "splits_at canonical v"
proof (induction v rule: wf_json_induct)
  case (JArray vs)
  show ?case
    unfolding splits_at_def
  proof (intro allI impI)
    fix w x y
    assume eq: "canonical (JArray vs) @ x = canonical w @ y"
    then obtain ws where w: "w = JArray ws" using canonical_same_class [OF eq] by (cases w) auto
    have "vs = ws \<and> x = y"
    proof (rule commas_prefix [of "CHR '']''" canonical])
      show "\<exists>c t. canonical a = c # t \<and> c \<noteq> CHR '']''" for a by (rule canonical_hd [of a]) blast
    qed (use eq w JArray in \<open>simp_all add: canonical_simps\<close>)
    with w show "JArray vs = w \<and> x = y" by simp
  qed
next
  case (JObject m)
  show ?case
    unfolding splits_at_def
  proof (intro allI impI)
    fix w x y
    assume eq: "canonical (JObject m) @ x = canonical w @ y"
    then obtain ws where w: "w = JObject ws" using canonical_same_class [OF eq] by (cases w) auto
    have "m = ws \<and> x = y"
    proof (rule commas_prefix [of "CHR ''}''" member_canonical])
      show "splits_at member_canonical p" if "p \<in> set m" for p
        using JObject [of "fst p" "snd p"] that by (intro member_canonical_prefix) simp
    qed (use eq w in \<open>simp_all add: canonical_simps member_canonical_def\<close>)
    with w show "JObject m = w \<and> x = y" by simp
  qed
next
  case (JUnsigned n)
  show ?case
    unfolding splits_at_def
  proof (intro allI impI)
    fix w x y
    assume ends: "ends_number x" "ends_number y" and eq: "canonical (JUnsigned n) @ x = canonical w @ y"
    then obtain k where w: "w = JUnsigned k" using canonical_same_class [OF eq] by (cases w) auto
    with eq dec_prefix [OF _ ends, of "unat n" "unat k"] show "JUnsigned n = w \<and> x = y"
      by (auto simp: canonical_simps intro: unsigned_word_eqI)
  qed
next
  case (JString s)
  show ?case
    unfolding splits_at_def
  proof (intro allI impI)
    fix w x y
    assume eq: "canonical (JString s) @ x = canonical w @ y"
    then obtain t where w: "w = JString t" using canonical_same_class [OF eq] by (cases w) auto
    with eq escape_body_prefix [of s x t y] show "JString s = w \<and> x = y" by (simp add: canonical_simps)
  qed
next
  case JNull
  show ?case
    unfolding splits_at_def
  proof (intro allI impI)
    fix w x y
    assume eq: "canonical JNull @ x = canonical w @ y"
    with canonical_same_class [OF eq] show "JNull = w \<and> x = y" by (cases w) auto
  qed
next
  case (JBool b)
  show ?case
    unfolding splits_at_def
  proof (intro allI impI)
    fix w x y
    assume eq: "canonical (JBool b) @ x = canonical w @ y"
    then obtain c where "w = JBool c" using canonical_same_class [OF eq] by (cases w) auto
    with eq show "JBool b = w \<and> x = y" by (cases b; cases c) (auto simp: canonical_simps)
  qed
qed

lemma canonical_inj: "canonical v = canonical w \<longleftrightarrow> v = w"
  using splits_atD [OF canonical_splits, of "[]" "[]" v w] by auto

section \<open>Structural equality\<close>

lemma equal_values_simps [simp]:
  "equal_values JNull w \<longleftrightarrow> w = JNull"
  "equal_values (JBool b) w \<longleftrightarrow> w = JBool b"
  "equal_values (JUnsigned n) w \<longleftrightarrow> w = JUnsigned n"
  "equal_values (JString s) w \<longleftrightarrow> w = JString s"
  "equal_values (JArray vs) w \<longleftrightarrow> (\<exists>ws. w = JArray ws \<and> list_all2 equal_values vs ws)"
  "equal_values (JObject m) w \<longleftrightarrow> (\<exists>m'. w = JObject m' \<and>
     list_all2 (\<lambda>p q. fst p = fst q \<and> equal_values (snd p) (snd q)) m m')"
  by (subst equal_values.simps; cases w;
      force simp: list_all2_iff list_all_iff case_prod_unfold)+

lemma list_all2_eq_on:
  "(\<And>x y. x \<in> set xs \<Longrightarrow> R x y \<longleftrightarrow> x = y) \<Longrightarrow> list_all2 R xs ys \<longleftrightarrow> xs = ys"
proof (induction xs arbitrary: ys)
  case (Cons x xs)
  then show ?case by (cases ys) auto
qed auto

lemma equal_values_eq: "equal_values v w \<longleftrightarrow> v = w"
proof (induction v arbitrary: w rule: wf_json_induct)
  case (JArray vs)
  then have "list_all2 equal_values vs ws \<longleftrightarrow> vs = ws" for ws by (intro list_all2_eq_on)
  then show ?case by auto
next
  case (JObject m)
  have "list_all2 (\<lambda>p q. fst p = fst q \<and> equal_values (snd p) (snd q)) m m' \<longleftrightarrow> m = m'" for m'
  proof (rule list_all2_eq_on)
    fix p q
    assume "p \<in> set m"
    then show "fst p = fst q \<and> equal_values (snd p) (snd q) \<longleftrightarrow> p = q"
      using JObject [of "fst p" "snd p" "snd q"] by (simp add: prod_eq_iff)
  qed
  then show ?case by auto
qed auto

section \<open>The digest sink is a digest stream\<close>

definition cd_holds :: "canonical_digest \<Rightarrow> string \<Rightarrow> bool" where
  "cd_holds d m \<longleftrightarrow> cd_used d < 4096 \<and> length (cd_buffer d) = 4096 \<and>
     (\<exists>h. sha_holds (cd_digest d) h \<and> m = h @ take (cd_used d) (cd_buffer d))"

lemma cd_holds_new: "cd_holds cd_new []"
  by (simp add: cd_holds_def cd_new_def sha_holds_new)

lemma cd_flush_holds:
  assumes "sha_holds (cd_digest d) h"
  obtains h' where "cd_flush d = Inr (d\<lparr>cd_digest := h', cd_used := 0\<rparr>)"
    "sha_holds h' (h @ take (cd_used d) (cd_buffer d))"
  using sha_update_holds [OF assms] by (metis bindE_Inr cd_flush_def)

lemma cd_append_holds: "cd_holds d m \<Longrightarrow> \<exists>d'. cd_append d data = Inr d' \<and> cd_holds d' (m @ data)"
proof (induction d data arbitrary: m rule: cd_append.induct)
  case (1 d data)
  show ?case
  proof (cases "data = []")
    case True
    then show ?thesis using "1.prems" by (subst cd_append.simps) simp
  next
    case False
    let ?n = "min (length data) (4096 - cd_used d)"
    define d1 where "d1 = d\<lparr>cd_buffer := take (cd_used d) (cd_buffer d) @ take ?n data @
        drop (cd_used d + ?n) (cd_buffer d), cd_used := cd_used d + ?n\<rparr>"
    obtain h where u: "cd_used d < 4096" "length (cd_buffer d) = 4096"
      and h: "sha_holds (cd_digest d) h" "m = h @ take (cd_used d) (cd_buffer d)"
      using "1.prems" by (auto simp: cd_holds_def)
    have eq: "cd_append d data = bindE (if cd_used d1 = 4096 then cd_flush d1 else Inr d1)
        (\<lambda>d''. cd_append d'' (drop ?n data))"
      using False u by (subst cd_append.simps) (simp add: Let_def d1_def)
    have taken: "take (cd_used d1) (cd_buffer d1) = take (cd_used d) (cd_buffer d) @ take ?n data"
      using u by (simp add: d1_def min_def)
    have len: "length (cd_buffer d1) = 4096" and h1: "sha_holds (cd_digest d1) h"
      using u h by (simp_all add: d1_def min_def)
    obtain d2 where d2: "(if cd_used d1 = 4096 then cd_flush d1 else Inr d1) = Inr d2"
      "cd_holds d2 (m @ take ?n data)"
    proof (cases "cd_used d1 = 4096")
      case True
      obtain h' where f: "cd_flush d1 = Inr (d1\<lparr>cd_digest := h', cd_used := 0\<rparr>)"
        "sha_holds h' (h @ take (cd_used d1) (cd_buffer d1))" using h1 by (rule cd_flush_holds)
      have "cd_holds (d1\<lparr>cd_digest := h', cd_used := 0\<rparr>) (m @ take ?n data)"
        using f(2) [unfolded taken] len by (simp add: cd_holds_def h(2))
      with True f(1) that show thesis by simp
    next
      case False
      then have "cd_used d1 < 4096" using u by (auto simp: d1_def)
      with False taken len h h1 that show thesis by (simp add: cd_holds_def)
    qed
    have "\<exists>d'. cd_append d2 (drop ?n data) = Inr d' \<and> cd_holds d' ((m @ take ?n data) @ drop ?n data)"
      using "1.IH" [OF False _ refl _ _ d2(2)] u d2(1) d1_def by force
    with eq d2(1) show ?thesis by simp
  qed
qed

lemma cd_finish_digest: "cd_holds d m \<Longrightarrow> \<exists>d'. cd_finish d = Inr (sha256_spec m, d')"
  by (auto simp: cd_holds_def cd_finish_def elim!: cd_flush_holds)
    (metis (mono_tags, lifting) bindE_Inr case_prod_conv sha.close_digest)

interpretation cd: digest_stream cd_new cd_append cd_finish cd_holds sha256_spec
  by unfold_locales (rule cd_holds_new cd_append_holds cd_finish_digest, assumption?)+

lemma sha256_canonical_spec: "sha256_canonical v = sha256_spec (canonical v)"
  using cd.feed_all_close [of "append_canonical v"]
  by (auto simp: sha256_canonical_def canonical_def)

end
