(* ===== verification/Usk_Json_Budget.thy ===== *)
theory Usk_Json_Budget
  imports Usk_Json_Equal
begin

text \<open>
  \<^verbatim>\<open>CanonicalBudget\<close> of \<^verbatim>\<open>runtime/base/usk_json.cpp\<close>: it walks a value tree and charges the
  bytes, values, depth and strings that its canonical text would cost the parser, without
  building the text. The walker compares addresses to find one array that is to be replaced
  by a list of object views. An address is a root number with the path of child indexes
  below it, so two fields of a view may refer to the same object or to a part of each other,
  as the reference wrappers of the source may.

  \<open>b_value\<close> takes what to do at the replaced array as an argument: in the outer walk it is
  the replacement (once, inside the selected member), inside the replacement entries every
  further occurrence is the error the source throws.
\<close>

section \<open>The walker\<close>

type_synonym addr = "nat \<times> nat list"

type_synonym object_view = "(string \<times> addr \<times> jvalue) list"

definition view_fields :: "object_view \<Rightarrow> (string \<times> jvalue) list" where
  "view_fields view = map (\<lambda>(k, _, v). (k, v)) view"

lemma view_fields_simps [simp]:
  "view_fields [] = []" "view_fields ((k, a, v) # view) = (k, v) # view_fields view"
  by (simp_all add: view_fields_def)

record budget =
  bg_bytes :: nat
  bg_values :: nat
  bg_replacement_seen :: bool
  bg_in_selected :: bool

definition budget_new :: budget where
  "budget_new = \<lparr>bg_bytes = 0, bg_values = 0, bg_replacement_seen = False, bg_in_selected = False\<rparr>"

definition b_bytes :: "parse_limits \<Rightarrow> nat \<Rightarrow> budget \<Rightarrow> budget res" where
  "b_bytes L n b =
    (if n > max_bytes L - bg_bytes b then throwE ''JSON input exceeds byte budget''
     else Inr (b\<lparr>bg_bytes := bg_bytes b + n\<rparr>))"

definition b_count_value :: "parse_limits \<Rightarrow> nat \<Rightarrow> budget \<Rightarrow> budget res" where
  "b_count_value L depth b =
    (if depth > max_depth L then throwE ''JSON exceeds depth budget''
     else if bg_values b = max_values L then throwE ''JSON exceeds value budget''
     else Inr (b\<lparr>bg_values := Suc (bg_values b)\<rparr>))"

definition char_cost :: "char \<Rightarrow> nat" where
  "char_cost ch =
    (if ch \<in> {quote_ch, backslash_ch, CHR 0x08, CHR 0x0C, CHR 0x0A, CHR 0x0D, CHR 0x09} then 2
     else if byte ch < 0x20 then 6 else 1)"

fun b_chars :: "parse_limits \<Rightarrow> string \<Rightarrow> budget \<Rightarrow> budget res" where
  "b_chars L [] b = Inr b"
| "b_chars L (ch # cs) b = bindE (b_bytes L (char_cost ch) b) (b_chars L cs)"

definition b_string :: "parse_limits \<Rightarrow> string \<Rightarrow> budget \<Rightarrow> budget res" where
  "b_string L t b =
    (if length t > max_string_bytes L then throwE ''JSON string exceeds budget''
     else if \<not> valid_utf8 t then throwE ''JSON string is not valid UTF-8''
     else bindE (b_bytes L 2 b) (b_chars L t))"

function b_digits :: "64 word \<Rightarrow> nat" where
  "b_digits number = (if number \<ge> 10 then Suc (b_digits (number div 10)) else 1)"
  by pat_completeness auto
termination
proof (relation "measure unat", simp)
  fix number :: "64 word"
  assume "number \<ge> 10"
  then have "unat number > 0" by (simp add: word_le_nat_alt)
  then show "(number div 10, number) \<in> measure unat" by (simp add: unat_div)
qed

declare b_digits.simps [simp del]

definition b_child :: "parse_limits \<Rightarrow> nat \<Rightarrow> (budget \<Rightarrow> budget res) \<Rightarrow> budget \<Rightarrow> budget res" where
  "b_child L depth walk b =
    (if depth \<ge> max_depth L then throwE ''JSON exceeds depth budget'' else walk b)"

definition b_comma :: "parse_limits \<Rightarrow> bool \<Rightarrow> budget \<Rightarrow> budget res" where
  "b_comma L first b = (if first then Inr b else b_bytes L 1 b)"

definition b_member :: "parse_limits \<Rightarrow> string \<Rightarrow> nat \<Rightarrow> bool \<Rightarrow> (budget \<Rightarrow> budget res) \<Rightarrow> budget
    \<Rightarrow> (nat \<times> budget) res" where
  "b_member L key depth first walk b =
    bindE (b_comma L first b) (\<lambda>b1. bindE (b_string L key b1) (\<lambda>b2. bindE (b_bytes L 1 b2) (\<lambda>b3.
      bindE (b_child L depth walk b3) (\<lambda>b4. Inr (bg_bytes b4 - bg_bytes b3, b4)))))"

lemma b_child_cong [fundef_cong]:
  "(\<And>x. walk x = walk' x) \<Longrightarrow> b = b' \<Longrightarrow> b_child L depth walk b = b_child L depth walk' b'"
  by (simp add: b_child_def)

lemma b_member_cong [fundef_cong]:
  "(\<And>x. walk x = walk' x) \<Longrightarrow> b = b' \<Longrightarrow>
    b_member L key depth first walk b = b_member L key depth first walk' b'"
  by (simp add: b_member_def cong: b_child_cong)

function b_value :: "parse_limits \<Rightarrow> addr option \<Rightarrow> (nat \<Rightarrow> budget \<Rightarrow> budget res) \<Rightarrow> jvalue \<Rightarrow> addr
      \<Rightarrow> nat \<Rightarrow> budget \<Rightarrow> budget res"
  and b_items :: "parse_limits \<Rightarrow> addr option \<Rightarrow> (nat \<Rightarrow> budget \<Rightarrow> budget res) \<Rightarrow> jvalue list \<Rightarrow> addr
      \<Rightarrow> nat \<Rightarrow> nat \<Rightarrow> bool \<Rightarrow> budget \<Rightarrow> budget res"
  and b_members :: "parse_limits \<Rightarrow> addr option \<Rightarrow> (nat \<Rightarrow> budget \<Rightarrow> budget res) \<Rightarrow> (string \<times> jvalue) list
      \<Rightarrow> addr \<Rightarrow> nat \<Rightarrow> nat \<Rightarrow> bool \<Rightarrow> budget \<Rightarrow> budget res" where
  "b_value L replaced rep item a depth b =
    bindE (b_count_value L depth b) (\<lambda>b1. case item of
       JNull \<Rightarrow> b_bytes L 4 b1
     | JBool t \<Rightarrow> b_bytes L (if t then 4 else 5) b1
     | JUnsigned n \<Rightarrow> b_bytes L (b_digits n) b1
     | JString s \<Rightarrow> b_string L s b1
     | JArray items \<Rightarrow> bindE (b_bytes L 2 b1) (\<lambda>b2.
         if replaced = Some a then rep depth b2 else b_items L replaced rep items a 0 depth True b2)
     | JObject ms \<Rightarrow> bindE (b_bytes L 2 b1) (b_members L replaced rep ms a 0 depth True))"
| "b_items L replaced rep items a i depth first b = (case items of
       [] \<Rightarrow> Inr b
     | entry # rest \<Rightarrow> bindE (b_comma L first b) (\<lambda>b1.
         bindE (b_child L depth (b_value L replaced rep entry (fst a, snd a @ [i]) (Suc depth)) b1)
           (b_items L replaced rep rest a (Suc i) depth False)))"
| "b_members L replaced rep ms a i depth first b = (case ms of
       [] \<Rightarrow> Inr b
     | (key, item) # rest \<Rightarrow>
         bindE (b_member L key depth first
             (b_value L replaced rep item (fst a, snd a @ [i]) (Suc depth)) b)
           (\<lambda>(_, b1). b_members L replaced rep rest a (Suc i) depth False b1))"
  by pat_completeness auto
termination
  by (relation "measure (\<lambda>x. case x of
        Inl (L, r, f, item, a, d, b) \<Rightarrow> 2 * size item
      | Inr (Inl (L, r, f, items, a, i, d, first, b)) \<Rightarrow> 2 * size_list size items + 1
      | Inr (Inr (L, r, f, ms, a, i, d, first, b)) \<Rightarrow> 2 * size_list (size_prod (\<lambda>_. 0) size) ms + 1)") auto

declare b_value.simps [simp del] b_items.simps [simp del] b_members.simps [simp del]

section \<open>Entry points\<close>

fun b_view_members :: "parse_limits \<Rightarrow> addr option \<Rightarrow> (nat \<Rightarrow> budget \<Rightarrow> budget res) \<Rightarrow> object_view
    \<Rightarrow> nat \<Rightarrow> bool \<Rightarrow> budget \<Rightarrow> budget res" where
  "b_view_members L replaced rep [] depth first b = Inr b"
| "b_view_members L replaced rep ((key, a, item) # rest) depth first b =
    bindE (b_member L key depth first (b_value L replaced rep item a (Suc depth)) b)
      (\<lambda>(_, b1). b_view_members L replaced rep rest depth False b1)"

fun b_replacement_entries :: "parse_limits \<Rightarrow> addr option \<Rightarrow> object_view list \<Rightarrow> nat \<Rightarrow> bool \<Rightarrow> budget
    \<Rightarrow> budget res" where
  "b_replacement_entries L replaced [] depth first b = Inr b"
| "b_replacement_entries L replaced (view # rest) depth first b =
    bindE (b_comma L first b) (\<lambda>b1.
    if depth \<ge> max_depth L then throwE ''JSON exceeds depth budget''
    else bindE (b_count_value L (Suc depth) b1) (\<lambda>b2. bindE (b_bytes L 2 b2) (\<lambda>b3.
      bindE (b_view_members L replaced
          (\<lambda>_ _. throwE ''JSON array view has another occurrence or owner'') view (Suc depth) True b3)
        (b_replacement_entries L replaced rest depth False))))"

definition b_replace :: "parse_limits \<Rightarrow> addr option \<Rightarrow> object_view list \<Rightarrow> nat \<Rightarrow> budget \<Rightarrow> budget res" where
  "b_replace L replaced entries depth b =
    (if \<not> bg_in_selected b \<or> bg_replacement_seen b
     then throwE ''JSON array view has another occurrence or owner''
     else b_replacement_entries L replaced entries depth True (b\<lparr>bg_replacement_seen := True\<rparr>))"

text \<open>The field loop of \<^verbatim>\<open>object_member\<close>: bytes of the selected member, if it has come by.\<close>

fun b_fields :: "parse_limits \<Rightarrow> addr option \<Rightarrow> object_view list \<Rightarrow> string option \<Rightarrow> object_view
    \<Rightarrow> bool \<Rightarrow> nat option \<Rightarrow> budget \<Rightarrow> (nat option \<times> budget) res" where
  "b_fields L replaced entries selected [] first found b = Inr (found, b)"
| "b_fields L replaced entries selected ((key, a, item) # rest) first found b =
    bindE (b_member L key 0 first (b_value L replaced (b_replace L replaced entries) item a 1)
        (b\<lparr>bg_in_selected := (selected = Some key)\<rparr>))
      (\<lambda>(encoded, b1). b_fields L replaced entries selected rest False
        (if selected = Some key then Some encoded else found) (b1\<lparr>bg_in_selected := False\<rparr>))"

definition b_object_member :: "parse_limits \<Rightarrow> addr option \<Rightarrow> object_view list \<Rightarrow> object_view
    \<Rightarrow> string option \<Rightarrow> (nat \<times> budget) res" where
  "b_object_member L replaced entries view selected =
    bindE (b_count_value L 0 budget_new) (\<lambda>b1. bindE (b_bytes L 2 b1) (\<lambda>b2.
    bindE (b_fields L replaced entries selected view True None b2) (\<lambda>(found, b3).
      if selected \<noteq> None \<and> found = None then throwE ''JSON selected object member is absent''
      else if replaced \<noteq> None \<and> \<not> bg_replacement_seen b3
        then throwE ''JSON array view is outside its selected member''
      else Inr (case found of None \<Rightarrow> 0 | Some n \<Rightarrow> n, b3))))"

definition require_canonical_object_encoded_size :: "object_view \<Rightarrow> parse_limits \<Rightarrow> nat res" where
  "require_canonical_object_encoded_size view L =
    bindE (b_object_member L None [] view None) (\<lambda>(_, b). Inr (bg_bytes b))"

definition require_canonical_object_parse_limits :: "object_view \<Rightarrow> parse_limits \<Rightarrow> unit res" where
  "require_canonical_object_parse_limits view L =
    bindE (b_object_member L None [] view None) (\<lambda>_. Inr ())"

definition require_canonical_object_member_parse_limits ::
  "object_view \<Rightarrow> parse_limits \<Rightarrow> string \<Rightarrow> nat res" where
  "require_canonical_object_member_parse_limits view L selected =
    bindE (b_object_member L None [] view (Some selected)) (\<lambda>(n, _). Inr n)"

definition require_canonical_object_array_view_member_parse_limits ::
  "object_view \<Rightarrow> parse_limits \<Rightarrow> string \<Rightarrow> addr \<Rightarrow> jvalue \<Rightarrow> object_view list \<Rightarrow> nat res" where
  "require_canonical_object_array_view_member_parse_limits view L selected a array entries =
    bindE (as_array array) (\<lambda>items.
      if length items \<noteq> length entries
      then throwE ''JSON array view count differs from its original array''
      else bindE (b_object_member L (Some a) entries view (Some selected)) (\<lambda>(n, _). Inr n))"

section \<open>What the walker charges\<close>

definition charged :: "parse_limits \<Rightarrow> nat \<Rightarrow> nat \<Rightarrow> budget \<Rightarrow> bool" where
  "charged L m n b \<longleftrightarrow> bg_bytes b + m \<le> max_bytes L \<and> bg_values b + n \<le> max_values L"

definition charge :: "nat \<Rightarrow> nat \<Rightarrow> budget \<Rightarrow> budget" where
  "charge m n b = b\<lparr>bg_bytes := bg_bytes b + m, bg_values := bg_values b + n\<rparr>"

lemma charge_charge [simp]: "charge m n (charge m' n' b) = charge (m' + m) (n' + n) b"
  by (simp add: charge_def)

lemma charge_0 [simp]: "charge 0 0 b = b"
  by (simp add: charge_def)

lemma charged_charge [simp]: "charged L m n (charge m' n' b) \<longleftrightarrow> charged L (m' + m) (n' + n) b"
  by (simp add: charged_def charge_def add.assoc)

lemma charged_le: "charged L m n b \<Longrightarrow> m' \<le> m \<Longrightarrow> n' \<le> n \<Longrightarrow> charged L m' n' b"
  by (auto simp: charged_def)

text \<open>A walk that costs \<open>m\<close> bytes and \<open>n\<close> values, and refuses what violates \<open>ok\<close>.\<close>

definition costs :: "parse_limits \<Rightarrow> bool \<Rightarrow> nat \<Rightarrow> nat \<Rightarrow> (budget \<Rightarrow> budget res) \<Rightarrow> bool" where
  "costs L ok m n walk \<longleftrightarrow> (\<forall>b. charged L 0 0 b \<longrightarrow> decides (walk b) (ok \<and> charged L m n b) (charge m n b))"

named_theorems cost_intros \<open>costs of the steps of a walk\<close>

lemma costsD: "costs L ok m n walk \<Longrightarrow> charged L 0 0 b \<Longrightarrow> decides (walk b) (ok \<and> charged L m n b) (charge m n b)"
  by (simp add: costs_def)

lemma costs_cong: "costs L ok m n walk \<Longrightarrow> ok = ok' \<Longrightarrow> m = m' \<Longrightarrow> n = n' \<Longrightarrow> costs L ok' m' n' walk"
  by simp

lemma costs_Inr [cost_intros]: "costs L True 0 0 Inr"
  by (simp add: costs_def)

lemma costs_bindE [cost_intros]:
  assumes "costs L p m n f" "costs L q m' n' g"
  shows "costs L (p \<and> q) (m + m') (n + n') (\<lambda>b. bindE (f b) g)"
  unfolding costs_def
proof (intro allI impI)
  fix b
  assume b: "charged L 0 0 b"
  have "decides (bindE (f b) g)
      ((p \<and> charged L m n b) \<and> (q \<and> charged L m' n' (charge m n b))) (charge m' n' (charge m n b))"
    by (rule decides_bindE [OF costsD [OF assms(1) b]], rule costsD [OF assms(2)])
      (auto intro: charged_le)
  then show "decides (bindE (f b) g) ((p \<and> q) \<and> charged L (m + m') (n + n') b)
      (charge (m + m') (n + n') b)"
    by (rule decides_cong) (auto intro: charged_le)
qed

lemma costs_bytes [cost_intros]: "costs L True m 0 (b_bytes L m)"
  by (auto simp: costs_def b_bytes_def decides_def charged_def charge_def)

lemma costs_count_value [cost_intros]: "costs L (depth \<le> max_depth L) 0 1 (b_count_value L depth)"
  by (auto simp: costs_def b_count_value_def decides_def charged_def charge_def)

lemma length_escape_char: "length (escape_char c) = char_cost c"
  by (auto simp: escape_char_def escape_special_def char_cost_def)

lemma costs_chars [cost_intros]: "costs L True (length (escape_body s)) 0 (b_chars L s)"
proof (induction s)
  case Nil
  then show ?case using costs_Inr by (simp add: costs_def)
next
  case (Cons c s)
  show ?case
    using costs_bindE [OF costs_bytes Cons, of "char_cost c"] by (simp add: costs_def length_escape_char)
qed

lemma costs_string [cost_intros]: "costs L (string_ok L t) (2 + length (escape_body t)) 0 (b_string L t)"
  using costs_bindE [OF costs_bytes costs_chars, of L 2 t]
  by (auto simp: costs_def b_string_def string_ok_def)

lemma b_digits_dec: "b_digits n = length (dec (unat n))"
proof (induction n rule: b_digits.induct)
  case (1 n)
  have "n \<ge> 10 \<longleftrightarrow> unat n \<ge> 10" by (simp add: word_le_nat_alt)
  with 1 show ?case
    by (subst b_digits.simps) (auto simp: dec_small dec_big unat_div)
qed

lemma costs_child [cost_intros]:
  "costs L ok m n walk \<Longrightarrow> costs L (depth < max_depth L \<and> ok) m n (b_child L depth walk)"
  by (auto simp: costs_def b_child_def)

lemma costs_comma [cost_intros]: "costs L True (if first then 0 else 1) 0 (b_comma L first)"
  using costs_Inr costs_bytes [of L 1] by (auto simp: costs_def b_comma_def)

abbreviation key_cost :: "string \<Rightarrow> bool \<Rightarrow> nat" where
  "key_cost key first \<equiv> (if first then 0 else 1) + (2 + length (escape_body key) + 1)"

lemma b_member_decides:
  assumes walk: "costs L ok m n walk" and b: "charged L 0 0 b"
  shows "decides (b_member L key depth first walk b)
    ((string_ok L key \<and> depth < max_depth L \<and> ok) \<and> charged L (key_cost key first + m) n b)
    (m, charge (key_cost key first + m) n b)"
proof -
  let ?pre = "\<lambda>b. bindE (b_comma L first b) (\<lambda>b1. bindE (b_string L key b1) (b_bytes L 1))"
  have pre: "costs L (True \<and> string_ok L key \<and> True) (key_cost key first) (0 + (0 + 0)) ?pre"
    by (intro costs_bindE costs_comma costs_string costs_bytes)
  have eq: "b_member L key depth first walk b =
      bindE (?pre b) (\<lambda>b3. bindE (b_child L depth walk b3) (\<lambda>b4. Inr (bg_bytes b4 - bg_bytes b3, b4)))"
    by (simp add: b_member_def bindE_assoc)
  let ?b3 = "charge (key_cost key first) 0 b"
  have tail: "decides (bindE (b_child L depth walk ?b3) (\<lambda>b4. Inr (bg_bytes b4 - bg_bytes ?b3, b4)))
      (((depth < max_depth L \<and> ok) \<and> charged L m n ?b3) \<and> True) (m, charge m n ?b3)"
    if "charged L 0 0 ?b3"
    by (rule decides_bindE [OF costsD [OF costs_child [OF walk] that]]) (simp add: charge_def)
  have "decides (b_member L key depth first walk b)
     ((string_ok L key \<and> charged L (key_cost key first) 0 b) \<and>
      (((depth < max_depth L \<and> ok) \<and> charged L m n ?b3) \<and> True)) (m, charge m n ?b3)"
    unfolding eq by (rule decides_bindE) (use costsD [OF pre b] tail in \<open>simp_all add: charged_le\<close>)
  then show ?thesis by (rule decides_cong) (auto intro: charged_le)
qed

lemma costs_member:
  assumes "costs L ok m n walk" "costs L q m' n' g"
  shows "costs L ((string_ok L key \<and> depth < max_depth L \<and> ok) \<and> q) (key_cost key first + m + m') (n + n')
    (\<lambda>b. bindE (b_member L key depth first walk b) (\<lambda>(_, b1). g b1))"
  unfolding costs_def
proof (intro allI impI)
  fix b
  assume b: "charged L 0 0 b"
  let ?ok = "string_ok L key \<and> depth < max_depth L \<and> ok" and ?m = "key_cost key first + m"
  have "decides (bindE (b_member L key depth first walk b) (\<lambda>(_, b1). g b1))
      ((?ok \<and> charged L ?m n b) \<and> (q \<and> charged L m' n' (charge ?m n b))) (charge m' n' (charge ?m n b))"
    by (rule decides_bindE [OF b_member_decides [OF assms(1) b]])
      (simp only: case_prod_conv, rule costsD [OF assms(2)], auto intro: charged_le)
  then show "decides (bindE (b_member L key depth first walk b) (\<lambda>(_, b1). g b1))
      ((?ok \<and> q) \<and> charged L (?m + m') (n + n') b) (charge (?m + m') (n + n') b)"
    by (rule decides_cong) (auto intro: charged_le)
qed

text \<open>The bytes of a comma-separated list, with the comma in front of a list that continues one.\<close>

definition list_cost :: "string list \<Rightarrow> bool \<Rightarrow> nat" where
  "list_cost ts first = length (commas ts) + (if first \<or> ts = [] then 0 else 1)"

lemma list_cost_simps [simp]:
  "list_cost [] first = 0"
  "list_cost (t # ts) first = (if first then 0 else 1) + length t + list_cost ts False"
  by (simp_all add: list_cost_def commas_Cons)

lemma shape_ok_Suc: "depth < max_depth L \<and> shape_ok L (Suc depth) v \<longleftrightarrow> shape_ok L (Suc depth) v"
  using shape_ok_depth [of L "Suc depth" v] by auto

lemma length_member_canonical: "length (member_canonical p) = 3 + length (escape_body (fst p)) + length (canonical (snd p))"
  by (simp add: member_canonical_def)

lemma costs_items_step:
  assumes "\<And>v i. v \<in> set items \<Longrightarrow>
      costs L (shape_ok L (Suc depth) v) (length (canonical v)) (value_count v) (b_value L None rep v (fst a, snd a @ [i]) (Suc depth))"
  shows "costs L (list_all (shape_ok L (Suc depth)) items) (list_cost (map canonical items) first)
    (sum_list (map value_count items)) (b_items L None rep items a i depth first)"
  using assms
proof (induction items arbitrary: i first)
  case Nil
  then show ?case using costs_Inr by (simp add: costs_def b_items.simps)
next
  case (Cons v items)
  have eq: "b_items L None rep (v # items) a i depth first = (\<lambda>b. bindE (b_comma L first b) (\<lambda>b1.
      bindE (b_child L depth (b_value L None rep v (fst a, snd a @ [i]) (Suc depth)) b1)
        (b_items L None rep items a (Suc i) depth False)))"
    by (rule ext) (simp add: b_items.simps [of _ _ _ "v # items"])
  have "costs L (True \<and> (depth < max_depth L \<and> shape_ok L (Suc depth) v) \<and> list_all (shape_ok L (Suc depth)) items)
     ((if first then 0 else 1) + (length (canonical v) + list_cost (map canonical items) False))
     (0 + (value_count v + sum_list (map value_count items))) (b_items L None rep (v # items) a i depth first)"
    unfolding eq by (intro costs_bindE costs_comma costs_child Cons.prems Cons.IH) simp_all
  then show ?case by (rule costs_cong) (auto simp: shape_ok_Suc)
qed

lemma costs_members_step:
  assumes "\<And>k v i. (k, v) \<in> set ms \<Longrightarrow>
      costs L (shape_ok L (Suc depth) v) (length (canonical v)) (value_count v) (b_value L None rep v (fst a, snd a @ [i]) (Suc depth))"
  shows "costs L (list_all (\<lambda>(k, v). string_ok L k \<and> shape_ok L (Suc depth) v) ms)
    (list_cost (map member_canonical ms) first) (\<Sum>p\<leftarrow>ms. value_count (snd p)) (b_members L None rep ms a i depth first)"
  using assms
proof (induction ms arbitrary: i first)
  case Nil
  then show ?case using costs_Inr by (simp add: costs_def b_members.simps)
next
  case (Cons p ms)
  obtain k v where p: "p = (k, v)" by force
  have eq: "b_members L None rep (p # ms) a i depth first =
      (\<lambda>b. bindE (b_member L k depth first (b_value L None rep v (fst a, snd a @ [i]) (Suc depth)) b)
        (\<lambda>(_, b1). b_members L None rep ms a (Suc i) depth False b1))"
    by (rule ext) (simp add: p b_members.simps [of _ _ _ "(k, v) # ms"])
  have "costs L ((string_ok L k \<and> depth < max_depth L \<and> shape_ok L (Suc depth) v) \<and>
        list_all (\<lambda>(k, v). string_ok L k \<and> shape_ok L (Suc depth) v) ms)
      (key_cost k first + length (canonical v) + list_cost (map member_canonical ms) False)
      (value_count v + (\<Sum>p\<leftarrow>ms. value_count (snd p))) (b_members L None rep (p # ms) a i depth first)"
    unfolding eq by (rule costs_member [OF Cons.prems [of k] Cons.IH]) (auto simp: p intro: Cons.prems)
  then show ?case by (rule costs_cong) (auto simp: p shape_ok_Suc length_member_canonical)
qed

lemma costs_value:
  "costs L (shape_ok L depth item) (length (canonical item)) (value_count item) (b_value L None rep item a depth)"
proof (induction item arbitrary: a depth rule: wf_json_induct)
  case (JArray vs)
  have "costs L (depth \<le> max_depth L \<and> True \<and> list_all (shape_ok L (Suc depth)) vs)
      (0 + (2 + list_cost (map canonical vs) True)) (1 + (0 + sum_list (map value_count vs)))
      (\<lambda>b. bindE (b_count_value L depth b) (\<lambda>b1. bindE (b_bytes L 2 b1) (b_items L None rep vs a 0 depth True)))"
    by (intro costs_bindE cost_intros costs_items_step JArray)
  then show ?case
    by (simp add: b_value.simps [abs_def] canonical_simps list_cost_def)
next
  case (JObject ms)
  have "costs L (depth \<le> max_depth L \<and> True \<and> list_all (\<lambda>(k, v). string_ok L k \<and> shape_ok L (Suc depth) v) ms)
      (0 + (2 + list_cost (map member_canonical ms) True)) (1 + (0 + (\<Sum>p\<leftarrow>ms. value_count (snd p))))
      (\<lambda>b. bindE (b_count_value L depth b) (\<lambda>b1. bindE (b_bytes L 2 b1) (b_members L None rep ms a 0 depth True)))"
    by (intro costs_bindE cost_intros costs_members_step JObject)
  then show ?case
    by (simp add: b_value.simps [abs_def] canonical_simps list_cost_def)
next
  case (JString s)
  show ?case
    using costs_bindE [OF costs_count_value costs_string, of L depth s]
    by (simp add: b_value.simps [abs_def] canonical_simps)
next
  case (JUnsigned w)
  show ?case
    using costs_bindE [OF costs_count_value costs_bytes, of L depth "b_digits w"]
    by (simp add: b_value.simps [abs_def] canonical_simps b_digits_dec)
next
  case (JBool t)
  show ?case
    using costs_bindE [OF costs_count_value costs_bytes, of L depth "if t then 4 else 5"]
    by (cases t) (simp_all add: b_value.simps [abs_def] canonical_simps eval_nat_numeral)
next
  case JNull
  show ?case
    using costs_bindE [OF costs_count_value costs_bytes, of L depth 4]
    by (simp add: b_value.simps [abs_def] canonical_simps eval_nat_numeral)
qed

section \<open>Whole objects\<close>

text \<open>
  The flag for the selected member changes nothing without a replaced array; the walk over
  the fields of a view costs what the members of an object cost.
\<close>

lemma charge_in_selected: "charge m n b\<lparr>bg_in_selected := f\<rparr> = charge m n (b\<lparr>bg_in_selected := f\<rparr>)"
  by (simp add: charge_def)

lemma charged_in_selected [simp]: "charged L m n (b\<lparr>bg_in_selected := f\<rparr>) \<longleftrightarrow> charged L m n b"
  by (simp add: charged_def)

definition selected_bytes :: "string option \<Rightarrow> object_view \<Rightarrow> nat option \<Rightarrow> nat option" where
  "selected_bytes selected view found = fold (\<lambda>(k, _, v) found.
     if selected = Some k then Some (length (canonical v)) else found) view found"

lemma b_fields_decides:
  assumes "charged L 0 0 b" "\<not> bg_in_selected b"
  shows "decides (b_fields L None entries selected view first found b)
    (list_all (\<lambda>(k, v). string_ok L k \<and> shape_ok L 1 v) (view_fields view) \<and>
      charged L (list_cost (map member_canonical (view_fields view)) first)
        (\<Sum>p\<leftarrow>view_fields view. value_count (snd p)) b)
    (selected_bytes selected view found,
      charge (list_cost (map member_canonical (view_fields view)) first)
        (\<Sum>p\<leftarrow>view_fields view. value_count (snd p)) b)"
  using assms
proof (induction view arbitrary: first found b)
  case Nil
  then show ?case by (simp add: view_fields_def selected_bytes_def)
next
  case (Cons p view)
  obtain k a v where p: "p = (k, a, v)" by (cases p) auto
  let ?sel = "b\<lparr>bg_in_selected := (selected = Some k)\<rparr>"
  let ?m = "key_cost k first + length (canonical v)" and ?n = "value_count v"
  let ?walk = "b_value L None (b_replace L None entries) v a 1"
  have reset: "charge ?m ?n ?sel\<lparr>bg_in_selected := False\<rparr> = charge ?m ?n b"
    using Cons.prems(2) by (simp add: charge_def)
  have head: "decides (b_member L k 0 first ?walk ?sel)
      ((string_ok L k \<and> 0 < max_depth L \<and> shape_ok L 1 v) \<and> charged L ?m ?n ?sel)
      (length (canonical v), charge ?m ?n ?sel)"
    by (rule b_member_decides [OF costs_value]) (use Cons.prems in simp)
  let ?found = "if selected = Some k then Some (length (canonical v)) else found"
  have "decides (b_fields L None entries selected (p # view) first found b)
     (((string_ok L k \<and> 0 < max_depth L \<and> shape_ok L 1 v) \<and> charged L ?m ?n ?sel) \<and>
      (list_all (\<lambda>(k, v). string_ok L k \<and> shape_ok L 1 v) (view_fields view) \<and>
       charged L (list_cost (map member_canonical (view_fields view)) False)
        (\<Sum>p\<leftarrow>view_fields view. value_count (snd p)) (charge ?m ?n b)))
     (selected_bytes selected view ?found,
      charge (list_cost (map member_canonical (view_fields view)) False)
        (\<Sum>p\<leftarrow>view_fields view. value_count (snd p)) (charge ?m ?n b))"
    unfolding p b_fields.simps
    by (rule decides_bindE [OF head], simp only: case_prod_conv reset, rule Cons.IH)
      (use Cons.prems in \<open>auto simp: charge_def charged_def\<close>)
  then show ?case
    by (rule decides_cong)
      (use shape_ok_Suc [of 0 L v] in \<open>auto simp: p selected_bytes_def
        length_member_canonical eval_nat_numeral intro: charged_le\<close>)
qed

lemma selected_bytes_found:
  "selected_bytes selected view found = None \<longleftrightarrow>
    found = None \<and> (selected = None \<or> the selected \<notin> fst ` set view)"
proof (induction view arbitrary: found)
  case (Cons p view)
  obtain k a v where p: "p = (k, a, v)" by (cases p) auto
  show ?case
    using Cons.IH [of "if selected = Some k then Some (length (canonical v)) else found"]
    by (cases selected) (auto simp: selected_bytes_def p)
qed (auto simp: selected_bytes_def)

lemma length_canonical_object: "length (canonical_object m) = 2 + list_cost (map member_canonical m) True"
  by (simp add: canonical_object_eq canonical_simps list_cost_def)

lemma b_object_member_decides:
  assumes "selected = None \<or> the selected \<in> fst ` set view"
  defines "m \<equiv> view_fields view"
  shows "decides (b_object_member L None entries view selected)
    (length (canonical_object m) \<le> max_bytes L \<and> shape_ok L 0 (JObject m) \<and> value_count (JObject m) \<le> max_values L)
    (case selected_bytes selected view None of None \<Rightarrow> 0 | Some n \<Rightarrow> n,
      charge (length (canonical_object m)) (value_count (JObject m)) budget_new)"
proof -
  let ?pre = "\<lambda>b. bindE (b_count_value L 0 b) (b_bytes L 2)"
  let ?fin = "\<lambda>(found, b3). if selected \<noteq> None \<and> found = None then throwE ''JSON selected object member is absent''
      else if (None :: addr option) \<noteq> None \<and> \<not> bg_replacement_seen b3
        then throwE ''JSON array view is outside its selected member''
      else Inr (case found of None \<Rightarrow> 0 | Some n \<Rightarrow> n, b3)"
  let ?b2 = "charge 2 1 budget_new" and ?c = "list_cost (map member_canonical m) True"
    and ?n = "\<Sum>p\<leftarrow>m. value_count (snd p)"
  let ?ok = "list_all (\<lambda>(k, v). string_ok L k \<and> shape_ok L 1 v) m"
  have new: "charged L 0 0 budget_new" "\<not> bg_in_selected ?b2"
    by (simp_all add: charged_def charge_def budget_new_def)
  have found: "selected = None \<or> selected_bytes selected view None \<noteq> None"
    using assms(1) selected_bytes_found [of selected view None] by blast
  have pre: "decides (?pre budget_new) (charged L 2 1 budget_new) ?b2"
    using costsD [OF costs_bindE [OF costs_count_value [of L 0] costs_bytes [of L 2]] new(1)]
    by (simp add: numeral_2_eq_2)
  have body: "decides (bindE (b_fields L None entries selected view True None ?b2) ?fin)
      ((?ok \<and> charged L ?c ?n ?b2) \<and> True)
      (case selected_bytes selected view None of None \<Rightarrow> 0 | Some n \<Rightarrow> n, charge ?c ?n ?b2)"
    if "charged L 2 1 budget_new"
  proof -
    have "charged L 0 0 ?b2" using that by (simp add: charged_le)
    then show ?thesis
      unfolding m_def by (rule decides_bindE [OF b_fields_decides [OF _ new(2)]])
        (rule disjE [OF found]; cases "selected_bytes selected view None"; simp)
  qed
  have eq: "b_object_member L None entries view selected =
      bindE (?pre budget_new) (\<lambda>b2. bindE (b_fields L None entries selected view True None b2) ?fin)"
    unfolding b_object_member_def bindE_assoc ..
  have "decides (b_object_member L None entries view selected)
      (charged L 2 1 budget_new \<and> (?ok \<and> charged L ?c ?n ?b2) \<and> True)
      (case selected_bytes selected view None of None \<Rightarrow> 0 | Some n \<Rightarrow> n, charge ?c ?n ?b2)"
    unfolding eq
    by (rule decides_bindE [where f = "\<lambda>b2. bindE (b_fields L None entries selected view True None b2) ?fin",
        OF pre body])
  then show ?thesis
  proof (rule decides_cong)
    show "(charged L 2 1 budget_new \<and> (?ok \<and> charged L ?c ?n ?b2) \<and> True) \<longleftrightarrow>
        (length (canonical_object m) \<le> max_bytes L \<and> shape_ok L 0 (JObject m) \<and> value_count (JObject m) \<le> max_values L)"
      unfolding length_canonical_object charged_def charge_def budget_new_def by auto
  qed (simp add: length_canonical_object)
qed

lemma encoded_size_decides:
  fixes view defines "m \<equiv> view_fields view"
  shows "decides (require_canonical_object_encoded_size view L)
    (length (canonical_object m) \<le> max_bytes L \<and> shape_ok L 0 (JObject m) \<and> value_count (JObject m) \<le> max_values L)
    (length (canonical_object m))"
proof -
  have "decides (require_canonical_object_encoded_size view L)
    ((length (canonical_object m) \<le> max_bytes L \<and> shape_ok L 0 (JObject m) \<and> value_count (JObject m) \<le> max_values L) \<and> True)
    (length (canonical_object m))"
    unfolding require_canonical_object_encoded_size_def m_def
    by (rule decides_bindE [OF b_object_member_decides]) (simp_all add: charge_def budget_new_def)
  then show ?thesis by simp
qed

lemma parse_limits_accepts:
  "accepts (require_canonical_object_parse_limits view L) \<longleftrightarrow> accepts (require_canonical_object_encoded_size view L)"
  by (cases "b_object_member L None [] view None")
    (auto simp: require_canonical_object_parse_limits_def require_canonical_object_encoded_size_def)

end
