(* ===== verification/Usk_Json_Size.thy ===== *)
theory Usk_Json_Size
  imports Usk_Json_Budget
begin

text \<open>
  The canonical text is the shortest: what the parser consumed to read a value is at least as
  long as the canonical text of that value. It closes the round trip from text to text, since
  a canonical text can never exceed the byte limit its source respected.
\<close>

section \<open>Tokens\<close>

lemma length_dec_le: "n < 10 ^ k \<Longrightarrow> 0 < k \<Longrightarrow> length (dec n) \<le> k"
proof (induction n arbitrary: k rule: dec.induct)
  case (1 n)
  show ?case
  proof (cases "n < 10")
    case False
    then obtain k' where k: "k = Suc k'" "0 < k'" using "1.prems" by (cases k; cases "k - 1") auto
    then have "n div 10 < 10 ^ k'" using "1.prems" by (simp add: div_less_iff_less_mult mult.commute)
    with 1 False k show ?thesis by (simp add: dec_big)
  qed (use 1 in \<open>simp add: dec_small\<close>)
qed

lemma dec_from_less: "list_all isdigit ds \<Longrightarrow> v < 10 ^ k \<Longrightarrow> dec_from v ds < 10 ^ (k + length ds)"
proof (induction ds arbitrary: v k)
  case (Cons c ds)
  then have "v * 10 + digit_value c < 10 ^ Suc k" using isdigit_value [of c] by simp
  then have "dec_from (v * 10 + digit_value c) ds < 10 ^ (Suc k + length ds)"
    using Cons by (intro Cons.IH) auto
  then show ?case by simp
qed simp

lemma p_number_size:
  assumes "p_number (c # s) = Inr (w, r)" "isdigit c"
  shows "length (dec (unat w)) + length r \<le> length (c # s)"
proof -
  define ds where "ds = takeWhile isdigit (c # s)"
  define rest where "rest = dropWhile isdigit (c # s)"
  have split: "c # s = ds @ rest" by (simp add: ds_def rest_def)
  have ds: "list_all isdigit ds" by (auto simp: ds_def list_all_iff dest: set_takeWhileD)
  have rest: "rest = [] \<or> \<not> isdigit (hd rest)"
    unfolding rest_def using hd_dropWhile by blast
  have pos: "0 < length ds" using assms(2) by (simp add: ds_def)
  from assms(1) have "p_digits 0 (c # s) = Inr (w, r)"
    by (auto simp: p_number_def bindE_eq_Inr split: if_splits)
  then have w: "w = of_nat (dec_from 0 ds)" "dec_from 0 ds < 2 ^ 64" "r = rest"
    using p_digits_exact [OF ds rest, of 0] unfolding split by (auto split: if_splits)
  then have "unat w = dec_from 0 ds" by (simp add: unat_of_nat take_bit_nat_eq_self)
  moreover have "length (dec (dec_from 0 ds)) \<le> length ds"
    using dec_from_less [OF ds, of 0 0] pos by (intro length_dec_le) simp_all
  ultimately show ?thesis using w split by simp
qed

lemma escape_char_plain: "byte c \<ge> 0x80 \<Longrightarrow> length (escape_char c) = 1"
  by (auto simp: length_escape_char char_cost_def)

lemma escape_append_utf8: "u \<le> 0x10ffff \<Longrightarrow> length (escape_body (append_utf8 u)) \<le> 6"
proof -
  assume u: "u \<le> 0x10ffff"
  consider "u \<le> 0x7f" | "0x80 \<le> u" "u \<le> 0x7ff" | "0x800 \<le> u" "u \<le> 0xffff" | "0x10000 \<le> u"
    by linarith
  then show ?thesis
  proof cases
    case 1
    then show ?thesis by (simp add: append_utf8_eq length_escape_char char_cost_def)
  next
    case 2
    then have "u div 64 < 32" by auto
    with 2 show ?thesis by (simp add: append_utf8_eq escape_char_plain)
  next
    case 3
    then have "u div 4096 < 16" by auto
    with 3 show ?thesis by (simp add: append_utf8_eq escape_char_plain)
  next
    case 4
    then have "u div 262144 < 5" using u by auto
    with 4 u show ?thesis by (simp add: append_utf8_eq escape_char_plain)
  qed
qed

lemma simple_escape_cost:
  assumes "simple_escape e = Some c"
  shows "length (escape_char c) \<le> 2"
proof (cases "c \<in> {quote_ch, backslash_ch, CHR 0x08, CHR 0x0C, CHR 0x0A, CHR 0x0D, CHR 0x09}")
  case True
  then have "char_cost c = 2" unfolding char_cost_def by (rule if_P)
  then show ?thesis by (simp add: length_escape_char)
next
  case False
  with assms have "c = CHR ''/''" unfolding simple_escape_def by (simp split: if_splits)
  then show ?thesis by (simp add: length_escape_char char_cost_def)
qed

lemma hex_digit_bound:
  assumes "hex_digit c = Inr d"
  shows "d < 16"
proof -
  consider "byte c \<le> 57" "d = byte c - 48" | "byte c \<le> 102" "d = byte c - 97 + 10" | "byte c \<le> 70" "d = byte c - 65 + 10"
    using assms unfolding hex_digit_def less_eq_char_def by (simp split: if_splits)
  then show ?thesis by cases linarith+
qed

lemma hex_digits_bound: "hex_digits v cs = Inr u \<Longrightarrow> v < 16 ^ k \<Longrightarrow> u < 16 ^ (k + length cs)"
proof (induction cs arbitrary: v k)
  case (Cons c cs)
  then obtain d where d: "hex_digit c = Inr d" "hex_digits (v * 16 + d) cs = Inr u" by (auto simp: bindE_eq_Inr)
  then have "v * 16 + d < 16 ^ Suc k" using hex_digit_bound [OF d(1)] Cons.prems by simp
  from Cons.IH [OF d(2) this] show ?case by simp
qed simp

lemma unicode_escape_bound: "unicode_escape s = Inr (u, r) \<Longrightarrow> u < 65536 \<and> length r + 4 = length s"
  by (auto simp: unicode_escape_def bindE_eq_Inr split: if_splits dest!: hex_digits_bound [where k = 0])

lemma unicode_char_bound: "unicode_char s = Inr (u, r) \<Longrightarrow> u \<le> 0x10ffff \<and> length r + 4 \<le> length s"
  by (auto simp: unicode_char_def bindE_eq_Inr split: if_splits dest!: unicode_escape_bound)

lemma escape_body_append [simp]: "escape_body (s @ t) = escape_body s @ escape_body t"
  by (simp add: escape_body_def)

lemma p_string_size:
  "p_string L acc s = Inr (t, r) \<Longrightarrow>
    length (escape_body t) + length r < length (escape_body acc) + length s"
proof (induction rule: p_string_Inr_induct)
  case (plain acc ch s)
  then show ?case by (simp add: escape_char_def)
next
  case (simple acc e c s)
  then show ?case using simple_escape_cost [of e c] by simp
next
  case (unicode acc s u s')
  then show ?case using unicode_char_bound [of s u s'] escape_append_utf8 [of u] by simp
qed simp

section \<open>Values\<close>

definition value_size :: "string \<Rightarrow> (jvalue \<times> string \<times> nat) res \<Rightarrow> bool" where
  "value_size s res \<longleftrightarrow> (\<forall>v r m. res = Inr (v, r, m) \<longrightarrow> length (canonical v) + length r \<le> length s)"

definition elements_size :: "jvalue list \<Rightarrow> string \<Rightarrow> (jvalue \<times> string \<times> nat) res \<Rightarrow> bool" where
  "elements_size vs s res \<longleftrightarrow> (\<forall>v r m. res = Inr (v, r, m) \<longrightarrow>
     (\<exists>ws. v = JArray ws \<and> ws \<noteq> [] \<and> (\<Sum>v\<leftarrow>ws. length (canonical v) + 1) + length r \<le>
       (\<Sum>v\<leftarrow>vs. length (canonical v) + 1) + length s))"

abbreviation members_bytes :: "(string \<times> jvalue) list \<Rightarrow> nat" where
  "members_bytes ms \<equiv> (\<Sum>p\<leftarrow>ms. length (member_canonical p) + 1)"

definition members_size :: "(string \<times> jvalue) list \<Rightarrow> string \<Rightarrow> (jvalue \<times> string \<times> nat) res \<Rightarrow> bool" where
  "members_size ms s res \<longleftrightarrow> (\<forall>v r m. sorted_keys ms \<longrightarrow> res = Inr (v, r, m) \<longrightarrow>
     (\<exists>ws. v = JObject ws \<and> ws \<noteq> [] \<and> members_bytes ws + length r \<le> members_bytes ms + length s))"

lemma length_commas: "length (commas ts) \<le> (\<Sum>t\<leftarrow>ts. length t + 1)"
  "ts \<noteq> [] \<Longrightarrow> Suc (length (commas ts)) = (\<Sum>t\<leftarrow>ts. length t + 1)"
proof (induction ts)
  case (Cons t ts)
  { case 1 then show ?case using Cons by (cases ts) (auto simp: commas_Cons) }
  { case 2 then show ?case using Cons by (cases ts) (auto simp: commas_Cons) }
qed simp_all

lemma require_consume:
  "require_ch c s = Inr r \<Longrightarrow> Suc (length r) \<le> length s"
  using require_length [of c s r] by simp

lemma skip_consume: "consume c (skip_space s) = Some r \<Longrightarrow> Suc (length r) \<le> length s"
  using consume_length [of c "skip_space s" r] length_skip_space [of s] by simp

lemma length_canonical_array: "length (canonical (JArray ws)) \<le> 2 + (\<Sum>v\<leftarrow>ws. length (canonical v) + 1)"
  "ws \<noteq> [] \<Longrightarrow> length (canonical (JArray ws)) = 1 + (\<Sum>v\<leftarrow>ws. length (canonical v) + 1)"
  using length_commas [of "map canonical ws"] by (auto simp: canonical_simps o_def)

lemma length_canonical_object_members: "ws \<noteq> [] \<Longrightarrow> length (canonical (JObject ws)) = 1 + members_bytes ws"
  using length_commas(2) [of "map member_canonical ws"] by (auto simp: canonical_simps o_def)

lemma p_literal_size: "p_literal token s = Inr r \<Longrightarrow> length token + length r = length s"
  using append_take_drop_id [of "length token" s]
  by (auto simp: p_literal_def split: if_splits dest!: arg_cong [where f = length])

lemma p_value_size_step:
  assumes arr: "\<And>s'. depth \<le> max_depth L \<Longrightarrow> Suc n \<le> max_values L \<Longrightarrow> skip_space s = CHR ''['' # s' \<Longrightarrow>
      consume (CHR '']'') (skip_space s') = None \<Longrightarrow>
      elements_size [] (skip_space s') (p_elements L (Suc depth) [] (skip_space s') (Suc n))"
    and obj: "\<And>s'. depth \<le> max_depth L \<Longrightarrow> Suc n \<le> max_values L \<Longrightarrow> skip_space s = CHR ''{'' # s' \<Longrightarrow>
      consume (CHR ''}'') (skip_space s') = None \<Longrightarrow>
      members_size [] (skip_space s') (p_members L (Suc depth) [] (skip_space s') (Suc n))"
  shows "value_size s (p_value L depth s n)"
  unfolding value_size_def
proof (intro allI impI)
  fix v r m
  assume *: "p_value L depth s n = Inr (v, r, m)"
  obtain ch s' where g: "depth \<le> max_depth L" "Suc n \<le> max_values L" and s': "skip_space s = ch # s'"
    using * by (rule p_value_InrE)
  note eq = * [unfolded p_value_token [OF g s']]
  have len: "length (ch # s') \<le> length s" "length (skip_space s') \<le> length s'"
    using length_skip_space [of s] length_skip_space [of s'] s' by simp_all
  have "length (canonical v) + length r \<le> length (ch # s')"
  proof -
    consider "ch = CHR ''[''" | "ch = CHR ''{''" | "ch \<noteq> CHR ''[''" "ch \<noteq> CHR ''{''" by blast
    then show ?thesis
    proof cases
      case 1
      show ?thesis
      proof (cases "consume (CHR '']'') (skip_space s')")
        case None
        with eq 1 have "p_elements L (Suc depth) [] (skip_space s') (Suc n) = Inr (v, r, m)" by simp
        with arr [OF g _ None] s' 1 len length_canonical_array(2) show ?thesis
          by (fastforce simp: elements_size_def)
      next
        case (Some q)
        with eq 1 skip_consume [OF Some] show ?thesis by (auto simp: canonical_simps)
      qed
    next
      case 2
      show ?thesis
      proof (cases "consume (CHR ''}'') (skip_space s')")
        case None
        with eq 2 have "p_members L (Suc depth) [] (skip_space s') (Suc n) = Inr (v, r, m)" by simp
        with obj [OF g _ None] s' 2 len length_canonical_object_members show ?thesis
          by (fastforce simp: members_size_def)
      next
        case (Some q)
        with eq 2 skip_consume [OF Some] show ?thesis by (auto simp: canonical_simps)
      qed
    next
      case 3
      then show ?thesis
        using eq p_string_size [of L "[]" s'] p_number_size [of ch s']
        by (auto simp: bindE_eq_Inr canonical_simps dest!: p_literal_size split: if_splits)
    qed
  qed
  with len show "length (canonical v) + length r \<le> length s" by simp
qed

lemma p_elements_size_step:
  assumes "value_size s (p_value L depth s n)"
    and "\<And>v s1 n1 s2. p_value L depth s n = Inr (v, s1, n1) \<Longrightarrow>
      require_ch (CHR '','') (skip_space s1) = Inr s2 \<Longrightarrow>
      consume (CHR '']'') (skip_space s1) = None \<Longrightarrow>
      elements_size (vs @ [v]) s2 (p_elements L depth (vs @ [v]) s2 n1)"
  shows "elements_size vs s (p_elements L depth vs s n)"
  unfolding elements_size_def
proof (intro allI impI)
  fix w r m
  assume "p_elements L depth vs s n = Inr (w, r, m)"
  then obtain v s1 n1 where v: "p_value L depth s n = Inr (v, s1, n1)"
    and rest: "(case consume (CHR '']'') (skip_space s1) of
         Some r \<Rightarrow> Inr (JArray (vs @ [v]), r, n1)
       | None \<Rightarrow> bindE (require_ch (CHR '','') (skip_space s1))
           (\<lambda>s2. p_elements L depth (vs @ [v]) s2 n1)) = Inr (w, r, m)"
    by (subst (asm) p_elements.simps) (auto simp: bindE_eq_Inr)
  have size: "length (canonical v) + length s1 \<le> length s" using assms(1) v by (auto simp: value_size_def)
  show "\<exists>ws. w = JArray ws \<and> ws \<noteq> [] \<and> (\<Sum>v\<leftarrow>ws. length (canonical v) + 1) + length r \<le>
       (\<Sum>v\<leftarrow>vs. length (canonical v) + 1) + length s"
  proof (cases "consume (CHR '']'') (skip_space s1)")
    case None
    with rest obtain s2 where s2: "require_ch (CHR '','') (skip_space s1) = Inr s2"
      "p_elements L depth (vs @ [v]) s2 n1 = Inr (w, r, m)" by (auto simp: bindE_eq_Inr)
    have "Suc (length s2) \<le> length s1"
      using require_consume [OF s2(1)] length_skip_space [of s1] by simp
    with assms(2) [OF v s2(1) None] s2(2) size show ?thesis by (fastforce simp: elements_size_def)
  next
    case (Some q)
    with rest size skip_consume [OF Some] show ?thesis by (intro exI [of _ "vs @ [v]"]) auto
  qed
qed

lemma obj_emplace_bytes:
  assumes "sorted_keys ms" "obj_emplace k v ms = (ms', True)"
  shows "sorted_keys ms'" "ms' \<noteq> []" "members_bytes ms' = length (member_canonical (k, v)) + 1 + members_bytes ms"
proof -
  have k: "k \<notin> fst ` set ms" using obj_emplace_inserted [OF assms(1), of k v] assms(2) by simp
  have m: "mset ms' = add_mset (k, v) (mset ms)" using obj_emplace_mset [OF assms(1) k, of v] assms(2) by simp
  then show "ms' \<noteq> []" by auto
  show "sorted_keys ms'" using obj_emplace_sorted [OF assms(1), of k v] assms(2) by simp
  show "members_bytes ms' = length (member_canonical (k, v)) + 1 + members_bytes ms"
    using arg_cong [OF m, of "\<lambda>M. sum_mset (image_mset (\<lambda>p. length (member_canonical p) + 1) M)"]
    by (simp add: sum_mset_sum_list flip: mset_map)
qed

lemma p_members_size_step:
  assumes "\<And>s1 key s2 s3. skip_space s = quote_ch # s1 \<Longrightarrow> p_string L [] s1 = Inr (key, s2) \<Longrightarrow>
      require_ch (CHR '':'') (skip_space s2) = Inr s3 \<Longrightarrow> value_size s3 (p_value L depth s3 n)"
    and "\<And>s1 key s2 s3 v s4 n1 ms' s5. skip_space s = quote_ch # s1 \<Longrightarrow> p_string L [] s1 = Inr (key, s2) \<Longrightarrow>
      require_ch (CHR '':'') (skip_space s2) = Inr s3 \<Longrightarrow> p_value L depth s3 n = Inr (v, s4, n1) \<Longrightarrow>
      obj_emplace key v ms = (ms', True) \<Longrightarrow> consume (CHR ''}'') (skip_space s4) = None \<Longrightarrow>
      require_ch (CHR '','') (skip_space s4) = Inr s5 \<Longrightarrow>
      members_size ms' s5 (p_members L depth ms' s5 n1)"
  shows "members_size ms s (p_members L depth ms s n)"
  unfolding members_size_def
proof (intro allI impI)
  fix w r m
  assume ms: "sorted_keys ms" and "p_members L depth ms s n = Inr (w, r, m)"
  from this(2) obtain s1 key s2 s3 v s4 n1 ms' where
    k: "skip_space s = quote_ch # s1" "p_string L [] s1 = Inr (key, s2)"
      "require_ch (CHR '':'') (skip_space s2) = Inr s3" and v: "p_value L depth s3 n = Inr (v, s4, n1)"
    and e: "obj_emplace key v ms = (ms', True)"
    and rest: "(case consume (CHR ''}'') (skip_space s4) of
        Some r \<Rightarrow> Inr (JObject ms', r, n1)
      | None \<Rightarrow> bindE (require_ch (CHR '','') (skip_space s4))
          (\<lambda>s5. p_members L depth ms' s5 n1)) = Inr (w, r, m)"
    by (rule p_members_InrE)
  note ms' = obj_emplace_bytes [OF ms e]
  have "length (escape_body key) + length s2 < length s1" "length (quote_ch # s1) \<le> length s"
    "Suc (length s3) \<le> length s2" "length (canonical v) + length s4 \<le> length s3"
    using p_string_size [OF k(2)] length_skip_space [of s] k(1) require_consume [OF k(3)]
      length_skip_space [of s2] assms(1) [OF k] v by (auto simp: value_size_def)
  then have size: "length (member_canonical (key, v)) + length s4 \<le> length s"
    by (simp add: length_member_canonical)
  show "\<exists>ws. w = JObject ws \<and> ws \<noteq> [] \<and> members_bytes ws + length r \<le> members_bytes ms + length s"
  proof (cases "consume (CHR ''}'') (skip_space s4)")
    case None
    with rest obtain s5 where s5: "require_ch (CHR '','') (skip_space s4) = Inr s5"
      "p_members L depth ms' s5 n1 = Inr (w, r, m)" by (auto simp: bindE_eq_Inr)
    have "Suc (length s5) \<le> length s4"
      using require_consume [OF s5(1)] length_skip_space [of s4] by simp
    with assms(2) [OF k v e None s5(1)] s5(2) ms' size show ?thesis by (fastforce simp: members_size_def)
  next
    case (Some q)
    with rest size ms' skip_consume [OF Some] show ?thesis by (intro exI [of _ ms']) auto
  qed
qed

lemma p_size:
  "value_size s (p_value L depth s n)"
  "elements_size vs s (p_elements L depth vs s n)"
  "members_size ms s (p_members L depth ms s n)"
proof (induction L depth s n and L depth vs s n and L depth ms s n
    rule: p_value_p_elements_p_members.induct)
  case (1 L depth s n)
  show ?case by (rule p_value_size_step) (rule "1.IH"; simp)+
next
  case (2 L depth vs s n)
  show ?case
  proof (rule p_elements_size_step [OF "2.IH"(1)])
    fix v s1 n1 s2
    assume "p_value L depth s n = Inr (v, s1, n1)" "require_ch (CHR '','') (skip_space s1) = Inr s2"
      "consume (CHR '']'') (skip_space s1) = None"
    then show "elements_size (vs @ [v]) s2 (p_elements L depth (vs @ [v]) s2 n1)"
      using "2.IH"(2) by blast
  qed
next
  case (3 L depth ms s n)
  show ?case
  proof (rule p_members_size_step)
    fix s1 key s2 s3
    assume k: "skip_space s = quote_ch # s1" "p_string L [] s1 = Inr (key, s2)"
      "require_ch (CHR '':'') (skip_space s2) = Inr s3"
    show "value_size s3 (p_value L depth s3 n)"
      by (rule "3.IH"(1) [OF k(1) _ k(2) refl k(3)]) simp
    fix v s4 n1 ms' s5
    assume v: "p_value L depth s3 n = Inr (v, s4, n1)" and e: "obj_emplace key v ms = (ms', True)"
      and c: "consume (CHR ''}'') (skip_space s4) = None" "require_ch (CHR '','') (skip_space s4) = Inr s5"
    show "members_size ms' s5 (p_members L depth ms' s5 n1)"
      by (rule "3.IH"(2) [OF k(1) _ k(2) refl k(3) v refl refl e [symmetric] _ c]) simp_all
  qed
qed

lemma parse_size:
  assumes "parse t L = Inr v"
  shows "length (canonical v) \<le> length t"
proof -
  from assms obtain rest m where "p_value L 0 (skip_space t) 0 = Inr (v, rest, m)"
    by (auto simp: parse_def bindE_eq_Inr split: if_splits)
  with p_size(1) [of "skip_space t" L 0 0] length_skip_space [of t] show ?thesis
    by (fastforce simp: value_size_def)
qed

end
