(* ===== verification/Usk_Base_Properties.thy ===== *)
theory Usk_Base_Properties
  imports Usk_Json_Size
begin

text \<open>
  The properties of the base layer (\<^verbatim>\<open>runtime/base\<close>): the digest stream, UTF-8 validation, the
  JSON parser with its budgets, the canonical encoder, structural equality, the digest sink
  and the budget walker.
\<close>

section \<open>Digests\<close>

text \<open>
  C30. However a message is cut into pieces, feeding the pieces to a fresh SHA-256 object and
  finishing it succeeds and gives the digest of the concatenated message: pad with 0x80,
  zeros and the 64-bit big-endian bit length, compress block by block, print in lower-case hex.
\<close>

theorem sha_stream_digest:
  "\<exists>s'. bindE (feed_all sha_update sha_new ds) sha_finish = Inr (sha256_spec (concat ds), s')"
  by (rule sha.feed_all_close)

text \<open>
  C40. A SHA-256 object is finished at most once: after a finish that returned a digest, a second
  finish and every further update throw and return no digest.
\<close>

theorem sha_finish_once:
  assumes "sha_finish s = Inr (h, s')"
  shows "\<not> accepts (sha_finish s') \<and> \<not> accepts (sha_update s' d)"
  using sha_finish_finished [OF assms] by (simp add: sha_finish_def sha_update_def)

theorem sha_finish_once_witness:
  "\<exists>h s'. sha_finish sha_new = Inr (h, s') \<and> \<not> accepts (sha_finish s') \<and> \<not> accepts (sha_update s' ''x'')"
  using sha.close_digest [OF sha.holds_fresh] sha_finish_once [of sha_new _ _ "''x''"] by blast

section \<open>UTF-8\<close>

text \<open>
  C33. \<open>valid_utf8\<close> accepts exactly the concatenations of the UTF-8 encodings of Unicode scalar
  values: no overlong form, no surrogate, nothing above U+10FFFF, no truncated sequence.
\<close>

theorem valid_utf8_iff:
  "valid_utf8 s \<longleftrightarrow> (\<exists>cps. list_all unicode_scalar cps \<and> s = concat (map append_utf8 cps))"
  using valid_utf8_encoded valid_utf8_decodes by blast

section \<open>JSON\<close>

text \<open>
  C26. The parser accepts the canonical text of a well-formed value exactly when the text, the
  nesting, the number of values and every string are within the limits and every string is
  UTF-8; it then returns that value and no other.
\<close>

theorem parse_canonical:
  assumes "wf_json v"
  shows "parse (canonical v) L = Inr w \<longleftrightarrow>
    w = v \<and> length (canonical v) \<le> max_bytes L \<and> shape_ok L 0 v \<and> value_count v \<le> max_values L"
  using parse_decides [OF json_text_canonical [OF assms], of L]
  by (auto simp: decides_def split: if_splits)

theorem parse_canonical_witness:
  "parse (canonical (JObject [(''a'', JArray [JUnsigned 7, JNull]), (''b'', JString ''x'')])) default_limits =
    Inr (JObject [(''a'', JArray [JUnsigned 7, JNull]), (''b'', JString ''x'')])"
  by (subst parse_canonical)
    (simp_all add: sorted_keys_def default_limits_def string_ok_def canonical_simps member_canonical_def
      escape_char_def dec_small valid_utf8_ascii)

text \<open>
  C28. Whatever text the parser accepts, its result is well formed (object keys strictly
  increasing, so without duplicates), and the text, the nesting, the number of values and the
  strings respect the limits.
\<close>

theorem parse_within_limits:
  assumes "parse t L = Inr v"
  shows "length t \<le> max_bytes L \<and> wf_json v \<and> shape_ok L 0 v \<and> value_count v \<le> max_values L"
  using parse_sound [OF assms] by blast

theorem parse_within_limits_witness:
  "parse (canonical (JArray [JNull])) default_limits = Inr (JArray [JNull]) \<and> wf_json (JArray [JNull])"
proof -
  have "decides (parse (canonical (JArray [JNull])) default_limits) True (JArray [JNull])"
    using parse_decides [OF json_text_canonical, of "JArray [JNull]" default_limits]
    by (simp add: default_limits_def canonical_simps)
  then have "parse (canonical (JArray [JNull])) default_limits = Inr (JArray [JNull])"
    by (simp add: decides_def)
  with parse_within_limits [OF this] show ?thesis by blast
qed

text \<open>
  C27. Reading and writing back is stable: the canonical text of whatever the parser returned is no
  longer than the text it read, and the parser accepts it under the same limits with the same
  value.
\<close>

theorem parse_canonical_stable:
  assumes "parse t L = Inr v"
  shows "length (canonical v) \<le> length t \<and> parse (canonical v) L = Inr v"
  using parse_sound [OF assms] parse_size [OF assms] parse_decides [OF json_text_canonical, of v L]
  by (simp add: decides_def)

theorem parse_canonical_stable_witness:
  "parse (canonical (JArray [JBool True])) default_limits = Inr (JArray [JBool True])"
proof -
  have "decides (parse (canonical (JArray [JBool True])) default_limits) True (JArray [JBool True])"
    using parse_decides [OF json_text_canonical, of "JArray [JBool True]" default_limits]
    by (simp add: default_limits_def canonical_simps)
  then have "parse (canonical (JArray [JBool True])) default_limits = Inr (JArray [JBool True])"
    by (simp add: decides_def)
  from parse_canonical_stable [OF this] show ?thesis by blast
qed

text \<open>
  C34. Integers are read exactly: a decimal numeral without a leading zero gives its value when
  the value is below 2^64 and the overflow error otherwise; the check in front of the
  multiplication never lets a value wrap around.
\<close>

theorem number_exact:
  assumes "list_all isdigit ds" "ds \<noteq> []" "hd ds \<noteq> CHR ''0'' \<or> length ds = 1"
  shows "p_number ds = (if dec_read ds < 2 ^ 64 then Inr (of_nat (dec_read ds), [])
    else throwE ''JSON integer overflows uint64'')"
proof -
  have "dec_from 0 ds = dec_read ds" by (simp add: dec_from_def dec_read_def)
  then have "p_digits 0 ds = (if dec_read ds < 2 ^ 64 then Inr (of_nat (dec_read ds), [])
      else throwE ''JSON integer overflows uint64'')"
    using p_digits_exact [OF assms(1), of "[]" 0] by simp
  moreover have "\<not> (take 1 ds = ''0'' \<and> drop 1 ds \<noteq> [] \<and> isdigit (hd (drop 1 ds)))"
    using assms(2,3) by (cases ds) auto
  ultimately show ?thesis by (auto simp: p_number_def)
qed

theorem number_exact_witness:
  "p_number ''18446744073709551615'' = Inr (18446744073709551615, []) \<and>
   p_number ''18446744073709551616'' = throwE ''JSON integer overflows uint64''"
  using number_exact [of "''18446744073709551615''"] number_exact [of "''18446744073709551616''"]
  by (simp add: isdigit_def dec_read_def digit_value_def)

text \<open>
  C32. \<open>equal_values\<close> decides equality of canonical texts (hence of the digests taken over them)
  without encoding either value.
\<close>

theorem equal_values_canonical: "equal_values v w \<longleftrightarrow> canonical v = canonical w"
  by (simp add: equal_values_eq canonical_inj)

text \<open>
  C31. The digest computed through the 4096-byte buffer of \<open>CanonicalDigest\<close> is the digest of the
  canonical text, for every value and whatever the sizes of the single writes.
\<close>

theorem sha256_canonical_is_digest_of_text: "sha256_canonical v = sha256_hex (canonical v)"
  by (simp add: sha256_canonical_spec sha256_hex_spec)

text \<open>
  C29. The budget walker accepts an object view exactly when the parser would accept its canonical
  text under the same limits, and the size it reports is the length of that text, although the
  text is never built.
\<close>

theorem budget_agrees_with_parser:
  assumes "wf_json (JObject (view_fields view))"
  shows "(case require_canonical_object_encoded_size view L of
      Inl _ \<Rightarrow> \<not> accepts (parse (canonical_object (view_fields view)) L)
    | Inr n \<Rightarrow> n = length (canonical_object (view_fields view)) \<and>
        parse (canonical_object (view_fields view)) L = Inr (JObject (view_fields view))) \<and>
    (accepts (require_canonical_object_parse_limits view L) \<longleftrightarrow>
      accepts (parse (canonical_object (view_fields view)) L))"
proof -
  note jt = json_text_canonical [OF assms, folded canonical_object_eq]
  show ?thesis
    using encoded_size_decides [of view L] parse_decides [OF jt, of L]
    unfolding parse_limits_accepts decides_def by (auto split: if_splits sum.splits)
qed

theorem budget_agrees_with_parser_witness:
  "wf_json (JObject (view_fields [(''k'', (0, []), JNull)])) \<and>
   accepts (require_canonical_object_parse_limits [(''k'', (0, []), JNull)] default_limits) =
   accepts (parse (canonical_object [(''k'', JNull)]) default_limits)"
  using budget_agrees_with_parser [of "[(''k'', (0, []), JNull)]" default_limits]
  by (simp add: sorted_keys_Cons)

end
