(* ===== verification/Usk_Path.thy ===== *)
theory Usk_Path
  imports Usk_Prelude "HOL-Library.Sublist"
begin

text \<open>
  The part of \<^verbatim>\<open>std::filesystem::path\<close> (POSIX) that the sources use. A path is its root flag and
  the elements its iterator yields after the root directory; a trailing separator is a last
  element that is empty. \<open>path_of\<close> reads the native string; \<open>path_string\<close> writes it back with
  single separators, which is exact for every path the sources print or hash, since those are
  normalised first.
\<close>

section \<open>Decomposition\<close>

datatype path = Path (is_absolute: bool) (elements: "string list")

abbreviation slash :: char where "slash \<equiv> CHR ''/''"

fun split_slash :: "string \<Rightarrow> string \<Rightarrow> string list" where
  "split_slash acc [] = [acc]"
| "split_slash acc (c # cs) = (if c = slash then acc # split_slash [] cs else split_slash (acc @ [c]) cs)"

definition path_of :: "string \<Rightarrow> path" where
  "path_of s = (let parts = split_slash [] s; names = filter (\<lambda>p. p \<noteq> []) parts in
     Path (s \<noteq> [] \<and> hd s = slash)
       (if names \<noteq> [] \<and> last s = slash then names @ [[]] else names))"

fun join_slash :: "string list \<Rightarrow> string" where
  "join_slash [] = []"
| "join_slash [p] = p"
| "join_slash (p # ps) = p @ slash # join_slash ps"

definition path_string :: "path \<Rightarrow> string" where
  "path_string p = (if is_absolute p then [slash] else []) @ join_slash (elements p)"

definition path_empty :: "path \<Rightarrow> bool" where
  "path_empty p \<longleftrightarrow> \<not> is_absolute p \<and> elements p = []"

definition strip_trailing :: "string list \<Rightarrow> string list" where
  "strip_trailing ps = (if ps \<noteq> [] \<and> last ps = [] then butlast ps else ps)"

definition path_append :: "path \<Rightarrow> path \<Rightarrow> path" where
  "path_append p q =
    (if is_absolute q then q
     else if path_empty q then
       (if elements p = [] \<or> last (elements p) = [] then p else Path (is_absolute p) (elements p @ [[]]))
     else Path (is_absolute p) (strip_trailing (elements p) @ elements q))"

text \<open>An element of a path as a path of its own.\<close>

definition element_path :: "string \<Rightarrow> path" where
  "element_path c = Path False (if c = [] then [] else [c])"

definition parent_path :: "path \<Rightarrow> path" where
  "parent_path p = Path (is_absolute p) (butlast (elements p))"

definition filename :: "path \<Rightarrow> string" where
  "filename p = (if elements p = [] then [] else last (elements p))"

section \<open>Normalisation\<close>

text \<open>
  One pass over the elements with the stack of names kept so far (last name first) and a flag
  for a separator at the end.
\<close>

fun normal_loop :: "bool \<Rightarrow> string list \<Rightarrow> bool \<Rightarrow> string list \<Rightarrow> string list \<times> bool" where
  "normal_loop rooted stack trailing [] = (stack, trailing)"
| "normal_loop rooted stack trailing (p # ps) =
    (if p = ''..'' then
       (case stack of
          [] \<Rightarrow> if rooted then normal_loop rooted [] False ps else normal_loop rooted [p] False ps
        | up # below \<Rightarrow> if up = ''..'' then normal_loop rooted (p # stack) False ps
            else normal_loop rooted below True ps)
     else if p = ''.'' \<or> p = [] then normal_loop rooted stack True ps
     else normal_loop rooted (p # stack) False ps)"

definition lexically_normal :: "path \<Rightarrow> path" where
  "lexically_normal p =
    (if path_empty p then p
     else case normal_loop (is_absolute p) [] False (elements p) of (stack, trailing) \<Rightarrow>
       if stack = [] then (if is_absolute p then Path True [] else Path False [''.''])
       else if trailing \<and> hd stack \<noteq> ''..'' then Path (is_absolute p) (rev stack @ [[]])
       else Path (is_absolute p) (rev stack))"

fun mismatch :: "'a list \<Rightarrow> 'a list \<Rightarrow> 'a list \<times> 'a list" where
  "mismatch (x # xs) (y # ys) = (if x = y then mismatch xs ys else (x # xs, y # ys))"
| "mismatch xs ys = (xs, ys)"

definition depth_of :: "string list \<Rightarrow> int" where
  "depth_of ps = sum_list (map (\<lambda>p. if p = ''..'' then - 1 else if p = [] \<or> p = ''.'' then 0 else 1) ps)"

definition lexically_relative :: "path \<Rightarrow> path \<Rightarrow> path" where
  "lexically_relative p base =
    (if is_absolute p \<noteq> is_absolute base then Path False []
     else case mismatch (elements p) (elements base) of (a, b) \<Rightarrow>
       if a = [] \<and> b = [] then Path False [''.'']
       else let n = depth_of b in
         if n = 0 \<and> (a = [] \<or> hd a = []) then Path False [''.'']
         else if n \<ge> 0 then Path False (replicate (nat n) ''..'' @ a)
         else Path False [])"

definition absolute :: "string list \<Rightarrow> path \<Rightarrow> path" where
  "absolute cwd p = (if is_absolute p then p else path_append (Path True cwd) p)"

section \<open>Facts on normal paths\<close>

definition plain_name :: "string \<Rightarrow> bool" where
  "plain_name p \<longleftrightarrow> p \<noteq> [] \<and> p \<noteq> ''.'' \<and> p \<noteq> ''..''"

lemma normal_loop_rooted:
  assumes "list_all plain_name stack"
    and "normal_loop True stack trailing ps = (stack', trailing')"
  shows "list_all plain_name stack'"
  using assms
proof (induction "True" stack trailing ps rule: normal_loop.induct)
  case (2 stack trailing p ps)
  show ?case
  proof (cases "p = ''..''")
    case True
    show ?thesis
    proof (cases stack)
      case Nil
      with 2 True show ?thesis by simp
    next
      case (Cons up below)
      with 2 True show ?thesis by (auto simp: plain_name_def split: if_splits)
    qed
  next
    case False
    with 2 show ?thesis by (cases "p = ''.'' \<or> p = []") (auto simp: plain_name_def)
  qed
qed simp

lemma normal_loop_plain:
  "list_all plain_name ps \<Longrightarrow>
    normal_loop rooted stack trailing ps = (rev ps @ stack, if ps = [] then trailing else False)"
  by (induction ps arbitrary: stack trailing) (auto simp: plain_name_def)

lemma mismatch_eq: "\<exists>c. xs = c @ fst (mismatch xs ys) \<and> ys = c @ snd (mismatch xs ys)"
proof (induction xs ys rule: mismatch.induct)
  case (1 x xs y ys)
  show ?case
  proof (cases "x = y")
    case True
    with 1 obtain c where "xs = c @ fst (mismatch xs ys)" "ys = c @ snd (mismatch xs ys)" by blast
    with True show ?thesis by (intro exI [of _ "x # c"]) simp
  next
    case False
    then show ?thesis by (intro exI [of _ "[]"]) simp
  qed
qed auto

lemma mismatch_diff: "mismatch xs ys = (x # a, y # b) \<Longrightarrow> x \<noteq> y"
  by (induction xs ys rule: mismatch.induct) (auto split: if_splits)

lemma mismatch_append: "mismatch (c @ xs) (c @ ys) = mismatch xs ys"
  by (induction c) auto

text \<open>The names of a normalised absolute path, without the empty element of a trailing separator.\<close>

definition normal_names :: "path \<Rightarrow> string list" where
  "normal_names p = strip_trailing (elements (lexically_normal p))"

lemma lexically_normal_absolute:
  assumes "is_absolute p"
  obtains t where "lexically_normal p = Path True (normal_names p @ t)" "t = [] \<or> t = [[]]"
    "list_all plain_name (normal_names p)"
proof -
  obtain stack trailing where l: "normal_loop True [] False (elements p) = (stack, trailing)" by force
  have plain: "list_all plain_name (rev stack)" using normal_loop_rooted [OF _ l] by simp
  have last: "stack \<noteq> [] \<Longrightarrow> last (rev stack) \<noteq> []"
    using plain by (cases stack) (auto simp: plain_name_def)
  have eq: "lexically_normal p = Path True (rev stack @ (if trailing \<and> stack \<noteq> [] then [[]] else []))"
    using assms l plain by (cases stack) (auto simp: lexically_normal_def path_empty_def plain_name_def)
  then have "normal_names p = rev stack"
    using last by (auto simp: normal_names_def strip_trailing_def)
  with eq plain that show thesis by auto
qed

lemma depth_of_plain: "list_all plain_name ps \<Longrightarrow> u = [] \<or> u = [[]] \<Longrightarrow> depth_of (ps @ u) = int (length ps)"
  by (induction ps) (auto simp: depth_of_def plain_name_def)

lemma mismatch_not_prefix:
  assumes "\<not> prefix rs cs" "list_all plain_name rs" "t = [] \<or> t = [[]]"
  obtains a r where "mismatch (cs @ t) (rs @ u) = (a, r @ u)" "r \<noteq> []" "list_all plain_name r"
proof (cases "prefix cs rs")
  case True
  then obtain r where r: "rs = cs @ r" by (auto simp: prefix_def)
  with assms have "r \<noteq> []" "list_all plain_name r" by auto
  then have "mismatch (cs @ t) (rs @ u) = (t, r @ u)"
    using r assms(3) by (cases r) (auto simp: mismatch_append plain_name_def)
  with \<open>r \<noteq> []\<close> \<open>list_all plain_name r\<close> that show thesis by blast
next
  case False
  with assms(1) have "parallel cs rs" by auto
  then obtain c x xs y ys where "x \<noteq> y" "cs = c @ x # xs" "rs = c @ y # ys"
    using parallel_decomp by blast
  with assms that [of "x # xs @ t" "y # ys"] show thesis by (simp add: mismatch_append)
qed

lemma mismatch_prefix:
  assumes "list_all plain_name d" "t = [] \<or> t = [[]]" "u = [] \<or> u = [[]]" "d \<noteq> [] \<or> t \<noteq> u"
  shows "mismatch ((rs @ d) @ t) (rs @ u) = (d @ t, u)"
  using assms by (cases d) (auto simp: mismatch_append plain_name_def)

end
