(* ===== verification/Usk_Policy.thy ===== *)
theory Usk_Policy
  imports Usk_Sha256 Usk_Path
begin

text \<open>
  The live target policy of \<^verbatim>\<open>runtime/setup/policy/usk_target_policy.cpp\<close>: the enumerations with
  their names, the evidence record, the containment test on normalised paths, the
  length-prefixed payload that binds a decision to its evidence, and the decision itself.
\<close>

section \<open>Enumerations and their names\<close>

datatype target_class = fixture | disposable_test | operator_acceptance | managed_portable
  | imported | foreign_owned | steam_managed | per_user | system_wide

datatype activation = unavailable | operator_acceptance_candidate | accepted_live_portable

datatype target_state = nonexistent | empty_target | nonempty | unproven

fun target_class_name :: "target_class \<Rightarrow> string" where
  "target_class_name fixture = ''fixture''"
| "target_class_name disposable_test = ''disposable_test''"
| "target_class_name operator_acceptance = ''operator_acceptance''"
| "target_class_name managed_portable = ''managed_portable''"
| "target_class_name imported = ''imported''"
| "target_class_name foreign_owned = ''foreign_owned''"
| "target_class_name steam_managed = ''steam_managed''"
| "target_class_name per_user = ''per_user''"
| "target_class_name system_wide = ''system_wide''"

definition parse_target_class :: "string \<Rightarrow> target_class option" where
  "parse_target_class value = List.find (\<lambda>candidate. value = target_class_name candidate)
    [fixture, disposable_test, operator_acceptance, managed_portable, imported, foreign_owned,
     steam_managed, per_user, system_wide]"

fun activation_name :: "activation \<Rightarrow> string" where
  "activation_name unavailable = ''unavailable''"
| "activation_name operator_acceptance_candidate = ''operator_acceptance_candidate''"
| "activation_name accepted_live_portable = ''accepted_live_portable''"

definition parse_activation :: "string \<Rightarrow> activation option" where
  "parse_activation value = List.find (\<lambda>candidate. value = activation_name candidate)
    [unavailable, operator_acceptance_candidate, accepted_live_portable]"

fun target_state_name :: "target_state \<Rightarrow> string" where
  "target_state_name nonexistent = ''nonexistent''"
| "target_state_name empty_target = ''empty''"
| "target_state_name nonempty = ''nonempty''"
| "target_state_name unproven = ''unproven''"

definition parse_target_state :: "string \<Rightarrow> target_state option" where
  "parse_target_state value = List.find (\<lambda>candidate. value = target_state_name candidate)
    [nonexistent, empty_target, nonempty, unproven]"

section \<open>Evidence and its binding\<close>

record target_evidence =
  te_class :: target_class
  te_target_root :: path
  te_acceptance_root :: path
  te_state :: target_state
  te_identity_digest :: string
  te_filesystem_identity_digest :: string
  te_filesystem_kind :: string
  te_effects :: "string list"
  te_required_bytes :: "64 word"
  te_available_bytes :: "64 word"
  te_explicitly_supplied :: bool
  te_local_filesystem :: bool
  te_path_components_stable :: bool
  te_mount_redirection_absent :: bool
  te_excluded_roots_absent :: bool
  te_source_target_distinct :: bool
  te_effects_complete :: bool

record target_policy_decision =
  pd_accepted :: bool
  pd_code :: string
  pd_detail :: string
  pd_binding_digest :: string

definition strictly_below :: "path \<Rightarrow> path \<Rightarrow> bool" where
  "strictly_below root candidate =
    (if path_empty root \<or> path_empty candidate \<or> \<not> is_absolute root \<or> \<not> is_absolute candidate then False
     else let normalized_root = lexically_normal root; normalized_candidate = lexically_normal candidate in
       if normalized_root = normalized_candidate then False
       else let relative = lexically_relative normalized_candidate normalized_root in
         if path_empty relative \<or> is_absolute relative then False
         else list_all (\<lambda>part. part \<noteq> ''..'') (elements relative))"

definition append_field :: "string \<Rightarrow> string \<Rightarrow> string" where
  "append_field name value =
    dec (length name) @ '':'' @ name @ ''='' @ dec (length value) @ '':'' @ value @ [CHR 0x0A]"

definition bool_text :: "bool \<Rightarrow> string" where
  "bool_text b = (if b then ''true'' else ''false'')"

definition binding_payload :: "activation \<Rightarrow> target_evidence \<Rightarrow> string" where
  "binding_payload act e =
    append_field ''activation'' (activation_name act) @
    append_field ''target_class'' (target_class_name (te_class e)) @
    append_field ''target_root'' (path_string (lexically_normal (te_target_root e))) @
    append_field ''acceptance_root'' (path_string (lexically_normal (te_acceptance_root e))) @
    append_field ''target_state'' (target_state_name (te_state e)) @
    append_field ''target_identity_digest'' (te_identity_digest e) @
    append_field ''filesystem_identity_digest'' (te_filesystem_identity_digest e) @
    append_field ''filesystem_kind'' (te_filesystem_kind e) @
    append_field ''required_bytes'' (dec (unat (te_required_bytes e))) @
    append_field ''capacity_satisfied''
      (bool_text (te_required_bytes e \<noteq> 0 \<and> te_available_bytes e \<ge> te_required_bytes e)) @
    append_field ''explicitly_supplied'' (bool_text (te_explicitly_supplied e)) @
    append_field ''local_filesystem'' (bool_text (te_local_filesystem e)) @
    append_field ''path_components_stable'' (bool_text (te_path_components_stable e)) @
    append_field ''mount_redirection_absent'' (bool_text (te_mount_redirection_absent e)) @
    append_field ''excluded_roots_absent'' (bool_text (te_excluded_roots_absent e)) @
    append_field ''source_target_distinct'' (bool_text (te_source_target_distinct e)) @
    append_field ''persistent_effects_complete'' (bool_text (te_effects_complete e)) @
    concat (map (append_field ''effect'') (te_effects e))"

definition binding_digest :: "activation \<Rightarrow> target_evidence \<Rightarrow> string" where
  "binding_digest act e = sha256_hex (binding_payload act e)"

definition refuse :: "string \<Rightarrow> string \<Rightarrow> activation \<Rightarrow> target_evidence \<Rightarrow> target_policy_decision" where
  "refuse code detail act e = \<lparr>pd_accepted = False, pd_code = code, pd_detail = detail,
    pd_binding_digest = binding_digest act e\<rparr>"

definition evaluate_live_target :: "activation \<Rightarrow> target_evidence \<Rightarrow> target_policy_decision" where
  "evaluate_live_target act e =
    (if act = unavailable then refuse ''live_target_acceptance_required''
       ''live portable setup is unavailable before an authorized M2 acceptance lane'' act e
     else if te_class e = managed_portable \<and> act \<noteq> accepted_live_portable then
       refuse ''live_target_acceptance_required''
         ''managed portable mutation requires a recorded human M2 Pass'' act e
     else if te_class e \<noteq> operator_acceptance \<and> te_class e \<noteq> managed_portable then
       refuse ''target_class_forbidden''
         ''the selected target class is outside M2 live portable authority'' act e
     else if \<not> te_explicitly_supplied e \<or> path_empty (te_target_root e) \<or> \<not> is_absolute (te_target_root e) then
       refuse ''target_not_explicit'' ''the operator must explicitly supply an absolute target root'' act e
     else if te_class e = operator_acceptance \<and> \<not> strictly_below (te_acceptance_root e) (te_target_root e) then
       refuse ''target_outside_acceptance_root''
         ''operator-acceptance targets must remain below the authorized acceptance root'' act e
     else if te_state e \<noteq> nonexistent \<and> te_state e \<noteq> empty_target then
       refuse ''target_not_empty'' ''the selected install target must be nonexistent or proven empty'' act e
     else if \<not> te_local_filesystem e \<or> te_filesystem_kind e = [] \<or>
         \<not> valid_sha256 (te_filesystem_identity_digest e) then
       refuse ''target_filesystem_not_local'' ''the target filesystem must be local and identity-bound'' act e
     else if \<not> te_path_components_stable e then
       refuse ''target_path_redirected''
         ''a target path component is a link, reparse point, or unstable ancestor'' act e
     else if \<not> te_mount_redirection_absent e then
       refuse ''target_mount_redirected'' ''the target path crosses an unapproved mount redirection'' act e
     else if \<not> te_excluded_roots_absent e then
       refuse ''target_root_excluded''
         ''the target is within a protected, cloud-synchronized, Steam, or foreign-owned root'' act e
     else if te_required_bytes e = 0 \<or> te_available_bytes e < te_required_bytes e then
       refuse ''target_space_insufficient''
         ''available target space does not satisfy the reviewed plan requirement'' act e
     else if \<not> te_source_target_distinct e then
       refuse ''source_target_same_object''
         ''the source archive and selected target must be distinct filesystem objects'' act e
     else if \<not> te_effects_complete e \<or> te_effects e = [] then
       refuse ''target_effects_incomplete''
         ''every persistent effect must be available for operator review'' act e
     else if \<not> valid_sha256 (te_identity_digest e) then
       refuse ''target_identity_unproven'' ''the selected target identity must be digest-bound'' act e
     else \<lparr>pd_accepted = True, pd_code = '''', pd_detail = ''live target satisfies the bounded M2 policy'',
       pd_binding_digest = binding_digest act e\<rparr>)"

section \<open>Containment\<close>

lemma strictly_below_absolute:
  assumes "is_absolute root" "is_absolute candidate"
  shows "strictly_below root candidate \<longleftrightarrow>
    lexically_normal root \<noteq> lexically_normal candidate \<and> prefix (normal_names root) (normal_names candidate)"
proof -
  obtain u where r: "lexically_normal root = Path True (normal_names root @ u)" "u = [] \<or> u = [[]]"
    "list_all plain_name (normal_names root)" using assms(1) by (rule lexically_normal_absolute)
  obtain t where c: "lexically_normal candidate = Path True (normal_names candidate @ t)" "t = [] \<or> t = [[]]"
    "list_all plain_name (normal_names candidate)" using assms(2) by (rule lexically_normal_absolute)
  let ?rel = "lexically_relative (lexically_normal candidate) (lexically_normal root)"
  have eq: "strictly_below root candidate \<longleftrightarrow> lexically_normal root \<noteq> lexically_normal candidate \<and>
      \<not> path_empty ?rel \<and> \<not> is_absolute ?rel \<and> list_all (\<lambda>part. part \<noteq> ''..'') (elements ?rel)"
    using assms by (auto simp: strictly_below_def path_empty_def Let_def)
  show ?thesis
  proof (cases "prefix (normal_names root) (normal_names candidate)")
    case True
    then obtain d where d: "normal_names candidate = normal_names root @ d" by (auto simp: prefix_def)
    then have plain: "list_all plain_name d" using c(3) by simp
    have rel: "?rel = (if d = [] then Path False [''.''] else Path False (d @ t))"
      if "lexically_normal root \<noteq> lexically_normal candidate"
    proof -
      have ne: "d \<noteq> [] \<or> t \<noteq> u" using that r(1) c(1) d by auto
      have mm: "mismatch (normal_names candidate @ t) (normal_names root @ u) = (d @ t, u)"
        using mismatch_prefix [OF plain c(2) r(2) ne, of "normal_names root"] d by simp
      have dep: "depth_of u = 0" using depth_of_plain [of "[]" u] r(2) by simp
      have "?rel = (if d @ t = [] \<or> hd (d @ t) = [] then Path False [''.''] else Path False (d @ t))"
        unfolding lexically_relative_def r(1) c(1) path.sel mm prod.case dep Let_def by simp
      then show ?thesis using c(2) plain by (cases d) (auto simp: plain_name_def)
    qed
    have "list_all (\<lambda>part. part \<noteq> ''..'') (d @ t)" using plain c(2) by (auto simp: plain_name_def elim: list.pred_mono_strong)
    then have "\<not> path_empty ?rel \<and> \<not> is_absolute ?rel \<and> list_all (\<lambda>part. part \<noteq> ''..'') (elements ?rel)"
      if "lexically_normal root \<noteq> lexically_normal candidate"
      unfolding rel [OF that] by (cases "d = []") (simp_all add: path_empty_def)
    with eq True show ?thesis by blast
  next
    case False
    obtain a r' where m: "mismatch (normal_names candidate @ t) (normal_names root @ u) = (a, r' @ u)"
      "r' \<noteq> []" "list_all plain_name r'"
      using False r(3) c(2) by (rule mismatch_not_prefix)
    then have "?rel = Path False (replicate (length r') ''..'' @ a)"
      unfolding lexically_relative_def r(1) c(1) path.sel m(1) prod.case depth_of_plain [OF m(3) r(2)] Let_def
      using m(2) by simp
    with m(2) eq False show ?thesis by (cases r') auto
  qed
qed

lemma strictly_below_relative: "\<not> is_absolute root \<or> \<not> is_absolute candidate \<Longrightarrow> \<not> strictly_below root candidate"
  by (auto simp: strictly_below_def)

section \<open>The binding payload is unambiguous\<close>

lemma dec_then:
  assumes "dec m @ c # x = dec n @ d # y" "\<not> isdigit c" "\<not> isdigit d"
  shows "m = n \<and> x = y"
proof -
  have tw: "takeWhile isdigit (dec k @ e # z) = dec k" if "\<not> isdigit e" for k e z
    using that dec_isdigit [of _ k] by (subst takeWhile_append2) auto
  have "dec m = dec n" using tw [OF assms(2), of m x] tw [OF assms(3), of n y] assms(1) by simp
  with assms(1) show ?thesis by simp
qed

lemma append_field_prefix:
  assumes "append_field n v @ x = append_field n' v' @ y"
  shows "n = n' \<and> v = v' \<and> x = y"
proof -
  have nd: "\<not> isdigit (CHR '':'')" by (simp add: isdigit_def)
  from assms have "dec (length n) @ CHR '':'' # n @ CHR ''='' # dec (length v) @ CHR '':'' # v @ CHR 0x0A # x =
      dec (length n') @ CHR '':'' # n' @ CHR ''='' # dec (length v') @ CHR '':'' # v' @ CHR 0x0A # y"
    by (simp add: append_field_def)
  from dec_then [OF this nd nd] have n: "n = n'"
    and rest: "dec (length v) @ CHR '':'' # v @ CHR 0x0A # x = dec (length v') @ CHR '':'' # v' @ CHR 0x0A # y"
    by auto
  from dec_then [OF rest nd nd] have "v = v'" "x = y" by auto
  with n show ?thesis by simp
qed

abbreviation field_texts :: "(string \<times> string) list \<Rightarrow> string" where
  "field_texts fs \<equiv> concat (map (\<lambda>(n, v). append_field n v) fs)"

lemma field_texts_inj: "field_texts fs = field_texts gs \<longleftrightarrow> fs = gs"
proof (induction fs arbitrary: gs)
  case Nil
  then show ?case by (cases gs) (auto simp: append_field_def)
next
  case (Cons f fs)
  obtain n v where f: "f = (n, v)" by force
  show ?case
  proof (cases gs)
    case Nil
    then show ?thesis by (simp add: f append_field_def)
  next
    case (Cons g gs')
    obtain n' v' where g: "g = (n', v')" by force
    show ?thesis
    proof
      assume "field_texts (f # fs) = field_texts gs"
      then have "append_field n v @ field_texts fs = append_field n' v' @ field_texts gs'"
        using Cons f g by simp
      from append_field_prefix [OF this] Cons.IH [of gs'] show "f # fs = gs" using Cons f g by simp
    qed simp
  qed
qed

definition binding_fields :: "activation \<Rightarrow> target_evidence \<Rightarrow> (string \<times> string) list" where
  "binding_fields act e =
    [(''activation'', activation_name act), (''target_class'', target_class_name (te_class e)),
     (''target_root'', path_string (lexically_normal (te_target_root e))),
     (''acceptance_root'', path_string (lexically_normal (te_acceptance_root e))),
     (''target_state'', target_state_name (te_state e)),
     (''target_identity_digest'', te_identity_digest e),
     (''filesystem_identity_digest'', te_filesystem_identity_digest e),
     (''filesystem_kind'', te_filesystem_kind e),
     (''required_bytes'', dec (unat (te_required_bytes e))),
     (''capacity_satisfied'', bool_text (te_required_bytes e \<noteq> 0 \<and> te_available_bytes e \<ge> te_required_bytes e)),
     (''explicitly_supplied'', bool_text (te_explicitly_supplied e)),
     (''local_filesystem'', bool_text (te_local_filesystem e)),
     (''path_components_stable'', bool_text (te_path_components_stable e)),
     (''mount_redirection_absent'', bool_text (te_mount_redirection_absent e)),
     (''excluded_roots_absent'', bool_text (te_excluded_roots_absent e)),
     (''source_target_distinct'', bool_text (te_source_target_distinct e)),
     (''persistent_effects_complete'', bool_text (te_effects_complete e))] @
    map (Pair ''effect'') (te_effects e)"

lemma binding_payload_fields: "binding_payload act e = field_texts (binding_fields act e)"
  by (simp add: binding_payload_def binding_fields_def o_def)

lemma bool_text_inj [simp]: "bool_text a = bool_text b \<longleftrightarrow> a = b"
  by (simp add: bool_text_def)

lemma activation_name_inj [simp]: "activation_name a = activation_name b \<longleftrightarrow> a = b"
  by (cases a; cases b) simp_all

lemma target_class_name_inj [simp]: "target_class_name a = target_class_name b \<longleftrightarrow> a = b"
  by (cases a; cases b) simp_all

lemma target_state_name_inj [simp]: "target_state_name a = target_state_name b \<longleftrightarrow> a = b"
  by (cases a; cases b) simp_all

lemma map_Pair_inj [simp]: "map (Pair x) ys = map (Pair x) zs \<longleftrightarrow> ys = zs"
  by (rule inj_map_eq_map) (simp add: inj_def)

section \<open>Properties\<close>



text \<open>
  C37. The containment test compares normalised names: an absolute candidate passes exactly when the
  names of the root are a prefix of its names and the two normalised paths differ as paths.
  They may differ by a trailing separator alone, in which case the candidate is the root
  directory itself and still passes.
\<close>

theorem strictly_below_iff:
  "strictly_below root candidate \<longleftrightarrow>
    is_absolute root \<and> is_absolute candidate \<and> lexically_normal root \<noteq> lexically_normal candidate \<and>
    prefix (normal_names root) (normal_names candidate)"
  using strictly_below_absolute [of root candidate] strictly_below_relative [of root candidate] by blast


end
