(* ===== verification/Usk_Documents.thy ===== *)
theory Usk_Documents
  imports Usk_Json_Equal "HOL-Library.Sublist"
begin

text \<open>
  Canonical record documents. The audit, state and transaction layers store a JSON document as its
  canonical text followed by a line end, and read it back by parsing, re-encoding and comparing.
  \<open>canonical_document\<close> is that common prefix of their decoders; \<open>canonical_document_iff\<close>
  characterises what it accepts, for every text. The second half collects the facts with which
  member sets and members of a document are computed.
\<close>

section \<open>Texts with a line end\<close>

abbreviation newline :: string where "newline \<equiv> [CHR 0x0A]"
abbreviation crlf :: string where "crlf \<equiv> [CHR 0x0D, CHR 0x0A]"

definition canonical_document :: "nat \<Rightarrow> string \<Rightarrow> string \<Rightarrow> string \<Rightarrow> jvalue res" where
  "canonical_document bound exceeds not_canonical content =
    (if length content > bound then throwE exceeds
     else bindE (parse content default_limits) (\<lambda>document.
       if canonical document @ newline \<noteq> content \<and> canonical document @ crlf \<noteq> content
       then throwE not_canonical else Inr document))"

definition fits :: "parse_limits \<Rightarrow> nat \<Rightarrow> jvalue \<Rightarrow> bool" where
  "fits L n v \<longleftrightarrow> n \<le> max_bytes L \<and> shape_ok L 0 v \<and> value_count v \<le> max_values L"

lemma skip_space_all: "list_all is_space s \<Longrightarrow> skip_space s = []"
  by (simp add: skip_space_def list_all_iff)

lemma parse_decides_trailing:
  assumes "json_text v t" "list_all is_space s"
  shows "decides (parse (t @ s) L) (fits L (length (t @ s)) v) v"
proof -
  obtain c t' where t: "t = c # t'" "\<not> is_space c" using assms(1) by (auto elim: json_text_hd)
  have "ends_number s" using assms(2) by (cases s) (auto simp: ends_number_def is_space_def isdigit_def)
  then have "decides (bindE (p_value L 0 (t @ s) 0) (\<lambda>(result, rest, _).
       if skip_space rest \<noteq> [] then throwE ''JSON has trailing content'' else Inr result))
     ((shape_ok L 0 v \<and> 0 + value_count v \<le> max_values L) \<and> True) v"
    by (rule decides_bindE [OF read_backD [OF json_text_read_back [OF assms(1)]]])
      (simp_all add: skip_space_all assms(2))
  with t show ?thesis by (simp add: parse_def skip_space_Cons decides_def fits_def)
qed

lemma parse_line:
  assumes "wf_json v" "s = newline \<or> s = crlf"
  shows "decides (parse (canonical v @ s) L) (fits L (length (canonical v @ s)) v) v"
  using parse_decides_trailing [OF json_text_canonical [OF assms(1)], of s L] assms(2)
  by (auto simp: is_space_def)

lemma canonical_document_iff:
  "canonical_document bound exceeds not_canonical content = Inr v \<longleftrightarrow>
    wf_json v \<and> (content = canonical v @ newline \<or> content = canonical v @ crlf) \<and>
    length content \<le> bound \<and> fits default_limits (length content) v"
  (is "?lhs \<longleftrightarrow> ?rhs")
proof
  assume ?lhs
  then have "parse content default_limits = Inr v" "length content \<le> bound"
    "content = canonical v @ newline \<or> content = canonical v @ crlf"
    by (auto simp: canonical_document_def bindE_eq_Inr split: if_splits)
  then show ?rhs using parse_sound [of content default_limits v] by (simp add: fits_def)
next
  assume ?rhs
  then have "parse content default_limits = Inr v"
    using parse_line [of v newline default_limits] parse_line [of v crlf default_limits]
    by (auto simp: decides_def)
  with \<open>?rhs\<close> show ?lhs by (auto simp: canonical_document_def)
qed

lemma canonical_document_newline:
  assumes "wf_json v"
  shows "decides (canonical_document bound exceeds not_canonical (canonical v @ newline))
    (length (canonical v @ newline) \<le> bound \<and> fits default_limits (length (canonical v @ newline)) v) v"
  using parse_line [OF assms, of newline default_limits]
  by (auto simp: canonical_document_def decides_def accepts_iff bindE_eq_Inr)

lemma canonical_line_inj:
  assumes "canonical v @ s = canonical w @ s'" "s \<in> {newline, crlf}" "s' \<in> {newline, crlf}"
    and "wf_json v" "wf_json w" "fits L (length (canonical v @ s)) v" "fits L (length (canonical v @ s)) w"
  shows "v = w"
  using parse_line [OF assms(4), of s L] parse_line [OF assms(5), of s' L] assms
  by (auto simp: decides_def)

section \<open>Members of a document\<close>

named_theorems document_simps \<open>equations that read members of an object\<close>

lemma jat_object [document_simps]:
  "jat (JObject m) key = (case map_of m key of None \<Rightarrow> throwE (''required JSON member is missing: '' @ key) | Some x \<Rightarrow> Inr x)"
  by (simp add: jat_def)

lemma jcontains_object [document_simps]: "jcontains (JObject m) key \<longleftrightarrow> map_of m key \<noteq> None"
  by (simp add: jcontains_def)

definition member_names :: "jvalue \<Rightarrow> string set res" where
  "member_names v = bindE (as_object v) (\<lambda>m. Inr (set (map fst m)))"

lemma member_names_object [document_simps]: "member_names (JObject m) = Inr (fst ` set m)"
  by (simp add: member_names_def)

lemma member_names_Inr: "member_names v = Inr S \<longleftrightarrow> (\<exists>m. v = JObject m \<and> S = fst ` set m)"
  by (cases v) (auto simp: member_names_def throwE_def)

lemma map_of_emplace:
  "sorted_keys m \<Longrightarrow> k \<notin> fst ` set m \<Longrightarrow> map_of (fst (obj_emplace k v m)) j = (if j = k then Some v else map_of m j)"
  by (simp add: obj_emplace_map_of)

lemma wf_obj_of: "wf_json (JObject (obj_of kvs)) \<longleftrightarrow> list_all wf_json (map snd (obj_of kvs))"
  by (simp add: sorted_keys_obj_of)

lemma list_all_obj_of: "distinct (map fst kvs) \<Longrightarrow> list_all P (obj_of kvs) \<longleftrightarrow> list_all P kvs"
  by (simp add: list_all_iff set_obj_of)

lemma obj_of_append: "obj_of (xs @ ys) = fold (\<lambda>(k, v) m. fst (obj_emplace k v m)) ys (obj_of xs)"
  by (simp add: obj_of_def)

lemma obj_of_snoc: "fst (obj_emplace k v (obj_of xs)) = obj_of (xs @ [(k, v)])"
  by (simp add: obj_of_append)

lemma value_count_obj_of:
  assumes "distinct (map fst kvs)"
  shows "value_count (JObject (obj_of kvs)) = value_count (JObject kvs)"
proof -
  have "mset (map (\<lambda>p. value_count (snd p)) (obj_of kvs)) = mset (map (\<lambda>p. value_count (snd p)) kvs)"
    using mset_obj_of [OF assms] by (simp only: mset_map)
  then have "sum_list (map (\<lambda>p. value_count (snd p)) (obj_of kvs)) = sum_list (map (\<lambda>p. value_count (snd p)) kvs)"
    by (metis sum_mset_sum_list)
  then show ?thesis by simp
qed

text \<open>An object given by its members, in whatever order the code lists them.\<close>

definition object :: "(string \<times> jvalue) list \<Rightarrow> jvalue" where
  "object kvs = JObject (obj_of kvs)"

lemma object_facts:
  assumes "distinct (map fst kvs)"
  shows object_jat: "jat (object kvs) key = (case map_of kvs key of
        None \<Rightarrow> throwE (''required JSON member is missing: '' @ key) | Some x \<Rightarrow> Inr x)"
    and object_contains: "jcontains (object kvs) key \<longleftrightarrow> map_of kvs key \<noteq> None"
    and object_wf: "wf_json (object kvs) \<longleftrightarrow> list_all (\<lambda>kv. wf_json (snd kv)) kvs"
    and object_shape: "shape_ok L d (object kvs) \<longleftrightarrow>
        d \<le> max_depth L \<and> list_all (\<lambda>(k, v). string_ok L k \<and> shape_ok L (Suc d) v) kvs"
    and object_count: "value_count (object kvs) = Suc (sum_list (map (\<lambda>kv. value_count (snd kv)) kvs))"
  using assms
  by (simp_all add: object_def jat_object jcontains_object map_of_obj_of sorted_keys_obj_of list.pred_map o_def
      list_all_obj_of value_count_obj_of del: value_count.simps(2))
    (simp add: o_def)

lemma object_names: "member_names (object kvs) = Inr (fst ` set kvs)"
  by (simp add: object_def member_names_object keys_obj_of)

lemma sorted_maps_eq:
  assumes "sorted_keys m" "sorted_keys m'" "map_of m = map_of m'"
  shows "m = m'"
proof -
  note distinct = sorted_keys_distinct [OF assms(1)] sorted_keys_distinct [OF assms(2)]
  have "p \<in> set m \<longleftrightarrow> p \<in> set m'" for p
    using map_of_eq_Some_iff [OF distinct(1), of "fst p" "snd p"] map_of_eq_Some_iff [OF distinct(2), of "fst p" "snd p"]
      assms(3) by simp
  then have "set m = set m'" by blast
  moreover have "inj_on fst (set m)" using distinct(1) by (simp add: distinct_map)
  ultimately show ?thesis
    using assms(1,2) distinct by (intro map_sorted_distinct_set_unique [of fst])
      (simp_all add: sorted_keys_def strict_sorted_iff)
qed

lemma object_eq_iff:
  assumes "distinct (map fst kvs)" "distinct (map fst kvs')"
  shows "object kvs = object kvs' \<longleftrightarrow> map_of kvs = map_of kvs'"
proof
  assume "object kvs = object kvs'"
  then have "map_of (obj_of kvs) = map_of (obj_of kvs')" by (simp add: object_def)
  then show "map_of kvs = map_of kvs'" using assms by (simp add: map_of_obj_of)
next
  assume "map_of kvs = map_of kvs'"
  then show "object kvs = object kvs'"
    using assms by (simp add: object_def sorted_maps_eq sorted_keys_obj_of map_of_obj_of)
qed

section \<open>Strings of records\<close>

lemma identifier_char_ascii: "isalnum c \<or> c = CHR ''.'' \<or> c = CHR ''_'' \<or> c = CHR ''-'' \<Longrightarrow> byte c \<le> 0x7f"
  by (auto simp: isalnum_def isdigit_def)

lemma lower_hex_ascii: "is_lower_hex c \<Longrightarrow> byte c \<le> 0x7f"
  by (auto simp: is_lower_hex_def isdigit_def)

lemma valid_sha256_ok [simp]: "valid_sha256 s \<Longrightarrow> string_ok default_limits s"
  by (auto simp: valid_sha256_def string_ok_def default_limits_def
      elim!: list.pred_mono_strong intro!: valid_utf8_ascii lower_hex_ascii)

lemma dec_ascii: "list_all (\<lambda>c. byte c \<le> 0x7f) (dec n)"
  by (auto simp: list_all_iff isdigit_def dest: dec_isdigit)

section \<open>A bound on the length of a text\<close>

fun text_bound :: "jvalue \<Rightarrow> nat" where
  "text_bound (JUnsigned n) = 20"
| "text_bound (JString s) = 6 * length s + 2"
| "text_bound (JArray vs) = 2 + sum_list (map (\<lambda>v. Suc (text_bound v)) vs)"
| "text_bound (JObject m) = 2 + sum_list (map (\<lambda>p. 6 * length (fst p) + 4 + text_bound (snd p)) m)"
| "text_bound _ = 5"

lemma length_dec: "n < 10 ^ k \<Longrightarrow> 0 < k \<Longrightarrow> length (dec n) \<le> k"
proof (induction k arbitrary: n)
  case (Suc k)
  show ?case
  proof (cases "n < 10")
    case False
    then have "n div 10 < 10 ^ k" "0 < k" using Suc.prems by (auto intro: gr0I simp: less_mult_imp_div_less)
    with Suc.IH [of "n div 10"] False show ?thesis by (simp add: dec_big)
  qed (simp add: dec_small)
qed simp

lemma word_lt_pow: "unat (n :: 64 word) < 10 ^ 20"
  using unsigned_less [of n] by (rule less_le_trans) simp

lemma length_escape_body: "length (escape_body s) \<le> 6 * length s"
proof (induction s)
  case (Cons c s)
  have "length (escape_char c) \<le> 6" by (cases c rule: escape_char_cases) auto
  with Cons show ?case by simp
qed simp

lemma length_commas_bound: "length (commas ts) \<le> sum_list (map (\<lambda>t. Suc (length t)) ts)"
  by (induction ts rule: commas.induct) auto

lemma length_canonical: "length (canonical v) \<le> text_bound v"
proof (induction v rule: wf_json_induct)
  case (JUnsigned n)
  then show ?case using length_dec [OF word_lt_pow, of n] by (simp add: canonical_simps)
next
  case (JString s)
  then show ?case using length_escape_body [of s] by (simp add: canonical_simps)
next
  case (JArray vs)
  have "sum_list (map (\<lambda>t. Suc (length t)) (map canonical vs)) \<le> sum_list (map (\<lambda>v. Suc (text_bound v)) vs)"
    unfolding map_map o_def by (rule sum_list_mono) (use JArray in auto)
  with length_commas_bound [of "map canonical vs"] show ?case by (simp add: canonical_simps)
next
  case (JObject m)
  have "Suc (length (member_canonical p)) \<le> 6 * length (fst p) + 4 + text_bound (snd p)" if "p \<in> set m" for p
    using JObject [of "fst p" "snd p"] that length_escape_body [of "fst p"] by (simp add: member_canonical_def)
  then have "sum_list (map (\<lambda>t. Suc (length t)) (map member_canonical m)) \<le>
      sum_list (map (\<lambda>p. 6 * length (fst p) + 4 + text_bound (snd p)) m)"
    unfolding map_map o_def by (intro sum_list_mono)
  with length_commas_bound [of "map member_canonical m"] show ?case by (simp add: canonical_simps)
qed (simp_all add: canonical_simps)

lemma object_bound:
  assumes "distinct (map fst kvs)"
  shows "text_bound (object kvs) = 2 + sum_list (map (\<lambda>p. 6 * length (fst p) + 4 + text_bound (snd p)) kvs)"
proof -
  have "mset (map (\<lambda>p. 6 * length (fst p) + 4 + text_bound (snd p)) (obj_of kvs)) =
      mset (map (\<lambda>p. 6 * length (fst p) + 4 + text_bound (snd p)) kvs)"
    using mset_obj_of [OF assms] by (simp only: mset_map)
  then have "sum_mset (mset (map (\<lambda>p. 6 * length (fst p) + 4 + text_bound (snd p)) (obj_of kvs))) =
      sum_mset (mset (map (\<lambda>p. 6 * length (fst p) + 4 + text_bound (snd p)) kvs))"
    by (rule arg_cong)
  then show ?thesis unfolding object_def text_bound.simps sum_mset_sum_list by simp
qed

end
