(* ===== verification/Usk_Store.thy ===== *)
theory Usk_Store
  imports Usk_Path
begin

text \<open>
  The file system the record layer works on, as far as POSIX promises it: a tree of directories,
  regular files and symbolic links, path resolution that follows links (at most forty), and the
  few system calls the sources make. The clock gives the readings of \<open>w_clock\<close> in turn and then
  stands still. Effects survive a later exception, so a stateful function
  returns its result \<^emph>\<open>and\<close> the world it leaves, also when it throws. Which calls the system refuses
  (permissions, full disk, failing flush), in what portions it writes and in which order it
  lists a directory are fields of the world: every theorem holds for all of them. Permission
  errors of the read-only queries are not modelled.
\<close>

section \<open>The world\<close>

datatype entry =
    Dir "64 word"
  | File "64 word" string nat "64 word"
  | Link "string list"

datatype syscall = Sys_mkdir | Sys_create | Sys_fsync | Sys_fsync_dir | Sys_rename | Sys_open
  | Sys_unlink | Sys_rmdir | Sys_link | Sys_close

datatype reply = Wrote nat | Interrupted

record world =
  w_tree :: "(string list \<times> entry) list"
  w_dev :: "64 word"
  w_cwd :: "string list"
  w_next_ino :: "64 word"
  w_now :: "64 word"
  w_clock :: "64 word list"
  w_order :: "string list \<Rightarrow> string list"
  w_refuses :: "syscall \<Rightarrow> string list \<Rightarrow> bool"
  w_writes :: "string list \<Rightarrow> reply list"

definition entry_at :: "world \<Rightarrow> string list \<Rightarrow> entry option" where
  "entry_at w p = (if p = [] then Some (Dir 0) else map_of (w_tree w) p)"

definition put_entry :: "string list \<Rightarrow> entry \<Rightarrow> world \<Rightarrow> world" where
  "put_entry p e w = w\<lparr>w_tree := (p, e) # filter (\<lambda>(q, _). q \<noteq> p) (w_tree w)\<rparr>"

definition del_entry :: "string list \<Rightarrow> world \<Rightarrow> world" where
  "del_entry p w = w\<lparr>w_tree := filter (\<lambda>(q, _). q \<noteq> p) (w_tree w)\<rparr>"

lemma map_of_filter_key: "map_of (filter (\<lambda>(q, _). q \<noteq> p) xs) q = (if q = p then None else map_of xs q)"
  by (induction xs) auto

lemma entry_at_put: "p \<noteq> [] \<Longrightarrow> entry_at (put_entry p e w) q = (if q = p then Some e else entry_at w q)"
  by (simp add: entry_at_def put_entry_def map_of_filter_key)

lemma entry_at_del: "p \<noteq> [] \<Longrightarrow> entry_at (del_entry p w) q = (if q = p then None else entry_at w q)"
  by (simp add: entry_at_def del_entry_def map_of_filter_key)

section \<open>Path resolution\<close>

function walk :: "world \<Rightarrow> bool \<Rightarrow> nat \<Rightarrow> string list \<Rightarrow> string list \<Rightarrow> string list option" where
  "walk w follow fuel base todo = (case todo of
     [] \<Rightarrow> Some base
   | c # cs \<Rightarrow>
       if c = [] \<or> c = ''.'' then walk w follow fuel base cs
       else if c = ''..'' then walk w follow fuel (butlast base) cs
       else (case entry_at w (base @ [c]) of
           None \<Rightarrow> if cs = [] then Some (base @ [c]) else None
         | Some (Dir _) \<Rightarrow> walk w follow fuel (base @ [c]) cs
         | Some (File _ _ _ _) \<Rightarrow> if cs = [] then Some (base @ [c]) else None
         | Some (Link t) \<Rightarrow>
             if cs = [] \<and> \<not> follow then Some (base @ [c])
             else (case fuel of 0 \<Rightarrow> None | Suc fuel' \<Rightarrow> walk w follow fuel' [] (t @ cs))))"
  by pat_completeness auto
termination
  by (relation "inv_image (less_than <*lex*> less_than) (\<lambda>(w, follow, fuel, base, todo). (fuel, length todo))") auto

declare walk.simps [simp del]

definition resolve :: "world \<Rightarrow> bool \<Rightarrow> path \<Rightarrow> string list option" where
  "resolve w follow p = walk w follow 40 (if is_absolute p then [] else w_cwd w) (elements p)"

definition lstat :: "world \<Rightarrow> path \<Rightarrow> entry option" where
  "lstat w p = (if path_empty p then None else Option.bind (resolve w False p) (entry_at w))"

definition stat :: "world \<Rightarrow> path \<Rightarrow> entry option" where
  "stat w p = (if path_empty p then None else Option.bind (resolve w True p) (entry_at w))"

fun is_dir_entry :: "entry option \<Rightarrow> bool" where
  "is_dir_entry (Some (Dir _)) = True"
| "is_dir_entry _ = False"

definition is_directory :: "world \<Rightarrow> path \<Rightarrow> bool" where
  "is_directory w p = is_dir_entry (stat w p)"

definition children :: "world \<Rightarrow> string list \<Rightarrow> string list" where
  "children w d = map last (filter (\<lambda>q. q \<noteq> [] \<and> butlast q = d) (map fst (w_tree w)))"

definition list_directory :: "world \<Rightarrow> string list \<Rightarrow> string list" where
  "list_directory w d = w_order w (children w d)"

section \<open>Stateful functions that may throw\<close>

type_synonym ('s, 'a) st = "'s \<Rightarrow> 'a res \<times> 's"
type_synonym 'a io = "(world, 'a) st"

definition returnS :: "'a \<Rightarrow> ('s, 'a) st" where "returnS x w = (Inr x, w)"

definition throwS :: "string \<Rightarrow> ('s, 'a) st" where "throwS msg w = (throwE msg, w)"

definition bindS :: "('s, 'a) st \<Rightarrow> ('a \<Rightarrow> ('s, 'b) st) \<Rightarrow> ('s, 'b) st" where
  "bindS m f w = (case m w of (Inl e, w') \<Rightarrow> (Inl e, w') | (Inr x, w') \<Rightarrow> f x w')"

definition liftS :: "('s \<Rightarrow> 'a res) \<Rightarrow> ('s, 'a) st" where "liftS f w = (f w, w)"

definition guardS :: "bool \<Rightarrow> string \<Rightarrow> ('s, unit) st" where
  "guardS b msg w = (requireE b msg, w)"

text \<open>A handler \<^verbatim>\<open>catch (...)\<close> sees the state that the failing block left.\<close>

definition catchS :: "('s, 'a) st \<Rightarrow> (exn \<Rightarrow> ('s, 'a) st) \<Rightarrow> ('s, 'a) st" where
  "catchS m h w = (case m w of (Inl e, w') \<Rightarrow> h e w' | (Inr x, w') \<Rightarrow> (Inr x, w'))"

definition rethrowS :: "exn \<Rightarrow> ('s, 'a) st" where "rethrowS e w = (Inl e, w)"

named_theorems io_simps \<open>equations that run stateful functions\<close>

lemmas [io_simps] = returnS_def throwS_def liftS_def guardS_def

lemma bindS_eq_Inr: "bindS m f w = (Inr y, w'') \<longleftrightarrow> (\<exists>x w'. m w = (Inr x, w') \<and> f x w' = (Inr y, w''))"
  by (auto simp: bindS_def split: prod.splits sum.splits)

lemma liftS_eq_Inr [simp]: "liftS f w = (Inr y, w') \<longleftrightarrow> f w = Inr y \<and> w' = w"
  by (auto simp: liftS_def)

lemma guardS_eq_Inr [simp]: "guardS b msg w = (Inr y, w') \<longleftrightarrow> b \<and> w' = w"
  by (auto simp: guardS_def requireE_def)

lemma returnS_eq [simp]: "returnS x w = (r, w') \<longleftrightarrow> r = Inr x \<and> w' = w"
  by (auto simp: returnS_def)

lemma throwS_eq [simp]: "throwS msg w = (r, w') \<longleftrightarrow> r = throwE msg \<and> w' = w"
  by (auto simp: throwS_def)

lemma bindS_liftS [simp]: "bindS (liftS f) g w = (case f w of Inl e \<Rightarrow> (Inl e, w) | Inr x \<Rightarrow> g x w)"
  by (simp add: bindS_def liftS_def split: sum.splits)

lemma bindS_guardS [simp]: "bindS (guardS b msg) g w = (if b then g () w else (throwE msg, w))"
  by (simp add: bindS_def guardS_def throwE_def requireE_def)

lemma bindS_returnS [simp]: "bindS (returnS x) f = f x"
  by (simp add: fun_eq_iff bindS_def returnS_def)

lemma bindS_assoc: "bindS (bindS m f) g = bindS m (\<lambda>x. bindS (f x) g)"
  by (simp add: fun_eq_iff bindS_def split: prod.splits sum.splits)

section \<open>Further system calls\<close>

definition read_clock :: "64 word io" where
  "read_clock w = (case w_clock w of
     [] \<Rightarrow> (Inr (w_now w), w)
   | t # ts \<Rightarrow> (Inr t, w\<lparr>w_clock := ts, w_now := t\<rparr>))"

definition path_exists :: "world \<Rightarrow> path \<Rightarrow> bool" where
  "path_exists w p \<longleftrightarrow> stat w p \<noteq> None"

text \<open>The link count of a file is a property of its inode, so all its names change together.\<close>

definition adjust_links :: "64 word \<Rightarrow> (nat \<Rightarrow> nat) \<Rightarrow> world \<Rightarrow> world" where
  "adjust_links ino f w = w\<lparr>w_tree := map (\<lambda>(q, e). (q, case e of
     File i content links mtime \<Rightarrow> if i = ino then File i content (f links) mtime else e | _ \<Rightarrow> e)) (w_tree w)\<rparr>"

definition link_file :: "path \<Rightarrow> path \<Rightarrow> bool io" where
  "link_file source target w = (case (resolve w False source, resolve w False target) of
     (Some s, Some t) \<Rightarrow> (case entry_at w s of
         Some (File ino content links mtime) \<Rightarrow>
           if entry_at w t = None \<and> is_dir_entry (entry_at w (butlast t)) \<and> \<not> w_refuses w Sys_link t
           then (Inr True, adjust_links ino Suc (put_entry t (File ino content links mtime) w))
           else (Inr False, w)
       | _ \<Rightarrow> (Inr False, w))
   | _ \<Rightarrow> (Inr False, w))"

text \<open>\<^verbatim>\<open>unlink\<close> and \<^verbatim>\<open>std::filesystem::remove\<close>; the latter also removes empty directories.\<close>

definition unlink_entry :: "string list \<Rightarrow> world \<Rightarrow> world" where
  "unlink_entry q w = (case entry_at w q of
     Some (File ino _ _ _) \<Rightarrow> adjust_links ino (\<lambda>n. n - 1) (del_entry q w)
   | _ \<Rightarrow> del_entry q w)"

definition unlink_file :: "path \<Rightarrow> bool io" where
  "unlink_file p w = (case resolve w False p of
     Some q \<Rightarrow> if q \<noteq> [] \<and> entry_at w q \<noteq> None \<and> \<not> is_dir_entry (entry_at w q) \<and> \<not> w_refuses w Sys_unlink q
       then (Inr True, unlink_entry q w) else (Inr False, w)
   | None \<Rightarrow> (Inr False, w))"

definition remove_path :: "path \<Rightarrow> bool io" where
  "remove_path p w = (case resolve w False p of
     Some q \<Rightarrow>
       if is_dir_entry (entry_at w q)
       then (if q \<noteq> [] \<and> children w q = [] \<and> \<not> w_refuses w Sys_rmdir q then (Inr True, del_entry q w) else (Inr False, w))
       else unlink_file p w
   | None \<Rightarrow> (Inr False, w))"

text \<open>\<^verbatim>\<open>rename\<close> of a file onto a name that may exist.\<close>

definition rename_file :: "path \<Rightarrow> path \<Rightarrow> bool io" where
  "rename_file source target w = (case (resolve w False source, resolve w False target) of
     (Some s, Some t) \<Rightarrow> (case entry_at w s of
         Some (File ino content links mtime) \<Rightarrow>
           if s \<noteq> t \<and> \<not> is_dir_entry (entry_at w t) \<and> is_dir_entry (entry_at w (butlast t)) \<and> \<not> w_refuses w Sys_rename s
           then (Inr True, put_entry t (File ino content links mtime) (del_entry s (if entry_at w t = None then w else unlink_entry t w)))
           else (Inr False, w)
       | _ \<Rightarrow> (Inr False, w))
   | _ \<Rightarrow> (Inr False, w))"

lemma bindS_run: "m w = (Inr x, w') \<Longrightarrow> bindS m f w = f x w'"
  by (simp add: bindS_def)

lemma catchS_eq_Inr: "catchS m h w = (Inr y, w'') \<longleftrightarrow>
    m w = (Inr y, w'') \<or> (\<exists>e w'. m w = (Inl e, w') \<and> h e w' = (Inr y, w''))"
  by (auto simp: catchS_def split: prod.splits sum.splits)

lemma rethrowS_eq [simp]: "rethrowS e w = (r, w') \<longleftrightarrow> r = Inl e \<and> w' = w"
  by (auto simp: rethrowS_def)

end
