(* ===== verification/Usk_Record_Io.thy ===== *)
theory Usk_Record_Io
  imports Usk_Store
begin

text \<open>
  Durable records: \<^verbatim>\<open>runtime/base/usk_record_io.cpp\<close> and the stable reader
  \<^verbatim>\<open>runtime/base/usk_stable_file.cpp\<close> (POSIX branches; the write backend that
  \<^verbatim>\<open>ScopedRecordWriteOperations\<close> installs exists on Windows only). Capacity checks of native paths
  do nothing on POSIX.
\<close>

section \<open>Directories\<close>

definition valid_identifier :: "string \<Rightarrow> bool" where
  "valid_identifier value \<longleftrightarrow> value \<noteq> [] \<and> length value \<le> 128 \<and>
    list_all (\<lambda>ch. isalnum ch \<or> ch = CHR ''.'' \<or> ch = CHR ''_'' \<or> ch = CHR ''-'') value"

definition linked :: "world \<Rightarrow> path \<Rightarrow> bool" where
  "linked w p = (case lstat w p of None \<Rightarrow> True | Some (Link _) \<Rightarrow> True | Some _ \<Rightarrow> False)"

definition sync_directory :: "path \<Rightarrow> unit io" where
  "sync_directory p w = (case resolve w True p of
     Some q \<Rightarrow> (requireE (is_dir_entry (entry_at w q) \<and> \<not> w_refuses w Sys_fsync_dir q)
         ''cannot flush durable record directory'', w)
   | None \<Rightarrow> (throwE ''cannot flush durable record directory'', w))"

fun safe_components :: "world \<Rightarrow> path \<Rightarrow> string list \<Rightarrow> unit res" where
  "safe_components w current [] = Inr ()"
| "safe_components w current (component # rest) =
    (let current' = path_append current (element_path component) in
     if \<not> is_directory w current' \<or> linked w current'
     then throwE ''record root crosses a linked or non-directory component''
     else safe_components w current' rest)"

definition require_safe_directory :: "world \<Rightarrow> path \<Rightarrow> unit res" where
  "require_safe_directory w input =
    (if path_empty input then throwE ''record root is not an existing safe directory''
     else let p = lexically_normal (absolute (w_cwd w) input) in
       if \<not> is_directory w p \<or> linked w p then throwE ''record root is not an existing safe directory''
       else safe_components w (Path True []) (elements p))"

definition make_directory :: "path \<Rightarrow> bool io" where
  "make_directory p w = (case resolve w False p of
     Some q \<Rightarrow>
       if entry_at w q = None \<and> is_dir_entry (entry_at w (butlast q)) \<and> \<not> w_refuses w Sys_mkdir q
       then (Inr True, put_entry q (Dir (w_next_ino w)) (w\<lparr>w_next_ino := w_next_ino w + 1\<rparr>))
       else (Inr False, w)
   | None \<Rightarrow> (Inr False, w))"

definition create_directory_exclusive :: "path \<Rightarrow> string \<Rightarrow> unit io" where
  "create_directory_exclusive parent name =
    bindS (liftS (\<lambda>w. require_safe_directory w parent)) (\<lambda>_.
    bindS (guardS (valid_identifier name) ''record directory identifier is invalid'') (\<lambda>_.
    let target = path_append parent (path_of name) in
    bindS (make_directory target) (\<lambda>created.
    bindS (liftS (\<lambda>w. requireE (created \<and> \<not> linked w target) ''cannot exclusively create record directory'')) (\<lambda>_.
    sync_directory parent))))"

section \<open>Writing a new record\<close>

text \<open>
  The replies of \<^verbatim>\<open>write\<close> are a list; its end stands for a call that returns zero or an error
  other than EINTR. A list of replies that is interrupted forever is not a run of the program
  that returns.
\<close>

fun write_loop :: "reply list \<Rightarrow> string \<Rightarrow> string \<Rightarrow> string \<times> bool" where
  "write_loop replies [] written = (written, True)"
| "write_loop [] data written = (written, False)"
| "write_loop (Interrupted # replies) data written = write_loop replies data written"
| "write_loop (Wrote n # replies) data written =
    (if n = 0 then (written, False) else write_loop replies (drop n data) (written @ take n data))"

definition write_new_durable_text :: "path \<Rightarrow> string \<Rightarrow> unit io" where
  "write_new_durable_text p content =
    bindS (liftS (\<lambda>w. require_safe_directory w (parent_path p))) (\<lambda>_ w.
      case resolve w False p of
        None \<Rightarrow> (throwE ''cannot no-clobber create durable record'', w)
      | Some q \<Rightarrow>
          if entry_at w q \<noteq> None \<or> \<not> is_dir_entry (entry_at w (butlast q)) \<or> w_refuses w Sys_create q
          then (throwE ''cannot no-clobber create durable record'', w)
          else (case write_loop (w_writes w q) content [] of (written, complete) \<Rightarrow>
            let w' = put_entry q (File (w_next_ino w) written 1 (w_now w)) (w\<lparr>w_next_ino := w_next_ino w + 1\<rparr>) in
            if \<not> complete then (throwE ''cannot write durable record'', w')
            else if w_refuses w Sys_fsync q then (throwE ''cannot flush durable record'', w')
            else sync_directory (parent_path p) w'))"

section \<open>The stable reader\<close>

text \<open>
  \<^verbatim>\<open>StableFile\<close> makes several observations of the same file; between them other processes may act.
  A reading is the sequence of what the system answered: \<^verbatim>\<open>lstat\<close> of the path, the outcome of
  \<^verbatim>\<open>open\<close> and \<^verbatim>\<open>fstat\<close>, the portions \<^verbatim>\<open>pread\<close> delivered, then \<^verbatim>\<open>fstat\<close> and \<^verbatim>\<open>lstat\<close> once more.
\<close>

record stable_file_identity =
  si_volume_id :: string
  si_file_id :: string
  si_size_bytes :: "64 word"
  si_modified_time_ns :: "64 word"
  si_link_count :: "32 word"

record reading =
  rd_dev :: "64 word"
  rd_lstat :: "entry option"
  rd_open :: bool
  rd_fstat :: "entry option"
  rd_portions :: "string list"
  rd_fstat_after :: "entry option"
  rd_lstat_after :: "entry option"

definition hex_id :: "64 word \<Rightarrow> string" where
  "hex_id value = hex_pad 16 (unat value)"

fun identity_from_stat :: "64 word \<Rightarrow> entry \<Rightarrow> stable_file_identity res" where
  "identity_from_stat dev (File ino content links mtime) =
    (if links \<noteq> 1 then throwE ''multiply linked source archive is not stable enough for planning''
     else Inr \<lparr>si_volume_id = hex_id dev, si_file_id = hex_id ino,
       si_size_bytes = of_nat (length content), si_modified_time_ns = mtime, si_link_count = of_nat links\<rparr>)"
| "identity_from_stat dev _ = throwE ''local archive must be a regular non-link file''"

definition stable_open :: "reading \<Rightarrow> stable_file_identity res" where
  "stable_open r = (case rd_lstat r of
     None \<Rightarrow> throwE ''local archive path is missing or is a symbolic link''
   | Some (Link _) \<Rightarrow> throwE ''local archive path is missing or is a symbolic link''
   | Some path_info \<Rightarrow>
       bindE (identity_from_stat (rd_dev r) path_info) (\<lambda>path_identity.
       bindE (requireE (rd_open r) ''cannot open local archive without following links: '') (\<lambda>_.
       case rd_fstat r of
         None \<Rightarrow> throwE ''cannot inspect local archive handle: ''
       | Some info \<Rightarrow>
           bindE (identity_from_stat (rd_dev r) info) (\<lambda>identity.
           bindE (requireE (path_identity = identity) ''local archive path changed while acquiring its stable handle'')
             (\<lambda>_. Inr identity)))))"

fun read_exact :: "string list \<Rightarrow> nat \<Rightarrow> string res" where
  "read_exact portions 0 = Inr []"
| "read_exact [] (Suc n) = throwE ''cannot read stable local archive: ''"
| "read_exact (portion # portions) (Suc n) =
    (if portion = [] then throwE ''cannot read stable local archive: ''
     else let got = take (Suc n) portion in
       bindE (read_exact portions (Suc n - length got)) (\<lambda>rest. Inr (got @ rest)))"

definition verify_unchanged :: "reading \<Rightarrow> stable_file_identity \<Rightarrow> unit res" where
  "verify_unchanged r identity =
    (case rd_fstat_after r of
       None \<Rightarrow> throwE ''local archive changed through its stable handle''
     | Some current \<Rightarrow>
         bindE (identity_from_stat (rd_dev r) current) (\<lambda>now.
         if now \<noteq> identity then throwE ''local archive changed through its stable handle''
         else (case rd_lstat_after r of
             None \<Rightarrow> throwE ''local archive path was substituted during inspection''
           | Some (Link _) \<Rightarrow> throwE ''local archive path was substituted during inspection''
           | Some path_info \<Rightarrow>
               bindE (identity_from_stat (rd_dev r) path_info) (\<lambda>again.
               if again \<noteq> identity then throwE ''local archive path was substituted during inspection''
               else Inr ()))))"

definition read_stable :: "reading \<Rightarrow> nat \<Rightarrow> string res" where
  "read_stable r max_bytes =
    bindE (stable_open r) (\<lambda>identity.
    if unat (si_size_bytes identity) > max_bytes then throwE ''durable record exceeds read budget''
    else bindE (read_exact (rd_portions r) (unat (si_size_bytes identity))) (\<lambda>text.
      bindE (verify_unchanged r identity) (\<lambda>_. Inr text)))"

text \<open>A reading in a world that nobody else changes meanwhile.\<close>

definition quiet_reading :: "world \<Rightarrow> path \<Rightarrow> reading" where
  "quiet_reading w p = (let e = lstat w (lexically_normal (absolute (w_cwd w) p)) in
     \<lparr>rd_dev = w_dev w, rd_lstat = e,
      rd_open = (case resolve w False (lexically_normal (absolute (w_cwd w) p)) of
         None \<Rightarrow> False | Some q \<Rightarrow> \<not> w_refuses w Sys_open q),
      rd_fstat = e,
      rd_portions = (case e of Some (File _ content _ _) \<Rightarrow> [content] | _ \<Rightarrow> []),
      rd_fstat_after = e, rd_lstat_after = e\<rparr>)"

definition read_stable_text :: "world \<Rightarrow> path \<Rightarrow> nat \<Rightarrow> string res" where
  "read_stable_text w p max_bytes =
    (if path_empty p then throwE ''local archive path cannot be resolved''
     else read_stable (quiet_reading w p) max_bytes)"

section \<open>Moving without replacing\<close>

definition move_entries :: "string list \<Rightarrow> string list \<Rightarrow> world \<Rightarrow> world" where
  "move_entries src dst w = w\<lparr>w_tree := map (\<lambda>(q, e).
     if prefix src q then (dst @ drop (length src) q, e) else (q, e)) (w_tree w)\<rparr>"

definition rename_no_replace :: "path \<Rightarrow> path \<Rightarrow> unit io" where
  "rename_no_replace source target =
    bindS (liftS (\<lambda>w. require_safe_directory w (parent_path source))) (\<lambda>_.
    bindS (liftS (\<lambda>w. require_safe_directory w (parent_path target))) (\<lambda>_ w.
      case (resolve w False source, resolve w False target) of
        (Some s, Some t) \<Rightarrow>
          if s = [] \<or> entry_at w s = None \<or> entry_at w t \<noteq> None \<or> \<not> is_dir_entry (entry_at w (butlast t)) \<or>
             prefix s t \<or> w_refuses w Sys_rename s
          then (throwE ''platform or filesystem lacks a successful no-replace move'', w)
          else (Inr (), move_entries s t w)
      | _ \<Rightarrow> (throwE ''platform or filesystem lacks a successful no-replace move'', w)))"

end
