(* ===== verification/Usk_Record_Laws.thy ===== *)
theory Usk_Record_Laws
  imports Usk_Record_Io
begin

text \<open>
  Laws of the record layer that the repositories rely on: a safe directory resolves to itself, a
  record written without an exception is there with its exact content and nothing else
  changed, a failed write leaves every other entry alone, and a stable reading returns the
  content of the file all its observations agree on.
\<close>

section \<open>Safe directories\<close>

definition safe_dir :: "world \<Rightarrow> string list \<Rightarrow> bool" where
  "safe_dir w d \<longleftrightarrow> list_all plain_name d \<and> (\<forall>k \<le> length d. is_dir_entry (entry_at w (take k d)))"

lemma safe_dir_Nil [simp]: "safe_dir w []"
  by (simp add: safe_dir_def entry_at_def)

lemma safe_dir_snoc:
  "safe_dir w (d @ [c]) \<longleftrightarrow> safe_dir w d \<and> plain_name c \<and> is_dir_entry (entry_at w (d @ [c]))"
  by (auto simp: safe_dir_def le_Suc_eq)

lemma safe_dir_prefix:
  assumes "safe_dir w (d @ e)"
  shows "safe_dir w d"
proof -
  have "is_dir_entry (entry_at w (take k d))" if "k \<le> length d" for k
  proof -
    have "k \<le> length (d @ e)" using that by simp
    then have "is_dir_entry (entry_at w (take k (d @ e)))" using assms unfolding safe_dir_def by blast
    with that show ?thesis by simp
  qed
  with assms show ?thesis by (simp add: safe_dir_def)
qed

lemma safe_dir_entry: "safe_dir w d \<Longrightarrow> is_dir_entry (entry_at w d)"
  unfolding safe_dir_def by (metis order_refl take_all_iff)

lemma is_dir_entryE: "is_dir_entry e \<Longrightarrow> (\<And>i. e = Some (Dir i) \<Longrightarrow> P) \<Longrightarrow> P"
  by (cases e rule: is_dir_entry.cases) auto

lemma walk_Nil [simp]: "walk w follow fuel base [] = Some base"
  by (subst walk.simps) simp

lemma walk_blank: "c = [] \<or> c = ''.'' \<Longrightarrow> walk w follow fuel base (c # cs) = walk w follow fuel base cs"
  by (subst walk.simps) simp

lemma walk_dir:
  "plain_name c \<Longrightarrow> is_dir_entry (entry_at w (base @ [c])) \<Longrightarrow>
    walk w follow fuel base (c # cs) = walk w follow fuel (base @ [c]) cs"
  by (subst walk.simps) (auto simp: plain_name_def elim: is_dir_entryE)

lemma walk_last:
  "plain_name c \<Longrightarrow> (\<forall>t. entry_at w (base @ [c]) \<noteq> Some (Link t)) \<or> \<not> follow \<Longrightarrow>
    walk w follow fuel base [c] = Some (base @ [c])"
  by (subst walk.simps) (auto simp: plain_name_def split: option.splits entry.splits)

lemma walk_safe: "safe_dir w d \<Longrightarrow> walk w follow fuel [] (d @ cs) = walk w follow fuel d cs"
proof (induction d arbitrary: cs rule: rev_induct)
  case (snoc c d)
  then show ?case using snoc.IH [of "c # cs"] by (simp add: safe_dir_snoc walk_dir)
qed simp

lemma resolve_child:
  assumes "safe_dir w d" "plain_name c"
  shows "resolve w False (Path True (d @ [c])) = Some (d @ [c])"
  using walk_safe [OF assms(1), of False 40 "[c]"] walk_last [OF assms(2), of w d False 40]
  by (simp add: resolve_def)

lemma resolve_safe: "safe_dir w d \<Longrightarrow> t = [] \<or> t = [[]] \<Longrightarrow> resolve w follow (Path True (d @ t)) = Some d"
  using walk_safe [of w d follow 40 t] by (auto simp: resolve_def walk_blank)

lemma lstat_child:
  "safe_dir w d \<Longrightarrow> plain_name c \<Longrightarrow> lstat w (Path True (d @ [c])) = entry_at w (d @ [c])"
  by (simp add: lstat_def path_empty_def resolve_child)

lemma stat_child:
  assumes "safe_dir w d" "plain_name c" "\<forall>l. entry_at w (d @ [c]) \<noteq> Some (Link l)"
  shows "stat w (Path True (d @ [c])) = entry_at w (d @ [c])"
  using walk_safe [OF assms(1), of True 40 "[c]"] walk_last [OF assms(2), of w d True 40] assms(3)
  by (simp add: stat_def resolve_def path_empty_def)

lemma safe_not_linked:
  assumes "safe_dir w d" "t = [] \<or> t = [[]]"
  shows "is_directory w (Path True (d @ t))" "\<not> linked w (Path True (d @ t))"
  using assms safe_dir_entry [OF assms(1)]
  by (auto simp: is_directory_def linked_def stat_def lstat_def path_empty_def resolve_safe
      elim!: is_dir_entryE)

lemma child_directory:
  assumes "safe_dir w d" "plain_name c"
  shows "is_directory w (Path True (d @ [c])) \<and> \<not> linked w (Path True (d @ [c])) \<longleftrightarrow> safe_dir w (d @ [c])"
proof
  assume *: "is_directory w (Path True (d @ [c])) \<and> \<not> linked w (Path True (d @ [c]))"
  then have nl: "entry_at w (d @ [c]) \<noteq> Some (Link t)" for t
    by (auto simp: linked_def lstat_child [OF assms])
  have "resolve w True (Path True (d @ [c])) = Some (d @ [c])"
    using walk_safe [OF assms(1), of True 40 "[c]"] walk_last [OF assms(2), of w d True 40] nl
    by (simp add: resolve_def)
  then have "is_dir_entry (entry_at w (d @ [c]))"
    using * by (simp add: is_directory_def stat_def path_empty_def)
  with assms show "safe_dir w (d @ [c])" by (simp add: safe_dir_snoc)
next
  assume "safe_dir w (d @ [c])"
  from safe_not_linked [OF this, of "[]"] show "is_directory w (Path True (d @ [c])) \<and> \<not> linked w (Path True (d @ [c]))"
    by simp
qed

lemma plain_last: "list_all plain_name d \<Longrightarrow> strip_trailing d = d"
  by (cases d rule: rev_cases) (auto simp: strip_trailing_def plain_name_def)

lemma append_element: "list_all plain_name d \<Longrightarrow> plain_name c \<Longrightarrow>
    path_append (Path r d) (element_path c) = Path r (d @ [c])"
  by (simp add: path_append_def element_path_def plain_last path_empty_def plain_name_def)

lemma safe_components_iff:
  assumes "safe_dir w d" "list_all plain_name cs" "t = [] \<or> t = [[]]"
  shows "safe_components w (Path True d) (cs @ t) = Inr () \<longleftrightarrow> safe_dir w (d @ cs)"
  using assms
proof (induction cs arbitrary: d)
  case Nil
  have plain: "list_all plain_name d" using Nil by (simp add: safe_dir_def)
  have "path_append (Path True d) (element_path []) = Path True (d @ (if d = [] then [] else [[]]))"
    using plain by (cases d rule: rev_cases) (auto simp: path_append_def element_path_def path_empty_def plain_name_def)
  then show ?case
    using Nil safe_not_linked [OF Nil.prems(1), of "if d = [] then [] else [[]]"] by auto
next
  case (Cons c cs)
  have plain: "list_all plain_name d" using Cons by (simp add: safe_dir_def)
  have c: "plain_name c" using Cons by simp
  have "safe_dir w (d @ c # cs) \<Longrightarrow> safe_dir w (d @ [c])"
    using safe_dir_prefix [of w "d @ [c]" cs] by simp
  with Cons.IH [of "d @ [c]"] Cons.prems child_directory [OF Cons.prems(1) c] append_element [OF plain c]
  show ?case by (cases "safe_dir w (d @ [c])") auto
qed

lemma require_safe_directory_iff:
  assumes "is_absolute p"
  shows "require_safe_directory w p = Inr () \<longleftrightarrow> safe_dir w (normal_names p)"
proof -
  obtain t where t: "lexically_normal p = Path True (normal_names p @ t)" "t = [] \<or> t = [[]]"
    "list_all plain_name (normal_names p)" using assms by (rule lexically_normal_absolute)
  have "\<not> path_empty p" "absolute (w_cwd w) p = p" using assms by (simp_all add: path_empty_def absolute_def)
  then have eq: "require_safe_directory w p =
      (if \<not> is_directory w (Path True (normal_names p @ t)) \<or> linked w (Path True (normal_names p @ t))
       then throwE ''record root is not an existing safe directory''
       else safe_components w (Path True []) (normal_names p @ t))"
    by (simp add: require_safe_directory_def t(1))
  have "safe_components w (Path True []) (normal_names p @ t) = Inr () \<longleftrightarrow> safe_dir w (normal_names p)"
    using safe_components_iff [OF safe_dir_Nil t(3,2)] by simp
  with eq safe_not_linked [OF _ t(2)] show ?thesis by (cases "safe_dir w (normal_names p)") auto
qed

lemma normal_names_plain: "list_all plain_name d \<Longrightarrow> normal_names (Path True d) = d"
  "list_all plain_name d \<Longrightarrow> lexically_normal (Path True d) = Path True d"
  by (auto simp: normal_names_def lexically_normal_def path_empty_def normal_loop_plain plain_last)

lemma require_safe_plain: "list_all plain_name d \<Longrightarrow> require_safe_directory w (Path True d) = Inr () \<longleftrightarrow> safe_dir w d"
  using require_safe_directory_iff [of "Path True d" w] by (simp add: normal_names_plain)

lemma parent_plain [simp]: "parent_path (Path r (d @ [c])) = Path r d"
  by (simp add: parent_path_def)

section \<open>Writing\<close>

lemma write_loop_complete: "write_loop replies data written = (out, True) \<Longrightarrow> out = written @ data"
  by (induction replies data written rule: write_loop.induct) (auto split: if_splits)

lemma write_loop_prefix: "write_loop replies data written = (out, ok) \<Longrightarrow> prefix out (written @ data)"
proof (induction replies data written rule: write_loop.induct)
  case (4 n replies c cs written)
  then show ?case by (auto simp: prefix_def split: if_splits)
qed auto

definition new_file :: "string list \<Rightarrow> string \<Rightarrow> world \<Rightarrow> world" where
  "new_file q content w =
    put_entry q (File (w_next_ino w) content 1 (w_now w)) (w\<lparr>w_next_ino := w_next_ino w + 1\<rparr>)"

lemma entry_at_ino [simp]: "entry_at (w\<lparr>w_next_ino := i\<rparr>) = entry_at w"
  by (simp add: entry_at_def fun_eq_iff)

lemma entry_at_new_file [simp]:
  "q \<noteq> [] \<Longrightarrow> entry_at (new_file q content w) r =
    (if r = q then Some (File (w_next_ino w) content 1 (w_now w)) else entry_at w r)"
  by (simp add: new_file_def entry_at_put)

lemma sync_directory_world: "snd (sync_directory p w) = w"
  by (simp add: sync_directory_def split: option.splits)

lemma write_new_unsafe:
  assumes "list_all plain_name d" "\<not> safe_dir w d"
  obtains e where "write_new_durable_text (Path True (d @ [c])) content w = (Inl e, w)"
proof -
  obtain e where "require_safe_directory w (Path True d) = Inl e"
    using require_safe_plain [OF assms(1), of w] assms(2)
    by (cases "require_safe_directory w (Path True d)") auto
  then have "write_new_durable_text (Path True (d @ [c])) content w = (Inl e, w)"
    by (simp add: write_new_durable_text_def)
  then show ?thesis by (rule that)
qed

lemma write_new_safe:
  assumes "safe_dir w d" "plain_name c"
  shows "write_new_durable_text (Path True (d @ [c])) content w =
    (if entry_at w (d @ [c]) \<noteq> None \<or> w_refuses w Sys_create (d @ [c])
     then (throwE ''cannot no-clobber create durable record'', w)
     else (case write_loop (w_writes w (d @ [c])) content [] of (written, complete) \<Rightarrow>
       if \<not> complete then (throwE ''cannot write durable record'', new_file (d @ [c]) written w)
       else if w_refuses w Sys_fsync (d @ [c])
       then (throwE ''cannot flush durable record'', new_file (d @ [c]) written w)
       else sync_directory (Path True d) (new_file (d @ [c]) written w)))"
proof -
  have "require_safe_directory w (Path True d) = Inr ()"
    using assms require_safe_plain by (simp add: safe_dir_def)
  then show ?thesis
    using resolve_child [OF assms] safe_dir_entry [OF assms(1)]
    by (cases "write_loop (w_writes w (d @ [c])) content []") (simp add: write_new_durable_text_def new_file_def Let_def)
qed

lemma write_new_world:
  assumes "list_all plain_name d" "plain_name c"
    and "write_new_durable_text (Path True (d @ [c])) content w = (r, w')"
  shows "w' = w \<or> safe_dir w d \<and> entry_at w (d @ [c]) = None \<and> (\<exists>out. prefix out content \<and> w' = new_file (d @ [c]) out w)"
proof (cases "safe_dir w d")
  case False
  with assms show ?thesis by (metis write_new_unsafe prod.inject)
next
  case True
  obtain out ok where loop: "write_loop (w_writes w (d @ [c])) content [] = (out, ok)" by force
  have w': "sync_directory (Path True d) (new_file (d @ [c]) out w) = (r, w') \<Longrightarrow> w' = new_file (d @ [c]) out w"
    using sync_directory_world [of "Path True d" "new_file (d @ [c]) out w"] by simp
  have "prefix out content" using write_loop_prefix [OF loop] by simp
  with assms(3) True w' show ?thesis
    by (auto simp: write_new_safe [OF True assms(2)] loop split: if_splits)
qed

lemma write_new_ok:
  assumes "list_all plain_name d" "plain_name c"
    and "write_new_durable_text (Path True (d @ [c])) content w = (Inr (), w')"
  shows "safe_dir w d" "entry_at w (d @ [c]) = None" "w' = new_file (d @ [c]) content w"
proof -
  show safe: "safe_dir w d" using assms by (metis write_new_unsafe prod.inject sum.distinct(1))
  obtain out ok where loop: "write_loop (w_writes w (d @ [c])) content [] = (out, ok)" by force
  note eq = assms(3) [unfolded write_new_safe [OF safe assms(2)] loop]
  then show "entry_at w (d @ [c]) = None" by (auto simp: throwE_def split: if_splits)
  from eq have ok: "ok" and sync: "sync_directory (Path True d) (new_file (d @ [c]) out w) = (Inr (), w')"
    by (auto simp: throwE_def split: if_splits)
  have "out = content" using write_loop_complete loop ok by fastforce
  with sync show "w' = new_file (d @ [c]) content w"
    using sync_directory_world [of "Path True d" "new_file (d @ [c]) out w"] by simp
qed

lemma write_loop_progress:
  "list_all (\<lambda>a. a \<noteq> Wrote 0) replies \<Longrightarrow> length data \<le> length (filter (\<lambda>a. a \<noteq> Interrupted) replies) \<Longrightarrow>
    write_loop replies data written = (written @ data, True)"
proof (induction replies data written rule: write_loop.induct)
  case (4 n replies c cs written)
  have "length (drop n (c # cs)) \<le> length (filter (\<lambda>a. a \<noteq> Interrupted) replies)"
    using 4 by (cases n) auto
  with 4 show ?case by simp
qed auto

section \<open>Reading\<close>

lemma read_exact_length: "read_exact portions n = Inr out \<Longrightarrow> length out = n"
proof (induction portions n arbitrary: out rule: read_exact.induct)
  case (3 portion portions n)
  let ?got = "take (Suc n) portion"
  obtain rest where rest: "read_exact portions (Suc n - length ?got) = Inr rest" "out = ?got @ rest" "portion \<noteq> []"
    using "3.prems" by (auto simp: bindE_eq_Inr Let_def simp del: take_Suc length_take split: if_splits)
  with 3 have "length rest = Suc n - length ?got" by blast
  with rest(2) show ?case by simp
qed simp_all

lemma read_exact_single: "length content = n \<Longrightarrow> read_exact [content] n = Inr content"
  by (cases n) auto

lemma identity_from_stat_Inr:
  "identity_from_stat dev e = Inr i \<longleftrightarrow> (\<exists>ino content mtime. e = File ino content 1 mtime \<and>
    i = \<lparr>si_volume_id = hex_id dev, si_file_id = hex_id ino, si_size_bytes = of_nat (length content),
      si_modified_time_ns = mtime, si_link_count = 1\<rparr>)"
  by (cases e) auto

lemma read_stable_quiet:
  assumes "rd_lstat r = Some (File ino content 1 mtime)" "rd_fstat r = rd_lstat r" "rd_open r"
    and "rd_fstat_after r = rd_lstat r" "rd_lstat_after r = rd_lstat r" "rd_portions r = [content]"
    and "length content \<le> max_bytes" "length content < 2 ^ 64"
  shows "read_stable r max_bytes = Inr content"
proof -
  have "unat (of_nat (length content) :: 64 word) = length content"
    using assms(8) by (simp add: unat_of_nat take_bit_nat_eq_self)
  with assms show ?thesis
    by (simp add: read_stable_def stable_open_def verify_unchanged_def read_exact_single)
qed

lemma quiet_reading_child:
  assumes "safe_dir w d" "plain_name c"
  shows "quiet_reading w (Path True (d @ [c])) =
    (let e = entry_at w (d @ [c]) in
     \<lparr>rd_dev = w_dev w, rd_lstat = e, rd_open = (\<not> w_refuses w Sys_open (d @ [c])), rd_fstat = e,
      rd_portions = (case e of Some (File _ content _ _) \<Rightarrow> [content] | _ \<Rightarrow> []),
      rd_fstat_after = e, rd_lstat_after = e\<rparr>)"
proof -
  have "list_all plain_name (d @ [c])" using assms by (simp add: safe_dir_def)
  then have "lexically_normal (Path True (d @ [c])) = Path True (d @ [c])"
    by (rule normal_names_plain)
  then show ?thesis
    using assms by (simp add: quiet_reading_def absolute_def lstat_child resolve_child)
qed

lemma read_stable_text_child:
  assumes "safe_dir w d" "plain_name c" "entry_at w (d @ [c]) = Some (File ino content 1 mtime)"
    and "\<not> w_refuses w Sys_open (d @ [c])" "length content \<le> max_bytes" "length content < 2 ^ 64"
  shows "read_stable_text w (Path True (d @ [c])) max_bytes = Inr content"
proof -
  have "read_stable (quiet_reading w (Path True (d @ [c]))) max_bytes = Inr content"
    by (rule read_stable_quiet) (use assms in \<open>simp_all add: quiet_reading_child Let_def\<close>)
  then show ?thesis by (simp add: read_stable_text_def path_empty_def)
qed

lemma read_stable_text_frame:
  assumes "safe_dir w d" "safe_dir w' d" "plain_name c" "entry_at w' (d @ [c]) = entry_at w (d @ [c])"
    and "w_dev w' = w_dev w" "w_refuses w' = w_refuses w"
  shows "read_stable_text w' (Path True (d @ [c])) max_bytes = read_stable_text w (Path True (d @ [c])) max_bytes"
  using assms by (simp add: read_stable_text_def quiet_reading_child)

lemma new_file_fields [simp]:
  "w_dev (new_file q content w) = w_dev w" "w_refuses (new_file q content w) = w_refuses w"
  "w_cwd (new_file q content w) = w_cwd w" "w_order (new_file q content w) = w_order w"
  "w_writes (new_file q content w) = w_writes w"
  by (simp_all add: new_file_def put_entry_def)

lemma safe_dir_new_file:
  assumes "safe_dir w d" "entry_at w q = None" "q \<noteq> []"
  shows "safe_dir (new_file q content w) d"
proof -
  have "is_dir_entry (entry_at (new_file q content w) (take k d))" if "k \<le> length d" for k
  proof -
    have "is_dir_entry (entry_at w (take k d))" using assms(1) that unfolding safe_dir_def by blast
    then show ?thesis using assms(2,3) by (cases "take k d = q") simp_all
  qed
  then show ?thesis using assms(1) by (simp add: safe_dir_def)
qed

lemma write_new_completes:
  assumes "safe_dir w d" "plain_name c" "entry_at w (d @ [c]) = None"
    and "\<not> w_refuses w Sys_create (d @ [c])" "\<not> w_refuses w Sys_fsync (d @ [c])" "\<not> w_refuses w Sys_fsync_dir d"
    and "list_all (\<lambda>a. a \<noteq> Wrote 0) (w_writes w (d @ [c]))"
    and "length content \<le> length (filter (\<lambda>a. a \<noteq> Interrupted) (w_writes w (d @ [c])))"
  shows "write_new_durable_text (Path True (d @ [c])) content w = (Inr (), new_file (d @ [c]) content w)"
proof -
  have safe: "safe_dir (new_file (d @ [c]) content w) d" using assms(1,3) by (rule safe_dir_new_file) simp
  have "sync_directory (Path True d) (new_file (d @ [c]) content w) = (Inr (), new_file (d @ [c]) content w)"
    using resolve_safe [OF safe, of "[]" True] safe_dir_entry [OF assms(1)] assms(6)
    by (simp add: sync_directory_def)
  then show ?thesis
    using assms write_loop_progress [OF assms(7,8), of "[]"] by (simp add: write_new_safe)
qed

section \<open>The record layer as an append-only store\<close>

text \<open>
  What the repositories rely on: a successful write of a new key is readable, it never
  replaces a record, and no write, successful or not, disturbs another record.
\<close>

locale record_store =
  fixes valid :: "'k \<Rightarrow> bool"
    and put :: "'k \<Rightarrow> string \<Rightarrow> 's \<Rightarrow> unit res \<times> 's"
    and get :: "'s \<Rightarrow> 'k \<Rightarrow> string option"
  assumes put_get: "valid k \<Longrightarrow> put k x s = (Inr (), s') \<Longrightarrow> get s' k = Some x"
    and put_keeps: "valid k \<Longrightarrow> get s k = Some y \<Longrightarrow> put k x s = (r, s') \<Longrightarrow> r \<noteq> Inr () \<and> get s' k = Some y"
    and put_frame: "valid k \<Longrightarrow> valid k' \<Longrightarrow> k' \<noteq> k \<Longrightarrow> put k x s = (r, s') \<Longrightarrow> get s' k' = get s k'"
begin

lemma put_stable: "valid k \<Longrightarrow> valid k' \<Longrightarrow> get s k' = Some y \<Longrightarrow> get (snd (put k x s)) k' = Some y"
  by (cases "k' = k") (metis put_keeps prod.collapse, metis put_frame prod.collapse)

lemma puts_stable:
  "list_all (\<lambda>(k, x). valid k) ops \<Longrightarrow> valid k' \<Longrightarrow> get s k' = Some y \<Longrightarrow>
    get (fold (\<lambda>(k, x) s. snd (put k x s)) ops s) k' = Some y"
  by (induction ops arbitrary: s) (auto simp: put_stable)

lemma put_then_puts:
  "valid k \<Longrightarrow> put k x s = (Inr (), s') \<Longrightarrow> list_all (\<lambda>(k, x). valid k) ops \<Longrightarrow>
    get (fold (\<lambda>(k, x) s. snd (put k x s)) ops s') k = Some x"
  by (rule puts_stable) (auto intro: put_get)

end

definition record_key :: "string list \<times> string \<Rightarrow> bool" where
  "record_key k \<longleftrightarrow> list_all plain_name (fst k) \<and> plain_name (snd k)"

definition write_record :: "string list \<times> string \<Rightarrow> string \<Rightarrow> unit io" where
  "write_record k = write_new_durable_text (Path True (fst k @ [snd k]))"

definition record_at :: "world \<Rightarrow> string list \<times> string \<Rightarrow> string option" where
  "record_at w k = (case entry_at w (fst k @ [snd k]) of Some (File _ content _ _) \<Rightarrow> Some content | _ \<Rightarrow> None)"

interpretation durable: record_store record_key write_record record_at
proof
  fix k x y r and w w' :: world and k' :: "string list \<times> string"
  assume k: "record_key k"
  show "record_at w' k = Some x" if "write_record k x w = (Inr (), w')"
    using write_new_ok(3) [of "fst k" "snd k" x w w'] k that
    by (simp add: record_key_def write_record_def record_at_def)
  show "r \<noteq> Inr () \<and> record_at w' k = Some y" if "record_at w k = Some y" "write_record k x w = (r, w')"
  proof -
    have "entry_at w (fst k @ [snd k]) \<noteq> None" using that(1) by (auto simp: record_at_def split: option.splits)
    then show ?thesis
      using write_new_world [of "fst k" "snd k" x w r w'] write_new_ok(2) [of "fst k" "snd k" x w w'] k that
      by (auto simp: record_key_def write_record_def)
  qed
  show "record_at w' k' = record_at w k'" if "k' \<noteq> k" "write_record k x w = (r, w')"
  proof -
    have "entry_at w' (fst k' @ [snd k']) = entry_at w (fst k' @ [snd k'])"
      using write_new_world [of "fst k" "snd k" x w r w'] k that
      by (auto simp: record_key_def write_record_def prod_eq_iff)
    then show ?thesis by (simp add: record_at_def)
  qed
qed

section \<open>Properties\<close>

text \<open>
  C24. A record root is accepted exactly when its path, made absolute and normalised, names a
  directory all of whose ancestors are directories too, none of them a symbolic link.
\<close>

theorem require_safe_directory_spec:
  "require_safe_directory w p = Inr () \<longleftrightarrow>
    \<not> path_empty p \<and> safe_dir w (normal_names (absolute (w_cwd w) p))"
proof (cases "path_empty p")
  case False
  have abs: "is_absolute (absolute (w_cwd w) p)" by (simp add: absolute_def path_append_def)
  then have "\<not> path_empty (absolute (w_cwd w) p)" "absolute (w_cwd w) (absolute (w_cwd w) p) = absolute (w_cwd w) p"
    by (simp_all add: path_empty_def absolute_def [of _ "absolute _ _"])
  then have "require_safe_directory w (absolute (w_cwd w) p) = require_safe_directory w p"
    using False by (simp add: require_safe_directory_def)
  with require_safe_directory_iff [OF abs, of w] False show ?thesis by simp
qed (simp add: require_safe_directory_def)



text \<open>
  C19. A record that was written without an exception is new, reads back with its exact bytes, and
  no other entry of the file system differs from before.
\<close>

theorem written_record_reads_back:
  assumes "list_all plain_name d" "plain_name c"
    and "write_new_durable_text (Path True (d @ [c])) content w = (Inr (), w')"
    and "length content \<le> max_bytes" "length content < 2 ^ 64" "\<not> w_refuses w Sys_open (d @ [c])"
  shows "entry_at w (d @ [c]) = None \<and> read_stable_text w' (Path True (d @ [c])) max_bytes = Inr content \<and>
    entry_at w' = (entry_at w)(d @ [c] := entry_at w' (d @ [c]))"
proof -
  note ok = write_new_ok [OF assms(1-3)]
  have "read_stable_text w' (Path True (d @ [c])) max_bytes = Inr content"
    using assms ok safe_dir_new_file [OF ok(1,2)] by (intro read_stable_text_child) auto
  with ok show ?thesis by auto
qed

definition small_world :: world where
  "small_world = \<lparr>w_tree = [([''srv''], Dir 1)], w_dev = 1, w_cwd = [], w_next_ino = 2, w_now = 5, w_clock = [],
     w_order = id, w_refuses = (\<lambda>_ _. False), w_writes = (\<lambda>_. [Interrupted, Wrote 2, Wrote 9])\<rparr>"

theorem written_record_reads_back_witness:
  "read_stable_text (snd (write_new_durable_text (path_of ''/srv/r'') ''hello'' small_world)) (path_of ''/srv/r'') 16 = Inr ''hello''"
proof -
  have "path_of ''/srv/r'' = Path True ([''srv''] @ [''r''])" by code_simp
  moreover have "fst (write_new_durable_text (path_of ''/srv/r'') ''hello'' small_world) = Inr ()" by code_simp
  ultimately show ?thesis
    using written_record_reads_back [of "[''srv'']" "''r''" "''hello''" small_world
      "snd (write_new_durable_text (path_of ''/srv/r'') ''hello'' small_world)" 16]
    by (auto simp: plain_name_def prod_eq_iff small_world_def)
qed

text \<open>
  C21. A write that fails leaves the file system as it was, or with one additional file at the
  target whose content is a prefix of what was to be written. It never touches an existing entry.
\<close>

theorem failed_write_confined:
  assumes "list_all plain_name d" "plain_name c"
    and "write_new_durable_text (Path True (d @ [c])) content w = (Inl e, w')"
  shows "w' = w \<or> entry_at w (d @ [c]) = None \<and> (\<exists>ino out mtime. prefix out content \<and>
    entry_at w' = (entry_at w)(d @ [c] \<mapsto> File ino out 1 mtime))"
  using write_new_world [OF assms] by (force simp: fun_eq_iff)

theorem failed_write_confined_witness:
  "write_new_durable_text (path_of ''/srv/r'') ''hello again'' (small_world\<lparr>w_writes := \<lambda>_. [Wrote 5]\<rparr>) =
     (throwE ''cannot write durable record'',
      snd (write_new_durable_text (path_of ''/srv/r'') ''hello again'' (small_world\<lparr>w_writes := \<lambda>_. [Wrote 5]\<rparr>))) \<and>
   (let w = small_world\<lparr>w_writes := \<lambda>_. [Wrote 5]\<rparr>; w' = snd (write_new_durable_text (path_of ''/srv/r'') ''hello again'' w) in
    w' = w \<or> entry_at w [''srv'', ''r''] = None \<and> (\<exists>ino out mtime. prefix out ''hello again'' \<and>
      entry_at w' = (entry_at w)([''srv'', ''r''] \<mapsto> File ino out 1 mtime)))"
  (is "?write = (_, ?w') \<and> _")
proof -
  have p: "path_of ''/srv/r'' = Path True ([''srv''] @ [''r''])" by code_simp
  have "fst ?write = throwE ''cannot write durable record''" by code_simp
  then have w: "?write = (throwE ''cannot write durable record'', ?w')" by (simp add: prod_eq_iff)
  show ?thesis
    using failed_write_confined [of "[''srv'']" "''r''", folded p, OF _ _ w [unfolded throwE_def]] w
    by (simp add: plain_name_def Let_def)
qed

text \<open>
  C22. A write into a safe directory succeeds whenever the target is absent, the system refuses
  none of the four calls, and the writes make progress: interrupted calls are retried and short
  writes are continued until every byte is written.
\<close>

theorem record_write_completes:
  assumes "safe_dir w d" "plain_name c" "entry_at w (d @ [c]) = None"
    and "\<not> w_refuses w Sys_create (d @ [c])" "\<not> w_refuses w Sys_fsync (d @ [c])" "\<not> w_refuses w Sys_fsync_dir d"
    and "list_all (\<lambda>a. a \<noteq> Wrote 0) (w_writes w (d @ [c]))"
    and "length content \<le> length (filter (\<lambda>a. a \<noteq> Interrupted) (w_writes w (d @ [c])))"
  shows "write_new_durable_text (Path True (d @ [c])) content w = (Inr (), new_file (d @ [c]) content w)"
  using assms by (rule write_new_completes)

theorem record_write_completes_witness:
  "fst (write_new_durable_text (path_of ''/srv/r'') ''hi'' small_world) = Inr ()"
proof -
  have "path_of ''/srv/r'' = Path True ([''srv''] @ [''r''])" by code_simp
  moreover have "safe_dir small_world [''srv'']"
    by (simp add: safe_dir_def small_world_def plain_name_def entry_at_def le_Suc_eq)
  ultimately show ?thesis
    using record_write_completes [of small_world "[''srv'']" "''r''" "''hi''"]
    by (simp add: small_world_def plain_name_def entry_at_def)
qed

text \<open>
  C20. The record layer is append-only: once a record is written, no sequence of later writes,
  successful or failed, to whatever record names, changes or removes it.
\<close>

theorem records_append_only:
  assumes "record_key k" "write_record k x w = (Inr (), w')" "list_all (\<lambda>(k, x). record_key k) ops"
  shows "record_at (fold (\<lambda>(k, x) w. snd (write_record k x w)) ops w') k = Some x"
  using assms by (rule durable.put_then_puts)

theorem records_append_only_witness:
  "record_at (fold (\<lambda>(k, x) w. snd (write_record k x w)) [(([''srv''], ''r''), ''other''), (([''srv''], ''s''), ''b'')]
     (snd (write_record ([''srv''], ''r'') ''a'' small_world))) ([''srv''], ''r'') = Some ''a''"
proof -
  have "fst (write_record ([''srv''], ''r'') ''a'' small_world) = Inr ()" by code_simp
  then have "write_record ([''srv''], ''r'') ''a'' small_world =
      (Inr (), snd (write_record ([''srv''], ''r'') ''a'' small_world))" by (simp add: prod_eq_iff)
  then show ?thesis
    by (rule records_append_only [rotated]) (simp_all add: record_key_def plain_name_def)
qed

end
