(* ===== verification/Usk_Repository.thy ===== *)
theory Usk_Repository
  imports Usk_Documents Usk_Record_Laws
begin

text \<open>
  What the audit and state repositories share: reading string members, the root a repository object
  keeps, paths built from identifiers, strings that are sure to be accepted when read back, and
  directory listings in whatever order the system gives them.
\<close>

section \<open>Operations\<close>

definition string_at :: "jvalue \<Rightarrow> string \<Rightarrow> string res" where
  "string_at v key = bindE (jat v key) as_string"

text \<open>The constructors of the repositories normalise the root and check it.\<close>

definition repository_at :: "world \<Rightarrow> path \<Rightarrow> path res" where
  "repository_at w input =
    (let root = lexically_normal (absolute (w_cwd w) input) in
     bindE (require_safe_directory w root) (\<lambda>_. Inr root))"

section \<open>Paths of records\<close>

lemma split_no_slash: "CHR ''/'' \<notin> set s \<Longrightarrow> split_slash acc s = [acc @ s]"
  by (induction s arbitrary: acc) auto

lemma path_of_name:
  assumes "s \<noteq> []" "slash \<notin> set s"
  shows "path_of s = Path False [s]"
proof -
  have "hd s \<noteq> slash" "last s \<noteq> slash" using assms by (metis hd_in_set, metis last_in_set)
  with assms show ?thesis by (simp add: path_of_def split_no_slash)
qed

lemma path_of_identifier: "valid_identifier s \<Longrightarrow> path_of s = Path False [s]"
proof -
  assume id: "valid_identifier s"
  have "\<not> (isalnum slash \<or> slash = CHR ''.'' \<or> slash = CHR ''_'' \<or> slash = CHR ''-'')"
    by (simp add: isalnum_def isdigit_def)
  with id have "slash \<notin> set s" unfolding valid_identifier_def list_all_iff by blast
  with id show ?thesis by (intro path_of_name) (simp_all add: valid_identifier_def)
qed

lemma append_name:
  assumes "list_all plain_name d" "t = [] \<or> t = [[]]"
  shows "path_append (Path True (d @ t)) (Path False [c]) = Path True (d @ [c])"
  using assms plain_last [OF assms(1)] by (auto simp: path_append_def path_empty_def strip_trailing_def)

lemma repository_root:
  assumes "repository_at w p = Inr root"
  obtains d t where "root = Path True (d @ t)" "t = [] \<or> t = [[]]" "list_all plain_name d"
proof -
  have "is_absolute (absolute (w_cwd w) p)" by (simp add: absolute_def path_append_def)
  from lexically_normal_absolute [OF this] assms that show thesis
    by (auto simp: repository_at_def Let_def bindE_eq_Inr)
qed

section \<open>Strings of records\<close>

lemma valid_identifier_ok [simp]: "valid_identifier s \<Longrightarrow> string_ok default_limits s"
  by (auto simp: valid_identifier_def string_ok_def default_limits_def
      elim!: list.pred_mono_strong intro!: valid_utf8_ascii identifier_char_ascii)

lemma string_ok_Nil [simp]: "string_ok L []"
  by (simp add: string_ok_def)

lemma string_ok_lit: "list_all (\<lambda>c. byte c \<le> 0x7f) s \<Longrightarrow> length s \<le> 1024 \<Longrightarrow> string_ok default_limits s"
  by (simp add: string_ok_def default_limits_def valid_utf8_ascii)

section \<open>Directory listings\<close>

definition fair_order :: "world \<Rightarrow> bool" where
  "fair_order w \<longleftrightarrow> (\<forall>xs. mset (w_order w xs) = mset xs)"

lemma children_new_file:
  assumes "entry_at w (d @ [c]) = None"
  shows "children (new_file (d @ [c]) content w) d = c # children w d"
proof -
  have "d @ [c] \<notin> fst ` set (w_tree w)" using assms by (simp add: entry_at_def map_of_eq_None_iff)
  then have "filter (\<lambda>(q, _). q \<noteq> d @ [c]) (w_tree w) = w_tree w" by (intro filter_True) force
  then show ?thesis by (simp add: children_def new_file_def put_entry_def)
qed

lemma read_stable_text_decides:
  assumes "safe_dir w d" "plain_name c" "entry_at w (d @ [c]) = Some (File ino content 1 mtime)"
    and "\<not> w_refuses w Sys_open (d @ [c])" "length content < 2 ^ 64"
  shows "decides (read_stable_text w (Path True (d @ [c])) limit) (length content \<le> limit) content"
proof (cases "length content \<le> limit")
  case True
  then show ?thesis using assms by (simp add: decides_def read_stable_text_child)
next
  case False
  have "unat (of_nat (length content) :: 64 word) = length content"
    using assms(5) by (simp add: unat_of_nat take_bit_nat_eq_self)
  with False assms show ?thesis
    by (simp add: decides_def read_stable_text_def path_empty_def quiet_reading_child Let_def read_stable_def stable_open_def)
qed

lemma insort_key_map: "insort_key f (g x) (map g xs) = map g (insort_key (\<lambda>x. f (g x)) x xs)"
  by (induction xs) auto

lemma sort_key_map: "sort_key f (map g xs) = map g (sort_key (\<lambda>x. f (g x)) xs)"
  by (induction xs) (auto simp: insort_key_map)

lemma sort_key_mono:
  assumes "\<And>x y. f x \<le> f y \<longleftrightarrow> x \<le> (y :: 'a :: linorder)"
  shows "sort_key f xs = sort xs"
proof -
  have "insort_key f x ys = insort x ys" for x ys using assms by (induction ys) auto
  then show ?thesis by (induction xs) auto
qed

lemma sort_mset_cong: "mset xs = mset ys \<Longrightarrow> sort xs = sort (ys :: 'a :: linorder list)"
  by (metis mset_sort properties_for_sort sorted_sort)

end
