(* ===== verification/Usk_Audit.thy ===== *)
theory Usk_Audit
  imports Usk_Repository
begin

text \<open>
  The audit repository, \<^verbatim>\<open>runtime/setup/audit/usk_audit_repository.cpp\<close>: events as canonical JSON
  records, one file per event, each naming the digest of its predecessor. The repository object
  is its root path. A constant table of a function is a list of its members.
\<close>

section \<open>Events\<close>

record audit_input =
  ae_created_at :: string
  ae_operation :: string
  ae_phase :: string
  ae_status :: string
  ae_subject_type :: string
  ae_subject_id :: string
  ae_details_digest :: string
  ae_transaction_id :: string
  ae_plan_id :: string
  ae_message :: string

record audit_event = audit_input +
  ae_event_id :: string
  ae_event_digest :: string
  ae_audit_chain_id :: string
  ae_sequence :: "64 word"
  ae_previous_event_digest :: string

definition audit_exact_members :: "jvalue \<Rightarrow> string list \<Rightarrow> string list \<Rightarrow> unit res" where
  "audit_exact_members v required optional =
    bindE (member_names v) (\<lambda>actual.
    if \<not> list_all (\<lambda>member. member \<in> actual) required then throwE ''audit event lacks a required member''
    else requireE (\<forall>member \<in> actual. member \<in> set required \<or> member \<in> set optional)
      ''audit event has an incompatible member'')"

definition event_filename :: "64 word \<Rightarrow> string" where
  "event_filename number = zero_pad 20 (dec (unat number)) @ ''.event.json''"

definition audit_operations :: "string list" where
  "audit_operations =
    [''inspect'', ''plan'', ''install_local'', ''verify'', ''repair'', ''move'', ''uninstall'', ''recovery'']"

definition audit_phases :: "string list" where
  "audit_phases = [''request'', ''validated'', ''planned'', ''staging'', ''verified'', ''committing'',
    ''completed'', ''refused'', ''failed'', ''recovery'']"

definition audit_statuses :: "string list" where
  "audit_statuses = [''pass'', ''warn'', ''fail'', ''refused'', ''recovery_required'']"

definition audit_subjects :: "string list" where
  "audit_subjects = [''source'', ''plan'', ''transaction'', ''installation'', ''ownership_manifest'', ''journal'']"

definition validate_input :: "'a audit_input_scheme \<Rightarrow> unit res" where
  "validate_input input =
    (if ae_created_at input = [] \<or> ae_operation input \<notin> set audit_operations \<or>
        ae_phase input \<notin> set audit_phases \<or> ae_status input \<notin> set audit_statuses \<or>
        ae_subject_type input \<notin> set audit_subjects \<or>
        \<not> valid_identifier (ae_subject_id input) \<or> \<not> valid_sha256 (ae_details_digest input) \<or>
        (ae_transaction_id input \<noteq> [] \<and> \<not> valid_identifier (ae_transaction_id input)) \<or>
        (ae_plan_id input \<noteq> [] \<and> \<not> valid_identifier (ae_plan_id input)) \<or>
        length (ae_message input) > 4096
     then throwE ''audit event input is invalid'' else Inr ())"

definition payload_fields :: "audit_event \<Rightarrow> (string \<times> jvalue) list" where
  "payload_fields event = obj_of
    [(''audit_chain_id'', JString (ae_audit_chain_id event)),
     (''created_at'', JString (ae_created_at event)),
     (''details_digest'', JString (ae_details_digest event)),
     (''event_id'', JString (ae_event_id event)),
     (''operation'', JString (ae_operation event)),
     (''phase'', JString (ae_phase event)),
     (''previous_event_digest'',
       if ae_previous_event_digest event = [] then JNull else JString (ae_previous_event_digest event)),
     (''schema'', JString ''usk.audit_event.v1''),
     (''sequence'', JUnsigned (ae_sequence event)),
     (''status'', JString (ae_status event)),
     (''subject'', object
       [(''subject_id'', JString (ae_subject_id event)),
        (''subject_type'', JString (ae_subject_type event))])]"

definition emplace_unless :: "bool \<Rightarrow> string \<Rightarrow> jvalue \<Rightarrow> (string \<times> jvalue) list \<Rightarrow> (string \<times> jvalue) list" where
  "emplace_unless skip key v m = (if skip then m else fst (obj_emplace key v m))"

definition event_payload :: "audit_event \<Rightarrow> jvalue" where
  "event_payload event = JObject
    (emplace_unless (ae_message event = []) ''message'' (JString (ae_message event))
    (emplace_unless (ae_plan_id event = []) ''plan_id'' (JString (ae_plan_id event))
    (emplace_unless (ae_transaction_id event = []) ''transaction_id'' (JString (ae_transaction_id event))
      (payload_fields event))))"

definition event_document :: "audit_event \<Rightarrow> jvalue" where
  "event_document event = (case event_payload event of
     JObject m \<Rightarrow> JObject (fst (obj_emplace ''event_digest'' (JString (ae_event_digest event)) m)) | v \<Rightarrow> v)"

definition optional_at :: "jvalue \<Rightarrow> string \<Rightarrow> string res" where
  "optional_at v key = (if jcontains v key then string_at v key else Inr [])"

definition check_event :: "audit_event \<Rightarrow> unit res" where
  "check_event event =
    bindE (validate_input event) (\<lambda>_.
    requireE (valid_identifier (ae_event_id event) \<and> valid_identifier (ae_audit_chain_id event) \<and>
      valid_sha256 (ae_event_digest event) \<and>
      (ae_previous_event_digest event = [] \<or> valid_sha256 (ae_previous_event_digest event)) \<and>
      sha256_canonical (event_payload event) = ae_event_digest event)
      ''audit event identity or canonical digest is invalid'')"

definition parse_event :: "jvalue \<Rightarrow> audit_event res" where
  "parse_event v =
    bindE (audit_exact_members v
      [''schema'', ''event_id'', ''event_digest'', ''audit_chain_id'', ''sequence'',
       ''previous_event_digest'', ''created_at'', ''operation'', ''phase'', ''status'',
       ''subject'', ''details_digest''] [''transaction_id'', ''plan_id'', ''message'']) (\<lambda>_.
    bindE (string_at v ''schema'') (\<lambda>schema.
    bindE (requireE (schema = ''usk.audit_event.v1'') ''audit event schema is incompatible'') (\<lambda>_.
    bindE (string_at v ''event_id'') (\<lambda>event_id.
    bindE (string_at v ''event_digest'') (\<lambda>event_digest.
    bindE (string_at v ''audit_chain_id'') (\<lambda>chain_id.
    bindE (jat v ''sequence'') (\<lambda>sequence.
    bindE (as_unsigned sequence) (\<lambda>sequence.
    bindE (jat v ''previous_event_digest'') (\<lambda>previous.
    bindE (if previous = JNull then Inr [] else as_string previous) (\<lambda>previous.
    bindE (string_at v ''created_at'') (\<lambda>created_at.
    bindE (string_at v ''operation'') (\<lambda>operation.
    bindE (string_at v ''phase'') (\<lambda>phase.
    bindE (string_at v ''status'') (\<lambda>status.
    bindE (jat v ''subject'') (\<lambda>subject.
    bindE (audit_exact_members subject [''subject_type'', ''subject_id''] []) (\<lambda>_.
    bindE (string_at subject ''subject_type'') (\<lambda>subject_type.
    bindE (string_at subject ''subject_id'') (\<lambda>subject_id.
    bindE (string_at v ''details_digest'') (\<lambda>details_digest.
    bindE (optional_at v ''transaction_id'') (\<lambda>transaction_id.
    bindE (optional_at v ''plan_id'') (\<lambda>plan_id.
    bindE (optional_at v ''message'') (\<lambda>message.
    let event = \<lparr>ae_created_at = created_at, ae_operation = operation, ae_phase = phase, ae_status = status,
      ae_subject_type = subject_type, ae_subject_id = subject_id, ae_details_digest = details_digest,
      ae_transaction_id = transaction_id, ae_plan_id = plan_id, ae_message = message,
      ae_event_id = event_id, ae_event_digest = event_digest, ae_audit_chain_id = chain_id,
      ae_sequence = sequence, ae_previous_event_digest = previous\<rparr> in
    bindE (check_event event) (\<lambda>_. Inr event)))))))))))))))))))))))"

definition decode_audit_event_record :: "string \<Rightarrow> audit_event res" where
  "decode_audit_event_record content =
    bindE (canonical_document (1024 * 1024) ''audit event exceeds its byte bound'' ''audit event is not canonical'' content)
      parse_event"

definition decode_audit_chain_record ::
  "string \<Rightarrow> string \<Rightarrow> string \<Rightarrow> 64 word \<Rightarrow> string \<Rightarrow> audit_event res" where
  "decode_audit_chain_record content chain_id record_name sequence_no previous_digest =
    (if \<not> valid_identifier chain_id then throwE ''audit chain id is invalid''
     else bindE (decode_audit_event_record content) (\<lambda>event.
       if ae_audit_chain_id event \<noteq> chain_id \<or> ae_sequence event \<noteq> sequence_no \<or>
          ae_event_id event \<noteq> chain_id @ ''.'' @ dec (unat sequence_no) \<or>
          ae_previous_event_digest event \<noteq> previous_digest \<or> record_name \<noteq> event_filename sequence_no
       then throwE ''audit chain sequence or previous digest is invalid''
       else Inr event))"

section \<open>The repository\<close>

definition audit_repository :: "world \<Rightarrow> path \<Rightarrow> path res" where
  "audit_repository w audit_root = repository_at w audit_root"

definition audit_initialize_layout :: "path \<Rightarrow> unit io" where
  "audit_initialize_layout audit_root =
    bindS (liftS (\<lambda>w. require_safe_directory w audit_root)) (\<lambda>_.
    create_directory_exclusive audit_root ''chains'')"

definition require_chain_path_capacity :: "path \<Rightarrow> string \<Rightarrow> unit res" where
  "require_chain_path_capacity audit_root chain_id = requireE (valid_identifier chain_id) ''audit chain id is invalid''"

definition chain_path :: "path \<Rightarrow> string \<Rightarrow> path" where
  "chain_path root chain_id = path_append (path_append root (path_of ''chains'')) (path_of chain_id)"

definition initialize_chain :: "path \<Rightarrow> string \<Rightarrow> unit io" where
  "initialize_chain root chain_id =
    bindS (liftS (\<lambda>w. require_chain_path_capacity root chain_id)) (\<lambda>_.
    bindS (liftS (\<lambda>w. require_safe_directory w (path_append root (path_of ''chains'')))) (\<lambda>_.
    create_directory_exclusive (path_append root (path_of ''chains'')) chain_id))"

definition event_name :: "string \<Rightarrow> bool" where
  "event_name name \<longleftrightarrow> length name = 31 \<and> drop 20 name = ''.event.json'' \<and> list_all isdigit (take 20 name)"

definition chain_entry_ok :: "world \<Rightarrow> path \<Rightarrow> string \<Rightarrow> bool" where
  "chain_entry_ok w chain_root name \<longleftrightarrow>
    (let p = path_append chain_root (element_path name) in
     (case stat w p of Some (File _ _ _ _) \<Rightarrow> True | _ \<Rightarrow> False) \<and>
     (case lstat w p of Some (Link _) \<Rightarrow> False | _ \<Rightarrow> True) \<and> event_name name)"

fun chain_paths :: "world \<Rightarrow> path \<Rightarrow> nat \<Rightarrow> string list \<Rightarrow> path list \<Rightarrow> path list res" where
  "chain_paths w chain_root maximum_events [] paths = Inr paths"
| "chain_paths w chain_root maximum_events (name # names) paths =
    (if \<not> chain_entry_ok w chain_root name then throwE ''audit chain contains an unrecognized or unsafe entry''
     else if length paths \<ge> maximum_events then throwE ''audit chain exceeds the admitted event bound''
     else chain_paths w chain_root maximum_events names (paths @ [path_append chain_root (element_path name)]))"

fun read_chain :: "world \<Rightarrow> string \<Rightarrow> path list \<Rightarrow> nat \<Rightarrow> string \<Rightarrow> audit_event list res" where
  "read_chain w chain_id [] index previous = Inr []"
| "read_chain w chain_id (p # paths) index previous =
    bindE (read_stable_text w p (1024 * 1024)) (\<lambda>content.
    bindE (decode_audit_chain_record content chain_id (filename p) (of_nat index) previous) (\<lambda>event.
    bindE (read_chain w chain_id paths (Suc index) (ae_event_digest event)) (\<lambda>events.
    Inr (event # events))))"

definition read_and_validate_chain_bounded :: "world \<Rightarrow> path \<Rightarrow> string \<Rightarrow> nat \<Rightarrow> audit_event list res" where
  "read_and_validate_chain_bounded w root chain_id maximum_events =
    (if maximum_events = 0 then throwE ''audit event read bound must be positive''
     else if \<not> valid_identifier chain_id then throwE ''audit chain id is invalid''
     else let chain_root = chain_path root chain_id in
       bindE (require_safe_directory w chain_root) (\<lambda>_.
       case resolve w True chain_root of
         None \<Rightarrow> throwE ''directory iterator cannot open directory''
       | Some q \<Rightarrow>
           bindE (chain_paths w chain_root maximum_events (list_directory w q) []) (\<lambda>paths.
           read_chain w chain_id (sort_key elements paths) 0 [])))"

definition read_and_validate_chain :: "world \<Rightarrow> path \<Rightarrow> string \<Rightarrow> audit_event list res" where
  "read_and_validate_chain w root chain_id =
    read_and_validate_chain_bounded w root chain_id (2 ^ 64 - 1)"

definition next_event :: "string \<Rightarrow> audit_input \<Rightarrow> audit_event list \<Rightarrow> audit_event" where
  "next_event chain_id input chain =
    (let number = (of_nat (length chain) :: 64 word);
         event = audit_input.extend input \<lparr>ae_event_id = chain_id @ ''.'' @ dec (unat number), ae_event_digest = [],
           ae_audit_chain_id = chain_id, ae_sequence = number,
           ae_previous_event_digest = (if chain = [] then [] else ae_event_digest (last chain))\<rparr> in
     event\<lparr>ae_event_digest := sha256_canonical (event_payload event)\<rparr>)"

definition append_event :: "path \<Rightarrow> string \<Rightarrow> audit_input \<Rightarrow> audit_event io" where
  "append_event root chain_id input =
    bindS (liftS (\<lambda>w. validate_input input)) (\<lambda>_.
    bindS (liftS (\<lambda>w. read_and_validate_chain w root chain_id)) (\<lambda>chain.
    let event = next_event chain_id input chain in
    bindS (write_new_durable_text
        (path_append (chain_path root chain_id) (path_of (event_filename (ae_sequence event))))
        (canonical (event_document event) @ newline)) (\<lambda>_.
    returnS event)))"

end
