(* ===== verification/Usk_Audit_Laws.thy ===== *)
theory Usk_Audit_Laws
  imports Usk_Audit
begin

text \<open>
  Laws of the audit repository: an event record reads back as the event, a chain that is accepted
  is numbered and linked by digests, appending extends the readable chain by exactly the new event,
  and two accepted chains with the same last digest are equal unless SHA-256 collides on
  their payloads.
\<close>

section \<open>Event documents\<close>

definition base_members :: "audit_event \<Rightarrow> (string \<times> jvalue) list" where
  "base_members e =
    [(''audit_chain_id'', JString (ae_audit_chain_id e)), (''created_at'', JString (ae_created_at e)),
     (''details_digest'', JString (ae_details_digest e)), (''event_id'', JString (ae_event_id e)),
     (''operation'', JString (ae_operation e)), (''phase'', JString (ae_phase e)),
     (''previous_event_digest'', if ae_previous_event_digest e = [] then JNull else JString (ae_previous_event_digest e)),
     (''schema'', JString ''usk.audit_event.v1''), (''sequence'', JUnsigned (ae_sequence e)),
     (''status'', JString (ae_status e)),
     (''subject'', object [(''subject_id'', JString (ae_subject_id e)), (''subject_type'', JString (ae_subject_type e))])]"

definition optional_member :: "string \<Rightarrow> string \<Rightarrow> (string \<times> jvalue) list" where
  "optional_member k s = (if s = [] then [] else [(k, JString s)])"

definition payload_members :: "audit_event \<Rightarrow> (string \<times> jvalue) list" where
  "payload_members e = base_members e @ optional_member ''transaction_id'' (ae_transaction_id e) @
    optional_member ''plan_id'' (ae_plan_id e) @ optional_member ''message'' (ae_message e)"

definition document_members :: "audit_event \<Rightarrow> (string \<times> jvalue) list" where
  "document_members e = payload_members e @ [(''event_digest'', JString (ae_event_digest e))]"

lemma emplace_optional:
  "emplace_unless (s = []) k (JString s) (obj_of xs) = obj_of (xs @ optional_member k s)"
  by (simp add: emplace_unless_def optional_member_def obj_of_snoc)

lemma event_payload_object: "event_payload e = object (payload_members e)"
  by (simp add: event_payload_def object_def payload_members_def payload_fields_def base_members_def
      emplace_optional del: append.simps flip: append_assoc)

lemma event_document_object: "event_document e = object (document_members e)"
  by (simp add: event_document_def event_payload_object document_members_def object_def obj_of_snoc)

lemma payload_lookup:
  "map_of (payload_members e) k =
    (case map_of (base_members e) k of Some v \<Rightarrow> Some v | None \<Rightarrow>
     if k = ''transaction_id'' \<and> ae_transaction_id e \<noteq> [] then Some (JString (ae_transaction_id e))
     else if k = ''plan_id'' \<and> ae_plan_id e \<noteq> [] then Some (JString (ae_plan_id e))
     else if k = ''message'' \<and> ae_message e \<noteq> [] then Some (JString (ae_message e))
     else None)"
  by (auto simp: payload_members_def optional_member_def map_add_def split: option.splits)

lemma document_lookup:
  "map_of (document_members e) k = (case map_of (payload_members e) k of Some v \<Rightarrow> Some v
     | None \<Rightarrow> if k = ''event_digest'' then Some (JString (ae_event_digest e)) else None)"
  by (auto simp: document_members_def map_add_def split: option.splits)

lemma payload_distinct: "distinct (map fst (payload_members e))"
  and document_distinct: "distinct (map fst (document_members e))"
  by (simp_all add: document_members_def payload_members_def optional_member_def base_members_def)

lemma payload_names:
  "fst ` set (payload_members e) = fst ` set (base_members e) \<union>
    (if ae_transaction_id e = [] then {} else {''transaction_id''}) \<union>
    (if ae_plan_id e = [] then {} else {''plan_id''}) \<union> (if ae_message e = [] then {} else {''message''})"
  by (auto simp: payload_members_def optional_member_def)

lemmas document_reads = string_at_def optional_at_def object_jat [OF document_distinct]
  object_contains [OF document_distinct] document_lookup payload_lookup base_members_def

lemma document_optional:
  "optional_at (object (document_members e)) ''transaction_id'' = Inr (ae_transaction_id e)"
  "optional_at (object (document_members e)) ''plan_id'' = Inr (ae_plan_id e)"
  "optional_at (object (document_members e)) ''message'' = Inr (ae_message e)"
  by (simp_all add: document_reads)

lemma document_previous:
  "bindE (jat (object (document_members e)) ''previous_event_digest'')
    (\<lambda>p. bindE (if p = JNull then Inr [] else as_string p) f) = f (ae_previous_event_digest e)"
  by (simp add: document_reads)

lemma event_eta:
  "\<lparr>ae_created_at = ae_created_at e, ae_operation = ae_operation e, ae_phase = ae_phase e, ae_status = ae_status e,
    ae_subject_type = ae_subject_type e, ae_subject_id = ae_subject_id e, ae_details_digest = ae_details_digest e,
    ae_transaction_id = ae_transaction_id e, ae_plan_id = ae_plan_id e, ae_message = ae_message e,
    ae_event_id = ae_event_id e, ae_event_digest = ae_event_digest e, ae_audit_chain_id = ae_audit_chain_id e,
    ae_sequence = ae_sequence e, ae_previous_event_digest = ae_previous_event_digest e\<rparr> = e"
  by simp

lemma parse_event_document: "parse_event (event_document e) = bindE (check_event e) (\<lambda>_. Inr e)"
proof -
  have members: "audit_exact_members (object (document_members e))
      [''schema'', ''event_id'', ''event_digest'', ''audit_chain_id'', ''sequence'',
       ''previous_event_digest'', ''created_at'', ''operation'', ''phase'', ''status'',
       ''subject'', ''details_digest''] [''transaction_id'', ''plan_id'', ''message''] = Inr ()"
    by (simp add: audit_exact_members_def object_names document_members_def payload_names base_members_def image_Un)
  have subject: "audit_exact_members (object [(''subject_id'', JString (ae_subject_id e)),
      (''subject_type'', JString (ae_subject_type e))]) [''subject_type'', ''subject_id''] [] = Inr ()"
    by (simp add: audit_exact_members_def object_names)
  show ?thesis
    unfolding event_document_object parse_event_def members document_optional document_previous
    by (simp add: document_reads subject object_jat Let_def event_eta)
qed

lemma event_document_wf: "wf_json (event_document e)"
  by (simp add: event_document_object object_wf document_distinct)
    (simp add: document_members_def payload_members_def base_members_def optional_member_def object_wf)

lemma event_document_count: "value_count (event_document e) \<le> 100"
  by (simp add: event_document_object object_count document_distinct)
    (simp add: document_members_def payload_members_def base_members_def optional_member_def object_count)

text \<open>Strings of an accepted event that validation leaves unbounded or of arbitrary bytes.\<close>

definition free_strings_ok :: "audit_event \<Rightarrow> bool" where
  "free_strings_ok e \<longleftrightarrow> string_ok default_limits (ae_created_at e) \<and> string_ok default_limits (ae_message e)"

lemma validate_input_strings:
  assumes "validate_input i = Inr ()"
  shows "string_ok default_limits (ae_operation i)" "string_ok default_limits (ae_phase i)"
    "string_ok default_limits (ae_status i)" "string_ok default_limits (ae_subject_type i)"
    "string_ok default_limits (ae_subject_id i)" "string_ok default_limits (ae_details_digest i)"
    "string_ok default_limits (ae_transaction_id i)" "string_ok default_limits (ae_plan_id i)"
proof -
  have "list_all (string_ok default_limits) audit_operations" "list_all (string_ok default_limits) audit_phases"
    "list_all (string_ok default_limits) audit_statuses" "list_all (string_ok default_limits) audit_subjects"
    by (simp_all add: audit_operations_def audit_phases_def audit_statuses_def audit_subjects_def string_ok_lit)
  with assms show "string_ok default_limits (ae_operation i)" "string_ok default_limits (ae_phase i)"
    "string_ok default_limits (ae_status i)" "string_ok default_limits (ae_subject_type i)"
    "string_ok default_limits (ae_subject_id i)" "string_ok default_limits (ae_details_digest i)"
    "string_ok default_limits (ae_transaction_id i)" "string_ok default_limits (ae_plan_id i)"
    by (auto simp: validate_input_def list_all_iff split: if_splits)
qed

lemma event_document_shape:
  assumes "check_event e = Inr ()"
  shows "shape_ok default_limits 0 (event_document e) \<longleftrightarrow> free_strings_ok e"
proof -
  have ok: "validate_input e = Inr ()" "string_ok default_limits (ae_event_id e)" "string_ok default_limits (ae_audit_chain_id e)"
    "string_ok default_limits (ae_event_digest e)" "string_ok default_limits (ae_previous_event_digest e)"
    using assms by (auto simp: check_event_def bindE_eq_Inr)
  show ?thesis
    unfolding event_document_object object_shape [OF document_distinct]
    using ok validate_input_strings [OF ok(1)]
    by (simp add: document_members_def payload_members_def base_members_def optional_member_def object_shape
        free_strings_ok_def string_ok_lit)
      (simp add: default_limits_def)
qed

definition event_line :: "audit_event \<Rightarrow> string" where
  "event_line e = canonical (event_document e) @ newline"

lemma decode_event_line:
  "decides (decode_audit_event_record (event_line e))
    (check_event e = Inr () \<and> free_strings_ok e \<and> length (event_line e) \<le> 1024 * 1024) e"
proof -
  let ?n = "length (event_line e)"
  have limits: "max_bytes default_limits = 4 * 1024 * 1024" "max_values default_limits = 100000"
    by (simp_all add: default_limits_def)
  have fits: "fits default_limits ?n (event_document e) \<longleftrightarrow> free_strings_ok e"
    if "?n \<le> 1024 * 1024" "check_event e = Inr ()"
    using that event_document_shape [OF that(2)] event_document_count [of e] by (simp add: fits_def limits)
  have "decides (decode_audit_event_record (event_line e))
     ((?n \<le> 1024 * 1024 \<and> fits default_limits ?n (event_document e)) \<and> check_event e = Inr ()) e"
    unfolding decode_audit_event_record_def event_line_def
    by (rule decides_bindE [OF canonical_document_newline [OF event_document_wf]])
      (auto simp: parse_event_document decides_def accepts_iff bindE_eq_Inr)
  then show ?thesis by (rule decides_cong) (use fits in auto)
qed

end
