(* ===== verification/Usk_Audit_Chain.thy ===== *)
theory Usk_Audit_Chain
  imports Usk_Audit_Laws
begin

text \<open>
  Chains of events: hash chains in general as a locale, the numbering of the event files, what
  \<open>read_and_validate_chain\<close> accepts, and what \<open>append_event\<close> does to it.
\<close>

section \<open>Hash chains\<close>

primrec chained :: "('e \<Rightarrow> string) \<Rightarrow> ('e \<Rightarrow> string) \<Rightarrow> string \<Rightarrow> 'e list \<Rightarrow> bool" where
  "chained prev dig p [] \<longleftrightarrow> True"
| "chained prev dig p (e # es) \<longleftrightarrow> prev e = p \<and> chained prev dig (dig e) es"

lemma chained_append:
  "chained prev dig p (es @ es') \<longleftrightarrow>
    chained prev dig p es \<and> chained prev dig (if es = [] then p else dig (last es)) es'"
  by (induction es arbitrary: p) auto

text \<open>
  An element of a hash chain is determined by its payload text and its digest; the payload
  contains the position and the digest of the predecessor.
\<close>

locale hash_chain =
  fixes prev :: "'e \<Rightarrow> string" and dig :: "'e \<Rightarrow> string" and payload :: "'e \<Rightarrow> string" and num :: "'e \<Rightarrow> nat"
  assumes payload_determines: "payload e = payload e' \<Longrightarrow> dig e = dig e' \<Longrightarrow> e = e'"
begin

definition sealed :: "'e list \<Rightarrow> bool" where
  "sealed es \<longleftrightarrow> chained prev dig [] es \<and> (\<forall>e \<in> set es. dig e = sha256_hex (payload e)) \<and>
    (\<forall>i < length es. num (es ! i) = i)"

definition collides :: "'e list \<Rightarrow> 'e list \<Rightarrow> bool" where
  "collides es es' \<longleftrightarrow> (\<exists>e \<in> set es. \<exists>e' \<in> set es'.
    sha256_hex (payload e) = sha256_hex (payload e') \<and> payload e \<noteq> payload e')"

lemma sealed_snoc:
  "sealed (es @ [e]) \<longleftrightarrow> sealed es \<and> prev e = (if es = [] then [] else dig (last es)) \<and>
    dig e = sha256_hex (payload e) \<and> num e = length es"
  by (auto simp: sealed_def chained_append nth_append less_Suc_eq)

lemma same_head_same_chain:
  "sealed es \<Longrightarrow> sealed es' \<Longrightarrow> es \<noteq> [] \<Longrightarrow> es' \<noteq> [] \<Longrightarrow> dig (last es) = dig (last es') \<Longrightarrow>
    \<not> collides es es' \<Longrightarrow> es = es'"
proof (induction es arbitrary: es' rule: rev_induct)
  case (snoc x xs)
  obtain ys y where es': "es' = ys @ [y]" using snoc.prems(4) by (cases es' rule: rev_cases) auto
  have "payload x = payload y"
    using snoc.prems unfolding es' sealed_snoc collides_def by auto
  then have eq: "x = y" using snoc.prems unfolding es' by (auto intro: payload_determines)
  then have len: "length xs = length ys" using snoc.prems unfolding es' sealed_snoc by auto
  show ?case
  proof (cases "xs = []")
    case False
    with len have "ys \<noteq> []" by auto
    moreover have "dig (last xs) = dig (last ys)"
      using snoc.prems False \<open>ys \<noteq> []\<close> eq unfolding es' sealed_snoc by auto
    moreover have "\<not> collides xs ys" using snoc.prems(6) unfolding es' collides_def by auto
    ultimately have "xs = ys" using snoc.IH [of ys] snoc.prems(1,2) False unfolding es' sealed_snoc by blast
    with eq show ?thesis by (simp add: es')
  qed (use len eq es' in simp)
qed simp

end

section \<open>Numbered file names\<close>

fun dec_pad :: "nat \<Rightarrow> nat \<Rightarrow> string" where
  "dec_pad 0 n = []"
| "dec_pad (Suc w) n = dec_pad w (n div 10) @ [digit_char (n mod 10)]"

lemma length_dec_pad [simp]: "length (dec_pad w n) = w"
  by (induction w arbitrary: n) auto

lemma dec_pad_0: "dec_pad w 0 = replicate w (CHR ''0'')"
  using digit_char_eq_0 [of 0] by (induction w) (auto simp: replicate_append_same)

lemma zero_pad_dec: "n < 10 ^ w \<Longrightarrow> 0 < w \<Longrightarrow> zero_pad w (dec n) = dec_pad w n"
proof (induction w arbitrary: n)
  case (Suc w)
  show ?case
  proof (cases "n < 10")
    case True
    then show ?thesis by (simp add: dec_small zero_pad_def dec_pad_0)
  next
    case False
    then have "n div 10 < 10 ^ w" "0 < w" using Suc.prems by (auto intro: Suc_leI gr0I simp: less_mult_imp_div_less)
    with Suc.IH [of "n div 10"] False show ?thesis by (simp add: dec_big zero_pad_def)
  qed
qed simp

lemma append_less_iff:
  fixes xs ys :: "'a :: linorder list"
  assumes "length xs = length ys"
  shows "xs @ [a] < ys @ [b] \<longleftrightarrow> xs < ys \<or> xs = ys \<and> a < b"
  using assms by (induction xs ys rule: list_induct2) auto

lemma digit_char_less: "a < 10 \<Longrightarrow> b < 10 \<Longrightarrow> digit_char a < digit_char b \<longleftrightarrow> a < b"
  by (simp add: less_char_def)

lemma less_by_last_digit: "(m :: nat) div 10 < n div 10 \<or> m div 10 = n div 10 \<and> m mod 10 < n mod 10 \<longleftrightarrow> m < n"
proof -
  have "b < 10 \<Longrightarrow> d < 10 \<Longrightarrow> a < c \<or> a = c \<and> b < d \<longleftrightarrow> 10 * a + b < 10 * c + d" for a b c d :: nat
    by arith
  from this [of "m mod 10" "n mod 10" "m div 10" "n div 10"] show ?thesis by simp
qed

lemma dec_pad_less: "m < 10 ^ w \<Longrightarrow> n < 10 ^ w \<Longrightarrow> dec_pad w m < dec_pad w n \<longleftrightarrow> m < n"
proof (induction w arbitrary: m n)
  case (Suc w)
  have lt: "m div 10 < 10 ^ w" "n div 10 < 10 ^ w" using Suc.prems by (auto simp: less_mult_imp_div_less)
  have eq: "dec_pad w (m div 10) = dec_pad w (n div 10) \<longleftrightarrow> m div 10 = n div 10"
    using Suc.IH [OF lt] Suc.IH [OF lt(2,1)] by (metis less_irrefl linorder_neqE_nat)
  have "dec_pad (Suc w) m < dec_pad (Suc w) n \<longleftrightarrow> m div 10 < n div 10 \<or> m div 10 = n div 10 \<and> m mod 10 < n mod 10"
    unfolding dec_pad.simps by (subst append_less_iff) (simp_all only: length_dec_pad eq Suc.IH [OF lt] digit_char_less mod_less_divisor zero_less_numeral)
  then show ?case by (simp only: less_by_last_digit)
qed simp

lemma same_length_less_append:
  fixes xs ys :: "'a :: linorder list"
  assumes "length xs = length ys"
  shows "xs @ zs < ys @ zs \<longleftrightarrow> xs < ys"
  using assms by (induction xs ys rule: list_induct2) auto

lemma event_filename_pad: "event_filename n = dec_pad 20 (unat n) @ ''.event.json''"
  using zero_pad_dec [OF word_lt_pow, of n] by (simp add: event_filename_def)

lemma event_filename_less: "event_filename m < event_filename n \<longleftrightarrow> m < n"
  using dec_pad_less [OF word_lt_pow word_lt_pow, of m n]
  by (simp add: event_filename_pad same_length_less_append word_less_nat_alt del: append_Cons append_Nil)

lemma dec_pad_digits: "list_all isdigit (dec_pad w n)"
  by (induction w arbitrary: n) auto

lemma sorted_event_filenames: "n < 2 ^ 64 \<Longrightarrow> sorted (map (\<lambda>i. event_filename (of_nat i)) [0..<n])"
proof (induction n)
  case (Suc n)
  have "event_filename (of_nat i) < event_filename (of_nat n)" if "i < n" for i
    using that Suc.prems by (simp add: event_filename_less word_less_nat_alt unat_of_nat take_bit_nat_eq_self)
  then have "event_filename (of_nat i) \<le> event_filename (of_nat n)" if "i < n" for i
    using that by (simp add: order_less_imp_le)
  with Suc show ?case by (auto simp: sorted_append)
qed simp

section \<open>Reading a chain\<close>

definition chain_dir :: "string list \<Rightarrow> string \<Rightarrow> string list" where
  "chain_dir d chain_id = d @ [''chains'', chain_id]"

lemma chain_path_names:
  assumes "list_all plain_name d" "t = [] \<or> t = [[]]" "valid_identifier chain_id"
  shows "chain_path (Path True (d @ t)) chain_id = Path True (chain_dir d chain_id)"
proof -
  have "path_of ''chains'' = Path False [''chains'']" by code_simp
  moreover have "list_all plain_name (d @ [''chains''])" using assms(1) by (simp add: plain_name_def)
  from append_name [OF this, of "[]"] have "path_append (Path True (d @ [''chains''])) (Path False [c]) = Path True (chain_dir d c)" for c
    by (simp add: chain_dir_def)
  ultimately show ?thesis
    using assms by (simp add: chain_path_def path_of_identifier append_name)
qed

lemma event_name_plain: "event_name name \<Longrightarrow> plain_name name"
  by (auto simp: event_name_def plain_name_def)

lemma event_name_filename: "event_name (event_filename n)"
  by (simp add: event_name_def event_filename_pad dec_pad_digits)

lemma chain_entry_ok_iff:
  assumes "safe_dir w d"
  shows "chain_entry_ok w (Path True d) name \<longleftrightarrow>
    event_name name \<and> (\<exists>ino content links mtime. entry_at w (d @ [name]) = Some (File ino content links mtime))"
proof (cases "event_name name")
  case True
  have plain: "list_all plain_name d" using assms by (simp add: safe_dir_def)
  have p: "path_append (Path True d) (element_path name) = Path True (d @ [name])"
    using plain event_name_plain [OF True] by (rule append_element)
  show ?thesis
  proof (cases "\<exists>l. entry_at w (d @ [name]) = Some (Link l)")
    case True
    then show ?thesis
      using lstat_child [OF assms event_name_plain [OF \<open>event_name name\<close>]]
      by (auto simp: chain_entry_ok_def p Let_def)
  next
    case False
    then show ?thesis
      using \<open>event_name name\<close> stat_child [OF assms event_name_plain [OF True]] lstat_child [OF assms event_name_plain [OF True]]
      by (auto simp: chain_entry_ok_def p Let_def split: option.splits entry.splits)
  qed
qed (simp add: chain_entry_ok_def Let_def)

lemma chain_paths_iff:
  "chain_paths w r maximum names ps = Inr qs \<longleftrightarrow>
    list_all (chain_entry_ok w r) names \<and> (names = [] \<or> length ps + length names \<le> maximum) \<and>
    qs = ps @ map (\<lambda>n. path_append r (element_path n)) names"
proof (induction names arbitrary: ps)
  case Nil
  then show ?case by (simp add: eq_commute)
next
  case (Cons n ns)
  show ?case
  proof (cases "chain_entry_ok w r n \<and> length ps < maximum")
    case True
    with Cons.IH [of "ps @ [path_append r (element_path n)]"] show ?thesis by (cases ns) simp_all
  qed auto
qed

lemma sort_child_paths: "sort_key elements (map (\<lambda>n. Path True (d @ [n])) names) = map (\<lambda>n. Path True (d @ [n])) (sort names)"
proof -
  have "d @ [x] \<le> d @ [y] \<longleftrightarrow> x \<le> y" for x y :: string by (induction d) auto
  then have "sort_key (\<lambda>n. elements (Path True (d @ [n]))) names = sort names"
    by (intro sort_key_mono) simp
  then show ?thesis by (simp add: sort_key_map)
qed

lemma read_bounded_iff:
  assumes "list_all plain_name d" "t = [] \<or> t = [[]]" "valid_identifier chain_id" "plain_name chain_id"
  shows "read_and_validate_chain_bounded w (Path True (d @ t)) chain_id maximum = Inr es \<longleftrightarrow>
    maximum \<noteq> 0 \<and> safe_dir w (chain_dir d chain_id) \<and>
    (let names = list_directory w (chain_dir d chain_id) in
     list_all (chain_entry_ok w (Path True (chain_dir d chain_id))) names \<and> length names \<le> maximum \<and>
     read_chain w chain_id (map (\<lambda>n. Path True (chain_dir d chain_id @ [n])) (sort names)) 0 [] = Inr es)"
proof -
  let ?d = "chain_dir d chain_id"
  have plain: "list_all plain_name ?d" using assms(1,4) by (simp add: chain_dir_def plain_name_def)
  have req: "require_safe_directory w (Path True ?d) = Inr () \<longleftrightarrow> safe_dir w ?d"
    using plain by (rule require_safe_plain)
  have res: "safe_dir w ?d \<Longrightarrow> resolve w True (Path True ?d) = Some ?d"
    using resolve_safe [of w ?d "[]" True] by simp
  have paths: "list_all (chain_entry_ok w (Path True ?d)) names \<Longrightarrow> safe_dir w ?d \<Longrightarrow>
      map (\<lambda>n. path_append (Path True ?d) (element_path n)) names = map (\<lambda>n. Path True (?d @ [n])) names" for names
    using plain by (auto simp: list_all_iff chain_entry_ok_iff append_element event_name_plain)
  show ?thesis
  proof (cases "safe_dir w ?d")
    case True
    note eqs = read_and_validate_chain_bounded_def chain_path_names [OF assms(1-3)] bindE_eq_Inr Let_def
      chain_paths_iff
    show ?thesis
    proof (cases "list_all (chain_entry_ok w (Path True ?d)) (list_directory w ?d)")
      case ok: True
      show ?thesis
        using True req res assms(3) ok by (auto simp: eqs paths [OF ok True] sort_child_paths)
    next
      case bad: False
      then show ?thesis using True req res assms(3) by (simp add: eqs)
    qed
  next
    case False
    with req assms(3) show ?thesis
      by (auto simp: read_and_validate_chain_bounded_def chain_path_names [OF assms(1-3)] bindE_eq_Inr Let_def
          split: if_splits)
  qed
qed

end
