(* ===== verification/Usk_Audit_Append.thy ===== *)
theory Usk_Audit_Append
  imports Usk_Audit_Chain
begin

text \<open>
  The properties of the audit repository: accepted chains are sealed hash chains, appending extends
  the readable chain by the new event, and equal heads mean equal histories.
\<close>

section \<open>Accepted chains\<close>

lemma decode_chain_record_Inr:
  "decode_audit_chain_record content chain_id name n prev = Inr e \<longleftrightarrow>
    valid_identifier chain_id \<and> decode_audit_event_record content = Inr e \<and> ae_audit_chain_id e = chain_id \<and>
    ae_sequence e = n \<and> ae_event_id e = chain_id @ ''.'' @ dec (unat n) \<and>
    ae_previous_event_digest e = prev \<and> name = event_filename n"
  by (auto simp: decode_audit_chain_record_def bindE_eq_Inr split: if_splits)

lemma read_chain_append:
  "read_chain w chain_id (ps @ qs) i prev =
    bindE (read_chain w chain_id ps i prev) (\<lambda>es.
    bindE (read_chain w chain_id qs (i + length ps) (if es = [] then prev else ae_event_digest (last es))) (\<lambda>es'.
    Inr (es @ es')))"
proof (induction ps arbitrary: i prev)
  case Nil
  then show ?case by (cases "read_chain w chain_id qs i prev") simp_all
next
  case (Cons p ps)
  show ?case by (auto simp: Cons.IH bindE_assoc intro!: bindE_cong)
qed

lemma read_chain_length: "read_chain w chain_id ps i prev = Inr es \<Longrightarrow> length es = length ps"
  by (induction ps arbitrary: i prev es) (auto simp: bindE_eq_Inr)

lemma parse_event_checked: "parse_event v = Inr e \<Longrightarrow> check_event e = Inr ()"
  by (auto simp: parse_event_def bindE_eq_Inr Let_def)

lemma decode_event_checked: "decode_audit_event_record content = Inr e \<Longrightarrow> check_event e = Inr ()"
  by (auto simp: decode_audit_event_record_def bindE_eq_Inr dest: parse_event_checked)

lemma read_chain_events:
  "read_chain w chain_id ps i prev = Inr es \<Longrightarrow>
    chained ae_previous_event_digest ae_event_digest prev es \<and> (\<forall>e \<in> set es. check_event e = Inr ()) \<and>
    (\<forall>j < length es. ae_audit_chain_id (es ! j) = chain_id \<and> ae_sequence (es ! j) = of_nat (i + j) \<and>
      filename (ps ! j) = event_filename (of_nat (i + j)))"
proof (induction ps arbitrary: i prev es)
  case (Cons p ps)
  then obtain content e es' where e: "decode_audit_chain_record content chain_id (filename p) (of_nat i) prev = Inr e"
    "read_chain w chain_id ps (Suc i) (ae_event_digest e) = Inr es'" "es = e # es'"
    by (auto simp: bindE_eq_Inr)
  from Cons.IH [OF e(2)] e(1,3) show ?case
    by (auto simp: decode_chain_record_Inr nth_Cons less_Suc_eq_0_disj ac_simps dest: decode_event_checked split: nat.splits)
qed simp

definition event_text :: "audit_event \<Rightarrow> string" where
  "event_text e = canonical (event_payload e)"

lemma payload_equal:
  assumes "event_payload e = event_payload e'" "ae_event_digest e = ae_event_digest e'"
  shows "e = e'"
proof -
  have eq: "map_of (payload_members e) k = map_of (payload_members e') k" for k
    using assms(1) by (simp add: event_payload_object object_eq_iff payload_distinct)
  note at = payload_lookup base_members_def
  have "ae_audit_chain_id e = ae_audit_chain_id e'" using eq [of "''audit_chain_id''"] by (simp add: at)
  moreover have "ae_created_at e = ae_created_at e'" using eq [of "''created_at''"] by (simp add: at)
  moreover have "ae_details_digest e = ae_details_digest e'" using eq [of "''details_digest''"] by (simp add: at)
  moreover have "ae_event_id e = ae_event_id e'" using eq [of "''event_id''"] by (simp add: at)
  moreover have "ae_operation e = ae_operation e'" using eq [of "''operation''"] by (simp add: at)
  moreover have "ae_phase e = ae_phase e'" using eq [of "''phase''"] by (simp add: at)
  moreover have "ae_previous_event_digest e = ae_previous_event_digest e'"
    using eq [of "''previous_event_digest''"] by (simp add: at split: if_splits)
  moreover have "ae_sequence e = ae_sequence e'" using eq [of "''sequence''"] by (simp add: at)
  moreover have "ae_status e = ae_status e'" using eq [of "''status''"] by (simp add: at)
  moreover have "ae_subject_id e = ae_subject_id e' \<and> ae_subject_type e = ae_subject_type e'"
  proof -
    have "object [(''subject_id'', JString (ae_subject_id e)), (''subject_type'', JString (ae_subject_type e))] =
        object [(''subject_id'', JString (ae_subject_id e')), (''subject_type'', JString (ae_subject_type e'))]"
      using eq [of "''subject''"] by (simp add: at)
    then show ?thesis by (simp add: object_def obj_of_def)
  qed
  moreover have "ae_transaction_id e = ae_transaction_id e'"
    using eq [of "''transaction_id''"] by (simp add: at split: if_splits)
  moreover have "ae_plan_id e = ae_plan_id e'" using eq [of "''plan_id''"] by (simp add: at split: if_splits)
  moreover have "ae_message e = ae_message e'" using eq [of "''message''"] by (simp add: at split: if_splits)
  ultimately show ?thesis using assms(2) by (intro audit_event.equality) simp_all
qed

interpretation audit: hash_chain ae_previous_event_digest ae_event_digest event_text "\<lambda>e. unat (ae_sequence e)"
  by unfold_locales (simp add: event_text_def canonical_inj payload_equal)

lemma chained_nth:
  "chained prev dig p es \<Longrightarrow> i < length es \<Longrightarrow> prev (es ! i) = (if i = 0 then p else dig (es ! (i - 1)))"
proof (induction es arbitrary: i p)
  case (Cons e es)
  then show ?case by (cases i) (auto simp: nth_Cons')
qed simp

lemma read_accepted:
  assumes "read_and_validate_chain w root cid = Inr es"
  obtains ps where "read_chain w cid ps 0 [] = Inr es"
  using assms by (auto simp: read_and_validate_chain_def read_and_validate_chain_bounded_def Let_def
      bindE_eq_Inr split: if_splits option.splits)

lemma read_chain_sealed:
  assumes "read_chain w chain_id ps 0 [] = Inr es" "length es \<le> 2 ^ 64"
  shows "audit.sealed es"
proof -
  note facts = read_chain_events [OF assms(1)]
  have "ae_event_digest e = sha256_hex (event_text e)" if "e \<in> set es" for e
    using facts that by (auto simp: check_event_def bindE_eq_Inr event_text_def sha256_canonical_spec sha256_hex_spec)
  moreover have "unat (ae_sequence (es ! j)) = j" if "j < length es" for j
    using facts that assms(2) by (simp add: unat_of_nat take_bit_nat_eq_self)
  ultimately show ?thesis using facts by (simp add: audit.sealed_def)
qed

section \<open>Appending\<close>

lemma read_chain_cong:
  "(\<And>p. p \<in> set ps \<Longrightarrow> read_stable_text w' p (1024 * 1024) = read_stable_text w p (1024 * 1024)) \<Longrightarrow>
    read_chain w' chain_id ps i prev = read_chain w chain_id ps i prev"
  by (induction ps arbitrary: i prev) (auto intro!: bindE_cong)

lemma validate_input_extend [simp]: "validate_input (audit_input.extend i m) = validate_input i"
  by (simp add: validate_input_def audit_input.extend_def)

lemma event_payload_digest [simp]: "event_payload (e\<lparr>ae_event_digest := x\<rparr>) = event_payload e"
  by (simp add: event_payload_def payload_fields_def)

lemma next_event_fields [simp]:
  "ae_audit_chain_id (next_event cid input es) = cid"
  "ae_sequence (next_event cid input es) = of_nat (length es)"
  "ae_event_id (next_event cid input es) = cid @ ''.'' @ dec (unat (of_nat (length es) :: 64 word))"
  "ae_previous_event_digest (next_event cid input es) = (if es = [] then [] else ae_event_digest (last es))"
  by (simp_all add: next_event_def Let_def audit_input.extend_def)

lemma next_event_digest:
  "ae_event_digest (next_event cid input es) = sha256_canonical (event_payload (next_event cid input es))"
  by (simp add: next_event_def Let_def)

lemma validate_next_event [simp]: "validate_input (next_event cid input es) = validate_input input"
  by (simp add: next_event_def Let_def validate_input_def audit_input.extend_def)

lemma check_next_event:
  assumes "validate_input input = Inr ()" "valid_identifier cid" "\<forall>e \<in> set es. check_event e = Inr ()"
  shows "check_event (next_event cid input es) = Inr () \<longleftrightarrow> valid_identifier (ae_event_id (next_event cid input es))"
proof -
  have "es \<noteq> [] \<Longrightarrow> valid_sha256 (ae_event_digest (last es))"
    using assms(3) last_in_set by (fastforce simp: check_event_def bindE_eq_Inr)
  moreover have "valid_sha256 (sha256_canonical v)" for v
    using valid_sha256_hex by (metis sha256_canonical_spec sha256_hex_spec)
  ultimately show ?thesis
    using assms(1,2) by (auto simp: check_event_def next_event_digest simp del: next_event_fields(3))
qed

lemma event_filename_no_slash: "event_filename n \<noteq> []" "slash \<notin> set (event_filename n)"
proof -
  have "slash \<notin> set (dec_pad 20 k)" for k
    using dec_pad_digits [of 20 k] by (auto simp: list_all_iff isdigit_def dest!: bspec)
  then show "event_filename n \<noteq> []" "slash \<notin> set (event_filename n)" by (simp_all add: event_filename_pad)
qed

lemma event_path:
  assumes "list_all plain_name d"
  shows "path_append (Path True d) (path_of (event_filename n)) = Path True (d @ [event_filename n])"
  using append_name [OF assms, of "[]"] by (simp add: path_of_name event_filename_no_slash)

lemma append_event_effect:
  assumes "list_all plain_name d" "t = [] \<or> t = [[]]" "plain_name cid"
    and "append_event (Path True (d @ t)) cid input w = (Inr e, w')"
  obtains es where "valid_identifier cid" "validate_input input = Inr ()"
    "read_and_validate_chain w (Path True (d @ t)) cid = Inr es" "e = next_event cid input es"
    "safe_dir w (chain_dir d cid)" "entry_at w (chain_dir d cid @ [event_filename (of_nat (length es))]) = None"
    "w' = new_file (chain_dir d cid @ [event_filename (of_nat (length es))]) (event_line e) w"
proof -
  from assms(4) obtain es where es: "validate_input input = Inr ()"
    "read_and_validate_chain w (Path True (d @ t)) cid = Inr es" "e = next_event cid input es"
    "write_new_durable_text (path_append (chain_path (Path True (d @ t)) cid)
      (path_of (event_filename (of_nat (length es))))) (event_line e) w = (Inr (), w')"
    by (auto simp: append_event_def bindS_eq_Inr Let_def event_line_def split: sum.splits)
  have cid: "valid_identifier cid"
    using es(2) by (auto simp: read_and_validate_chain_def read_and_validate_chain_bounded_def split: if_splits)
  have plain: "list_all plain_name (chain_dir d cid)" using assms by (simp add: chain_dir_def plain_name_def)
  note w = es(4) [unfolded chain_path_names [OF assms(1,2) cid] event_path [OF plain]]
  from write_new_ok [OF plain event_name_plain [OF event_name_filename] w] es cid that show ?thesis by blast
qed

abbreviation event_files :: "nat \<Rightarrow> string list" where
  "event_files n \<equiv> map (\<lambda>i. event_filename (of_nat i)) [0..<n]"

lemma read_chain_files:
  assumes "read_chain w cid (map (\<lambda>n. Path True (d @ [n])) names) 0 [] = Inr es"
  shows "names = event_files (length es)"
proof (rule nth_equalityI)
  have len: "length es = length names" using read_chain_length [OF assms] by simp
  then show "length names = length (event_files (length es))" by simp
  show "names ! j = event_files (length es) ! j" if "j < length names" for j
    using read_chain_events [OF assms] that len by (simp add: filename_def)
qed

lemma sort_appended:
  assumes "sort names = event_files n" "Suc n < 2 ^ 64" "mset names' = mset (event_filename (of_nat n) # names)"
  shows "sort names' = event_files n @ [event_filename (of_nat n)]"
proof -
  have "sorted (event_files (Suc n))" using assms(2) by (rule sorted_event_filenames)
  moreover have "mset (event_files (Suc n)) = mset names'"
    using assms(1,3) by (simp flip: assms(1))
  ultimately show ?thesis using properties_for_sort [of "event_files (Suc n)" names'] by simp
qed

lemma read_appended:
  assumes "safe_dir w d" "safe_dir w' d" "w' = new_file (d @ [event_filename (of_nat n)]) content w"
    and "entry_at w (d @ [event_filename (of_nat n)]) = None" "n < 2 ^ 64"
  shows "read_chain w' cid (map (\<lambda>n. Path True (d @ [n])) (event_files n)) 0 [] =
    read_chain w cid (map (\<lambda>n. Path True (d @ [n])) (event_files n)) 0 []"
proof (rule read_chain_cong)
  fix p assume "p \<in> set (map (\<lambda>n. Path True (d @ [n])) (event_files n))"
  then obtain i where i: "p = Path True (d @ [event_filename (of_nat i)])" "i < n" by auto
  then have "event_filename (of_nat i) < event_filename (of_nat n)"
    using assms(5) by (simp add: event_filename_less word_less_nat_alt unat_of_nat take_bit_nat_eq_self)
  then have "entry_at w' (d @ [event_filename (of_nat i)]) = entry_at w (d @ [event_filename (of_nat i)])"
    using assms(3) by auto
  then show "read_stable_text w' p (1024 * 1024) = read_stable_text w p (1024 * 1024)"
    unfolding i(1) using assms(1-3) by (intro read_stable_text_frame event_name_plain event_name_filename) auto
qed

lemma read_last:
  assumes "decides (read_stable_text w p (1024 * 1024)) (length (event_line e) \<le> 1024 * 1024) (event_line e)"
    and "valid_identifier cid" "ae_audit_chain_id e = cid" "ae_sequence e = of_nat n"
    and "ae_event_id e = cid @ ''.'' @ dec (unat (ae_sequence e))" "ae_previous_event_digest e = prev"
    and "filename p = event_filename (of_nat n)"
  shows "decides (read_chain w cid [p] n prev)
    (check_event e = Inr () \<and> free_strings_ok e \<and> length (event_line e) \<le> 1024 * 1024) [e]"
proof -
  have chain: "decode_audit_chain_record (event_line e) cid (filename p) (of_nat n) prev = decode_audit_event_record (event_line e)"
    using decode_event_line [of e] assms(2-7)
    by (auto simp: decode_audit_chain_record_def decides_def accepts_iff split: if_splits)
       (cases "decode_audit_event_record (event_line e)"; simp)+
  show ?thesis
    using assms(1) decode_event_line [of e] chain
    by (auto simp: decides_def accepts_iff bindE_eq_Inr split: if_splits)
qed

lemma read_chain_iff:
  assumes "list_all plain_name d" "t = [] \<or> t = [[]]" "valid_identifier cid" "plain_name cid" "fair_order w"
  shows "read_and_validate_chain w (Path True (d @ t)) cid = Inr es \<longleftrightarrow>
    safe_dir w (chain_dir d cid) \<and>
    list_all (chain_entry_ok w (Path True (chain_dir d cid))) (children w (chain_dir d cid)) \<and>
    length (children w (chain_dir d cid)) \<le> 2 ^ 64 - 1 \<and>
    read_chain w cid (map (\<lambda>n. Path True (chain_dir d cid @ [n])) (sort (children w (chain_dir d cid)))) 0 [] = Inr es"
proof -
  let ?c = "children w (chain_dir d cid)"
  have m: "mset (list_directory w (chain_dir d cid)) = mset ?c"
    using assms(5) by (simp add: fair_order_def list_directory_def)
  then have "sort (list_directory w (chain_dir d cid)) = sort ?c" by (rule sort_mset_cong)
  moreover have "length (list_directory w (chain_dir d cid)) = length ?c" using m by (rule mset_eq_length)
  moreover have "list_all P (list_directory w (chain_dir d cid)) \<longleftrightarrow> list_all P ?c" for P
    using mset_eq_setD [OF m] by (simp add: list_all_iff)
  ultimately show ?thesis
    unfolding read_and_validate_chain_def read_bounded_iff [OF assms(1-4)] Let_def by simp
qed

text \<open>A file added to a chain directory: the directory stays safe and its entries acceptable.\<close>

lemma appended_directory:
  assumes "safe_dir w d" "entry_at w (d @ [event_filename n]) = None" "w' = new_file (d @ [event_filename n]) content w"
    and "list_all (chain_entry_ok w (Path True d)) (children w d)"
  shows "safe_dir w' d" "children w' d = event_filename n # children w d"
    "list_all (chain_entry_ok w' (Path True d)) (children w' d)"
proof -
  show safe': "safe_dir w' d" unfolding assms(3) using assms(1,2) by (rule safe_dir_new_file) simp
  show kids: "children w' d = event_filename n # children w d"
    unfolding assms(3) using assms(2) by (rule children_new_file)
  have "entry_at w' (d @ [c]) = (if c = event_filename n then Some (File (w_next_ino w) content 1 (w_now w)) else entry_at w (d @ [c]))" for c
    by (simp add: assms(3))
  then show "list_all (chain_entry_ok w' (Path True d)) (children w' d)"
    using assms(4) event_name_filename
    by (auto simp: kids list_all_iff chain_entry_ok_iff [OF assms(1)] chain_entry_ok_iff [OF safe'])
qed

text \<open>Reading the extended directory: the old files first, with the old result, then the new one.\<close>

lemma read_extended:
  assumes "safe_dir w d" "entry_at w (d @ [event_filename (of_nat (length es))]) = None"
    and "w' = new_file (d @ [event_filename (of_nat (length es))]) (event_line e) w" "safe_dir w' d"
    and "read_chain w cid (map (\<lambda>n. Path True (d @ [n])) (event_files (length es))) 0 [] = Inr es"
    and "length es < 2 ^ 64" "valid_identifier cid" "e = next_event cid input es"
    and "length (event_line e) < 2 ^ 64" "\<not> w_refuses w Sys_open (d @ [event_filename (of_nat (length es))])"
  shows "decides (read_chain w' cid (map (\<lambda>n. Path True (d @ [n])) (event_files (Suc (length es)))) 0 [])
    (check_event e = Inr () \<and> free_strings_ok e \<and> length (event_line e) \<le> 1024 * 1024) (es @ [e])"
proof -
  let ?fn = "event_filename (of_nat (length es))" and ?prev = "if es = [] then [] else ae_event_digest (last es)"
  let ?p = "Path True (d @ [?fn])"
  have "read_chain w' cid (map (\<lambda>n. Path True (d @ [n])) (event_files (length es))) 0 [] = Inr es"
    using read_appended [OF assms(1,4,3,2,6)] assms(5) by simp
  then have seq: "read_chain w' cid (map (\<lambda>n. Path True (d @ [n])) (event_files (length es) @ [?fn])) 0 [] =
      bindE (read_chain w' cid [?p] (length es) ?prev) (\<lambda>es'. Inr (es @ es'))"
    unfolding map_append read_chain_append by simp
  have content: "decides (read_stable_text w' ?p (1024 * 1024)) (length (event_line e) \<le> 1024 * 1024) (event_line e)"
    by (rule read_stable_text_decides [OF assms(4) event_name_plain [OF event_name_filename]])
      (use assms(3,9,10) in simp_all)
  have "decides (read_chain w' cid [?p] (length es) ?prev)
      (check_event e = Inr () \<and> free_strings_ok e \<and> length (event_line e) \<le> 1024 * 1024) [e]"
    by (rule read_last [OF content assms(7)]) (simp_all add: assms(8) filename_def)
  then have "decides (read_chain w' cid (map (\<lambda>n. Path True (d @ [n])) (event_files (length es) @ [?fn])) 0 [])
      ((check_event e = Inr () \<and> free_strings_ok e \<and> length (event_line e) \<le> 1024 * 1024) \<and> True) (es @ [e])"
    unfolding seq by (rule decides_bindE) simp
  then show ?thesis by simp
qed

lemma append_extends:
  assumes root: "list_all plain_name d" "t = [] \<or> t = [[]]" "plain_name cid" and order: "fair_order w"
    and append: "append_event (Path True (d @ t)) cid input w = (Inr e, w')"
    and read: "read_and_validate_chain w (Path True (d @ t)) cid = Inr es" "length es < 2 ^ 64 - 1"
    and last: "length (event_line e) < 2 ^ 64" "\<not> w_refuses w Sys_open (chain_dir d cid @ [event_filename (of_nat (length es))])"
  shows "e = next_event cid input es \<and>
    decides (read_and_validate_chain w' (Path True (d @ t)) cid)
      (valid_identifier (ae_event_id e) \<and> free_strings_ok e \<and> length (event_line e) \<le> 1024 * 1024) (es @ [e])"
proof -
  let ?D = "chain_dir d cid" and ?fn = "event_filename (of_nat (length es))"
  let ?P = "\<lambda>n. Path True (chain_dir d cid @ [n])"
  obtain cid: "valid_identifier cid" and input: "validate_input input = Inr ()" and e: "e = next_event cid input es"
    and safe: "safe_dir w ?D" and absent: "entry_at w (?D @ [?fn]) = None" and w': "w' = new_file (?D @ [?fn]) (event_line e) w"
    using append_event_effect [OF root append] read(1) by (metis sum.inject(2))
  note old = read(1) [unfolded read_chain_iff [OF root(1,2) cid root(3) order]]
  then have chain: "read_chain w cid (map ?P (sort (children w ?D))) 0 [] = Inr es" by blast
  have files: "sort (children w ?D) = event_files (length es)" using chain by (rule read_chain_files)
  have small: "Suc (length es) < 2 ^ 64" "length es < 2 ^ 64" using read(2) by simp_all
  have "list_all (chain_entry_ok w (Path True ?D)) (children w ?D)" using old by blast
  note dir = appended_directory [OF safe absent w' this]
  have sort': "sort (children w' ?D) = event_files (Suc (length es))"
    using sort_appended [OF files small(1), of "children w' ?D"] dir(2) by simp
  have count: "length (children w' ?D) \<le> 2 ^ 64 - 1"
    using arg_cong [OF files, of length] dir(2) read(2) by simp
  have checked: "check_event e = Inr () \<longleftrightarrow> valid_identifier (ae_event_id e)"
    unfolding e using input cid read_chain_events [OF chain] by (intro check_next_event) auto
  have "fair_order w'" using order by (simp add: w' fair_order_def)
  moreover note read_extended [OF safe absent w' dir(1) chain [unfolded files] small(2) cid e last]
  ultimately have "decides (read_and_validate_chain w' (Path True (d @ t)) cid)
      (check_event e = Inr () \<and> free_strings_ok e \<and> length (event_line e) \<le> 1024 * 1024) (es @ [e])"
    using dir(1,3) count unfolding decides_def accepts_iff
    by (simp only: read_chain_iff [OF root(1,2) cid root(3)] sort') auto
  then show ?thesis using e unfolding checked by blast
qed

section \<open>A sample repository\<close>

definition audit_world :: "string \<Rightarrow> world" where
  "audit_world cid = \<lparr>w_tree = [([''a''], Dir 1), ([''a'', ''chains''], Dir 2), ([''a'', ''chains'', cid], Dir 3)],
    w_dev = 1, w_cwd = [], w_next_ino = 9, w_now = 0, w_clock = [], w_order = (\<lambda>xs. xs), w_refuses = (\<lambda>_ _. False),
    w_writes = (\<lambda>_. replicate (1024 * 1024) (Wrote 1))\<rparr>"

definition sample_input :: audit_input where
  "sample_input = \<lparr>ae_created_at = ''2026-01-01T00:00:00Z'', ae_operation = ''plan'', ae_phase = ''planned'',
    ae_status = ''pass'', ae_subject_type = ''plan'', ae_subject_id = ''p1'',
    ae_details_digest = replicate 64 (CHR ''0''), ae_transaction_id = [], ae_plan_id = [], ae_message = ''ok''\<rparr>"

abbreviation sample_event :: "string \<Rightarrow> audit_event" where
  "sample_event cid \<equiv> next_event cid sample_input []"

definition sample_file :: "string \<Rightarrow> string list" where
  "sample_file cid = [''a'', ''chains'', cid, event_filename 0]"

lemma sample_input_valid: "validate_input sample_input = Inr ()"
  by code_simp

lemma sample_safe: "plain_name cid \<Longrightarrow> safe_dir (audit_world cid) [''a'', ''chains'', cid]"
  by (simp add: safe_dir_def audit_world_def entry_at_def plain_name_def le_Suc_eq)

lemma sample_fair: "fair_order (audit_world cid)"
  by (simp add: fair_order_def audit_world_def)

lemma sample_repository: "audit_repository (audit_world cid) (path_of ''/a'') = Inr (Path True ([''a''] @ []))"
proof -
  have p: "path_of ''/a'' = Path True [''a'']" by code_simp
  have a: "list_all plain_name [''a'']" by (simp add: plain_name_def)
  have "safe_dir (audit_world cid) [''a'']"
    by (simp add: safe_dir_def audit_world_def entry_at_def plain_name_def le_Suc_eq)
  then have "require_safe_directory (audit_world cid) (Path True [''a'']) = Inr ()"
    using require_safe_plain [OF a] by blast
  then show ?thesis by (simp add: audit_repository_def repository_at_def p absolute_def normal_names_plain [OF a] Let_def)
qed

lemma sample_empty:
  assumes "valid_identifier cid" "plain_name cid"
  shows "read_and_validate_chain (audit_world cid) (Path True ([''a''] @ [])) cid = Inr []"
proof -
  have "children (audit_world cid) (chain_dir [''a''] cid) = []"
    by (simp add: children_def audit_world_def chain_dir_def)
  then show ?thesis
    using assms sample_safe [OF assms(2)] sample_fair
    by (subst read_chain_iff) (simp_all add: plain_name_def chain_dir_def)
qed

lemma sample_size: "length cid \<le> 128 \<Longrightarrow> length (event_line (sample_event cid)) \<le> 1024 * 1024"
proof -
  assume len: "length cid \<le> 128"
  let ?e = "sample_event cid"
  have digest: "length (ae_event_digest ?e) = 64"
    using valid_sha256_hex by (simp add: next_event_digest sha256_canonical_spec valid_sha256_def flip: sha256_hex_spec)
  have "text_bound (event_document ?e) \<le> 8000"
    unfolding event_document_object object_bound [OF document_distinct] using len digest
    by (simp add: document_members_def payload_members_def base_members_def optional_member_def object_bound)
      (simp add: next_event_def sample_input_def Let_def audit_input.extend_def dec_small)
  then show ?thesis using length_canonical [of "event_document ?e"] by (simp add: event_line_def)
qed

lemma sample_append:
  assumes "valid_identifier cid" "plain_name cid"
  shows "append_event (Path True ([''a''] @ [])) cid sample_input (audit_world cid) =
    (Inr (sample_event cid), new_file (sample_file cid) (event_line (sample_event cid)) (audit_world cid))"
proof -
  have plain: "list_all plain_name [''a'']" "list_all plain_name (chain_dir [''a''] cid)"
    using assms(2) by (simp_all add: plain_name_def chain_dir_def)
  have "length (event_line (sample_event cid)) \<le> 1024 * 1024"
    using assms(1) by (intro sample_size) (simp add: valid_identifier_def)
  then have "write_new_durable_text (Path True (chain_dir [''a''] cid @ [event_filename 0]))
      (event_line (sample_event cid)) (audit_world cid) =
    (Inr (), new_file (chain_dir [''a''] cid @ [event_filename 0]) (event_line (sample_event cid)) (audit_world cid))"
    using sample_safe [OF assms(2)] event_name_plain [OF event_name_filename]
    by (intro write_new_completes) (simp_all add: audit_world_def chain_dir_def entry_at_def list_all_length filter_replicate)
  then show ?thesis
    using sample_empty [OF assms] sample_input_valid
      chain_path_names [OF plain(1) _ assms(1), of "[]"] event_path [OF plain(2), of 0]
    by (simp add: append_event_def Let_def event_line_def [symmetric] sample_file_def chain_dir_def)
      (simp add: bindS_def returnS_def)
qed

lemma sample_read:
  assumes "valid_identifier cid" "plain_name cid"
  shows "decides (read_and_validate_chain (new_file (sample_file cid) (event_line (sample_event cid)) (audit_world cid))
    (Path True ([''a''] @ [])) cid) (valid_identifier (cid @ ''.0'')) [sample_event cid]"
proof -
  have small: "length (event_line (sample_event cid)) \<le> 1024 * 1024"
    using assms(1) by (intro sample_size) (simp add: valid_identifier_def)
  have "dec 0 = ''0''" by code_simp
  moreover have "free_strings_ok (sample_event cid)"
    by (simp add: free_strings_ok_def next_event_def sample_input_def Let_def audit_input.extend_def string_ok_lit)
  ultimately show ?thesis
    using append_extends [OF _ _ assms(2) sample_fair sample_append [OF assms] sample_empty [OF assms]] small
    by (simp add: plain_name_def audit_world_def)
qed

section \<open>Properties\<close>

text \<open>
  C10. Appending to a readable chain writes exactly the next event, and afterwards the chain reads as
  the old events followed by the new one, if the event's identifier still fits 128 characters,
  its free strings are UTF-8 and its record is at most 1 MiB. Otherwise the whole
  chain is no longer readable.
\<close>

theorem append_extends_chain:
  assumes "audit_repository w0 p = Inr root" "plain_name cid" "fair_order w"
    and "read_and_validate_chain w root cid = Inr es" "length es < 2 ^ 64 - 1"
    and "append_event root cid input w = (Inr e, w')"
    and "length (event_line e) < 2 ^ 64" "\<forall>q. \<not> w_refuses w Sys_open q"
  shows "e = next_event cid input es \<and>
    (if valid_identifier (ae_event_id e) \<and> string_ok default_limits (ae_created_at e) \<and>
        string_ok default_limits (ae_message e) \<and> length (event_line e) \<le> 1024 * 1024
     then read_and_validate_chain w' root cid = Inr (es @ [e])
     else \<not> accepts (read_and_validate_chain w' root cid))"
proof -
  obtain d t where root: "root = Path True (d @ t)" "t = [] \<or> t = [[]]" "list_all plain_name d"
    using assms(1) unfolding audit_repository_def by (rule repository_root)
  note ext = append_extends [OF root(3,2) assms(2,3), folded root(1), OF assms(6,4,5,7)]
  show ?thesis using ext assms(8) unfolding decides_def free_strings_ok_def by (simp split: if_splits)
qed

theorem append_extends_chain_witness:
  "\<exists>e w'. append_event (Path True [''a'']) ''c'' sample_input (audit_world ''c'') = (Inr e, w') \<and>
    read_and_validate_chain w' (Path True [''a'']) ''c'' = Inr [e]"
proof -
  have c: "valid_identifier ''c''" "valid_identifier ''c.0''" "dec 0 = ''0''" by code_simp+
  have p: "plain_name ''c''" by (simp add: plain_name_def)
  have small: "length (event_line (sample_event ''c'')) \<le> 1024 * 1024" by (rule sample_size) simp
  have ok: "string_ok default_limits (ae_created_at (sample_event ''c''))" "string_ok default_limits (ae_message (sample_event ''c''))"
    by (simp_all add: next_event_def sample_input_def Let_def audit_input.extend_def string_ok_lit)
  have "\<forall>q. \<not> w_refuses (audit_world ''c'') Sys_open q" by (simp add: audit_world_def)
  then show ?thesis
    using append_extends_chain [OF sample_repository p sample_fair sample_empty [OF c(1) p] _ sample_append [OF c(1) p]]
      small ok c sample_append [OF c(1) p] by auto
qed

text \<open>
  C12. A chain that is accepted is a hash chain: event \<open>i\<close> has number \<open>i\<close>, names this chain,
  carries the digest of its own payload and names the digest of event \<open>i - 1\<close>.
\<close>

theorem accepted_chain_linked:
  assumes "read_and_validate_chain w root cid = Inr es" "i < length es"
  shows "ae_sequence (es ! i) = of_nat i \<and> ae_audit_chain_id (es ! i) = cid \<and>
    ae_event_digest (es ! i) = sha256_hex (canonical (event_payload (es ! i))) \<and>
    ae_previous_event_digest (es ! i) = (if i = 0 then [] else ae_event_digest (es ! (i - 1)))"
proof -
  obtain ps where ps: "read_chain w cid ps 0 [] = Inr es"
    using assms(1) by (rule read_accepted)
  note facts = read_chain_events [OF ps]
  have prev: "ae_previous_event_digest (es ! i) = (if i = 0 then [] else ae_event_digest (es ! (i - 1)))"
    using chained_nth [OF conjunct1 [OF facts] assms(2)] .
  have "check_event (es ! i) = Inr ()" using facts assms(2) by simp
  then have "ae_event_digest (es ! i) = sha256_hex (canonical (event_payload (es ! i)))"
    by (simp add: check_event_def bindE_eq_Inr sha256_canonical_spec sha256_hex_spec)
  with facts prev assms(2) show ?thesis by simp
qed

lemma sample_chain:
  "read_and_validate_chain (new_file (sample_file ''c'') (event_line (sample_event ''c'')) (audit_world ''c''))
    (Path True [''a'']) ''c'' = Inr [sample_event ''c'']"
proof -
  have "valid_identifier ''c''" "valid_identifier (''c'' @ ''.0'')" by code_simp+
  with sample_read [of "''c''"] show ?thesis by (simp add: decides_def plain_name_def)
qed

theorem accepted_chain_linked_witness:
  "ae_event_digest (sample_event ''c'') = sha256_hex (canonical (event_payload (sample_event ''c'')))"
  using accepted_chain_linked [OF sample_chain, of 0] by simp

text \<open>
  C11. Two accepted chains whose last events have the same digest are equal event by event, unless
  SHA-256 collides on two of their payloads: the last digest commits to the whole history.
\<close>

theorem equal_heads_equal_history:
  assumes "read_and_validate_chain w root cid = Inr es" "read_and_validate_chain w' root' cid' = Inr es'"
    and "es \<noteq> []" "es' \<noteq> []" "ae_event_digest (last es) = ae_event_digest (last es')"
    and "length es \<le> 2 ^ 64" "length es' \<le> 2 ^ 64"
    and "\<forall>e \<in> set es. \<forall>e' \<in> set es'. sha256_hex (canonical (event_payload e)) = sha256_hex (canonical (event_payload e')) \<longrightarrow>
      canonical (event_payload e) = canonical (event_payload e')"
  shows "es = es'"
proof (rule audit.same_head_same_chain)
  obtain ps where "read_chain w cid ps 0 [] = Inr es"
    using assms(1) by (rule read_accepted)
  then show "audit.sealed es" using assms(6) by (rule read_chain_sealed)
  obtain ps where "read_chain w' cid' ps 0 [] = Inr es'"
    using assms(2) by (rule read_accepted)
  then show "audit.sealed es'" using assms(7) by (rule read_chain_sealed)
  show "\<not> audit.collides es es'" using assms(8) by (auto simp: audit.collides_def event_text_def)
qed (use assms in auto)

theorem equal_heads_equal_history_witness:
  "\<exists>w es. read_and_validate_chain w (Path True [''a'']) ''c'' = Inr es \<and> es \<noteq> [] \<and> es = [sample_event ''c'']"
  using equal_heads_equal_history [OF sample_chain sample_chain] sample_chain by auto



end
