(* ===== verification/Usk_State.thy ===== *)
theory Usk_State
  imports Usk_Repository
begin

text \<open>
  The state repository, \<^verbatim>\<open>runtime/setup/state/usk_state_repository.cpp\<close>: ownership manifests (what an
  installation owns below its target root, with a digest over the canonical payload) and installed-state
  records that refer to them. \<^verbatim>\<open>validate_ownership\<close> sorts the manifest it is given, so the model
  returns the sorted manifest. Among installed states with equal time and transaction
  \<^verbatim>\<open>std::sort\<close> may leave any of them last; the model keeps the order of the listing.
\<close>

section \<open>Records\<close>

record owned_file =
  of_relative_path :: string
  of_sha256 :: string
  of_size_bytes :: "64 word"

record ownership_manifest =
  om_manifest_id :: string
  om_manifest_digest :: string
  om_install_id :: string
  om_target_root :: string
  om_created_by_transaction_id :: string
  om_files :: "owned_file list"
  om_directories :: "string list"

record entrypoint =
  ep_entrypoint_id :: string
  ep_relative_path :: string
  ep_kind :: string

record verification_summary =
  vs_report_id :: string
  vs_report_digest :: string
  vs_status :: string
  vs_verified_at :: string

record installed_state =
  is_install_id :: string
  is_product_id :: string
  is_product_version :: string
  is_recipe_digest :: string
  is_source_archive_digest :: string
  is_target_root :: string
  is_component_selection :: "string list"
  is_ownership_manifest_ref :: string
  is_ownership_manifest_digest :: string
  is_entrypoints :: "entrypoint list"
  is_setup_abi_major :: "64 word"
  is_setup_abi_minor :: "64 word"
  is_provider_revision :: string
  is_transaction_id :: string
  is_created_at :: string
  is_last_verification :: verification_summary
  is_audit_chain_id :: string
  is_lifecycle_status :: string

section \<open>Ownership\<close>

lemma drop_dropWhile_less: "s \<noteq> [] \<Longrightarrow> length (drop (Suc 0) (dropWhile P s)) < length s"
  using length_dropWhile_le [of P s] by (simp add: less_diff_conv2 flip: length_greater_0_conv)

function safe_parts :: "string \<Rightarrow> bool" where
  "safe_parts s = (if s = [] then True
     else let part = takeWhile (\<lambda>c. c \<noteq> slash) s in
       if part = [] \<or> part = ''.'' \<or> part = ''..'' then False
       else safe_parts (drop 1 (dropWhile (\<lambda>c. c \<noteq> slash) s)))"
  by pat_completeness auto
termination
  by (relation "measure length") (simp_all add: drop_dropWhile_less del: length_drop)

declare safe_parts.simps [simp del]

definition safe_relative :: "string \<Rightarrow> bool" where
  "safe_relative value =
    (if value = [] \<or> length value > 4096 \<or> hd value = slash \<or> hd value = CHR 0x5C \<or>
        CHR 0x5C \<in> set value \<or> CHR '':'' \<in> set value then False
     else safe_parts value)"

definition state_exact_members :: "jvalue \<Rightarrow> string list \<Rightarrow> unit res" where
  "state_exact_members v expected =
    bindE (member_names v) (\<lambda>actual.
    requireE (actual = set expected) ''durable record member set is incompatible'')"

definition owned_file_value :: "owned_file \<Rightarrow> jvalue" where
  "owned_file_value f = object
    [(''relative_path'', JString (of_relative_path f)),
     (''sha256'', JString (of_sha256 f)),
     (''size_bytes'', JUnsigned (of_size_bytes f))]"

definition directory_value :: "string \<Rightarrow> jvalue" where
  "directory_value directory = object [(''relative_path'', JString directory)]"

definition ownership_members :: "ownership_manifest \<Rightarrow> (string \<times> jvalue) list" where
  "ownership_members manifest =
    [(''created_by_transaction_id'', JString (om_created_by_transaction_id manifest)),
     (''directories'', JArray (map directory_value (om_directories manifest))),
     (''files'', JArray (map owned_file_value (om_files manifest))),
     (''install_id'', JString (om_install_id manifest)),
     (''manifest_id'', JString (om_manifest_id manifest)),
     (''schema'', JString ''usk.ownership_manifest.v1''),
     (''target_root'', JString (om_target_root manifest))]"

definition ownership_payload :: "ownership_manifest \<Rightarrow> jvalue" where
  "ownership_payload manifest = object (ownership_members manifest)"

text \<open>The pieces the digest is fed with, one by one, without building the document.\<close>

definition quoted :: "string \<Rightarrow> string" where
  "quoted value = canonical (JString value)"

definition quote_key :: "string \<Rightarrow> string" where
  "quote_key key = quote_ch # key @ [quote_ch]"

fun separated :: "(nat \<times> string list) list \<Rightarrow> string list" where
  "separated [] = []"
| "separated ((index, pieces) # rest) = (if index \<noteq> 0 then ['',''] else []) @ pieces @ separated rest"

definition ownership_pieces :: "ownership_manifest \<Rightarrow> string list" where
  "ownership_pieces manifest =
    [''{'' @ quote_key ''created_by_transaction_id'' @ '':'',
     quoted (om_created_by_transaction_id manifest),
     '','' @ quote_key ''directories'' @ '':[''] @
    separated (enumerate 0 (map (\<lambda>directory.
      [''{'' @ quote_key ''relative_path'' @ '':'', quoted directory, ''}'']) (om_directories manifest))) @
    [''],'' @ quote_key ''files'' @ '':[''] @
    separated (enumerate 0 (map (\<lambda>f.
      [''{'' @ quote_key ''relative_path'' @ '':'', quoted (of_relative_path f),
       '','' @ quote_key ''sha256'' @ '':'', quoted (of_sha256 f),
       '','' @ quote_key ''size_bytes'' @ '':'', dec (unat (of_size_bytes f)), ''}'']) (om_files manifest))) @
    [''],'' @ quote_key ''install_id'' @ '':'', quoted (om_install_id manifest),
     '','' @ quote_key ''manifest_id'' @ '':'', quoted (om_manifest_id manifest),
     '','' @ quote_key ''schema'' @ '':'' @ quote_key ''usk.ownership_manifest.v1'' @ '','' @ quote_key ''target_root'' @ '':'',
     quoted (om_target_root manifest), ''}'']"

definition ownership_digest :: "ownership_manifest \<Rightarrow> string" where
  "ownership_digest manifest =
    (case bindE (feed_all sha_update sha_new (ownership_pieces manifest)) sha_finish of
       Inl _ \<Rightarrow> [] | Inr (hex, _) \<Rightarrow> hex)"

definition ownership_document :: "ownership_manifest \<Rightarrow> jvalue" where
  "ownership_document manifest = (case ownership_payload manifest of
     JObject m \<Rightarrow> JObject (fst (obj_emplace ''manifest_digest'' (JString (om_manifest_digest manifest)) m)) | v \<Rightarrow> v)"

fun check_files :: "string \<Rightarrow> owned_file list \<Rightarrow> bool" where
  "check_files previous [] = True"
| "check_files previous (f # files) =
    (if \<not> safe_relative (of_relative_path f) \<or> \<not> valid_sha256 (of_sha256 f) \<or> of_relative_path f = previous
     then False else check_files (of_relative_path f) files)"

fun check_directories :: "string \<Rightarrow> string list \<Rightarrow> bool" where
  "check_directories previous [] = True"
| "check_directories previous (directory # directories) =
    (if \<not> safe_relative directory \<or> directory = previous then False
     else check_directories directory directories)"

text \<open>The loop over the parents of a relative path; it ends at the empty path.\<close>

function check_parents :: "string set \<Rightarrow> path \<Rightarrow> bool" where
  "check_parents directory_set parent = (if elements parent = [] then True
     else path_string parent \<in> directory_set \<and> check_parents directory_set (parent_path parent))"
  by pat_completeness auto
termination
  by (relation "measure (\<lambda>(_, p). length (elements p))") (auto simp: parent_path_def)

declare check_parents.simps [simp del]

fun check_closure :: "string set \<Rightarrow> owned_file list \<Rightarrow> unit res" where
  "check_closure directory_set [] = Inr ()"
| "check_closure directory_set (f # files) =
    (if of_relative_path f \<in> directory_set then throwE ''ownership path cannot be both a file and directory''
     else if \<not> check_parents directory_set (parent_path (path_of (of_relative_path f)))
     then throwE ''ownership directory closure omits a file parent''
     else check_closure directory_set files)"

definition validate_ownership :: "ownership_manifest \<Rightarrow> ownership_manifest res" where
  "validate_ownership input =
    (if \<not> valid_identifier (om_manifest_id input) \<or> \<not> valid_identifier (om_install_id input) \<or>
        \<not> valid_identifier (om_created_by_transaction_id input) \<or>
        om_target_root input = [] \<or> length (om_target_root input) > 32768
     then throwE ''ownership identity is invalid''
     else let manifest = input\<lparr>om_files := sort_key of_relative_path (om_files input),
            om_directories := sort (om_directories input)\<rparr> in
       bindE (requireE (check_files [] (om_files manifest)) ''ownership file closure is invalid or duplicated'') (\<lambda>_.
       bindE (requireE (check_directories [] (om_directories manifest))
         ''ownership directory closure is invalid or duplicated'') (\<lambda>_.
       bindE (check_closure (set (om_directories manifest)) (om_files manifest)) (\<lambda>_.
       Inr manifest))))"

definition unsigned_at :: "jvalue \<Rightarrow> string \<Rightarrow> 64 word res" where
  "unsigned_at v key = bindE (jat v key) as_unsigned"

definition parse_owned_file :: "jvalue \<Rightarrow> owned_file res" where
  "parse_owned_file item =
    bindE (state_exact_members item [''relative_path'', ''sha256'', ''size_bytes'']) (\<lambda>_.
    bindE (string_at item ''relative_path'') (\<lambda>relative_path.
    bindE (string_at item ''sha256'') (\<lambda>sha256.
    bindE (unsigned_at item ''size_bytes'') (\<lambda>size_bytes.
    Inr \<lparr>of_relative_path = relative_path, of_sha256 = sha256, of_size_bytes = size_bytes\<rparr>))))"

definition parse_directory :: "jvalue \<Rightarrow> string res" where
  "parse_directory item =
    bindE (state_exact_members item [''relative_path'']) (\<lambda>_. string_at item ''relative_path'')"

definition parse_ownership :: "jvalue \<Rightarrow> ownership_manifest res" where
  "parse_ownership v =
    bindE (state_exact_members v [''schema'', ''manifest_id'', ''manifest_digest'', ''install_id'', ''target_root'',
      ''created_by_transaction_id'', ''files'', ''directories'']) (\<lambda>_.
    bindE (string_at v ''schema'') (\<lambda>schema.
    bindE (requireE (schema = ''usk.ownership_manifest.v1'') ''ownership schema is incompatible'') (\<lambda>_.
    bindE (string_at v ''manifest_id'') (\<lambda>manifest_id.
    bindE (string_at v ''manifest_digest'') (\<lambda>manifest_digest.
    bindE (string_at v ''install_id'') (\<lambda>install_id.
    bindE (string_at v ''target_root'') (\<lambda>target_root.
    bindE (string_at v ''created_by_transaction_id'') (\<lambda>transaction_id.
    bindE (bindE (jat v ''files'') as_array) (\<lambda>items.
    bindE (mapE parse_owned_file items) (\<lambda>files.
    bindE (bindE (jat v ''directories'') as_array) (\<lambda>items.
    bindE (mapE parse_directory items) (\<lambda>directories.
    validate_ownership \<lparr>om_manifest_id = manifest_id, om_manifest_digest = manifest_digest,
      om_install_id = install_id, om_target_root = target_root, om_created_by_transaction_id = transaction_id,
      om_files = files, om_directories = directories\<rparr>))))))))))))"

definition decode_ownership_record :: "string \<Rightarrow> string \<Rightarrow> ownership_manifest res" where
  "decode_ownership_record content manifest_id =
    (if \<not> valid_identifier manifest_id then throwE ''ownership lookup id is invalid''
     else bindE (canonical_document (16 * 1024 * 1024) ''ownership record exceeds its byte bound''
         ''ownership record is not canonical'' content) (\<lambda>document.
       bindE (parse_ownership document) (\<lambda>result.
       if \<not> valid_sha256 (om_manifest_digest result) \<or> ownership_digest result \<noteq> om_manifest_digest result
       then throwE ''ownership manifest digest does not match its canonical payload''
       else if om_manifest_id result \<noteq> manifest_id \<and> om_install_id result \<noteq> manifest_id
       then throwE ''ownership lookup identity mismatch''
       else Inr result)))"

section \<open>Installed states\<close>

definition entrypoint_value :: "entrypoint \<Rightarrow> jvalue" where
  "entrypoint_value e = object
    [(''entrypoint_id'', JString (ep_entrypoint_id e)),
     (''kind'', JString (ep_kind e)),
     (''relative_path'', JString (ep_relative_path e))]"

definition verification_value :: "verification_summary \<Rightarrow> jvalue" where
  "verification_value v = object
    [(''report_digest'', JString (vs_report_digest v)),
     (''report_id'', JString (vs_report_id v)),
     (''status'', JString (vs_status v)),
     (''verified_at'', JString (vs_verified_at v))]"

definition abi_value :: "installed_state \<Rightarrow> jvalue" where
  "abi_value state = object
    [(''major'', JUnsigned (is_setup_abi_major state)),
     (''minor'', JUnsigned (is_setup_abi_minor state)),
     (''provider_revision'', JString (is_provider_revision state))]"

definition installed_fields :: "installed_state \<Rightarrow> (string \<times> jvalue) list" where
  "installed_fields state =
    [(''audit_chain_id'', JString (is_audit_chain_id state)),
     (''component_selection'', JArray (map JString (is_component_selection state))),
     (''created_at'', JString (is_created_at state)),
     (''entrypoints'', JArray (map entrypoint_value (is_entrypoints state))),
     (''install_id'', JString (is_install_id state)),
     (''last_verification'', verification_value (is_last_verification state)),
     (''lifecycle_status'', JString (is_lifecycle_status state)),
     (''ownership_manifest_digest'', JString (is_ownership_manifest_digest state)),
     (''ownership_manifest_ref'', JString (is_ownership_manifest_ref state)),
     (''product_id'', JString (is_product_id state)),
     (''product_version'', JString (is_product_version state)),
     (''recipe_digest'', JString (is_recipe_digest state)),
     (''schema'', JString ''usk.installed_state.v1''),
     (''setup_abi'', abi_value state),
     (''source_archive_digest'', JString (is_source_archive_digest state)),
     (''target_root'', JString (is_target_root state)),
     (''target_scope'', JString ''portable''),
     (''transaction_id'', JString (is_transaction_id state))]"

definition installed_document :: "installed_state \<Rightarrow> jvalue" where
  "installed_document state = object (installed_fields state)"

definition installed_members :: "string list" where
  "installed_members =
    [''schema'', ''install_id'', ''product_id'', ''product_version'', ''recipe_digest'',
     ''source_archive_digest'', ''target_root'', ''target_scope'', ''component_selection'',
     ''ownership_manifest_ref'', ''ownership_manifest_digest'', ''entrypoints'', ''setup_abi'',
     ''transaction_id'', ''created_at'', ''last_verification'', ''audit_chain_id'', ''lifecycle_status'']"

definition ownership_record_id :: "installed_state \<Rightarrow> string" where
  "ownership_record_id state =
    take (length (is_ownership_manifest_ref state) - 15) (drop 10 (is_ownership_manifest_ref state))"

definition entrypoint_ok :: "entrypoint \<Rightarrow> bool" where
  "entrypoint_ok e \<longleftrightarrow> valid_identifier (ep_entrypoint_id e) \<and> safe_relative (ep_relative_path e) \<and>
    (ep_kind e = ''application'' \<or> ep_kind e = ''tool'' \<or> ep_kind e = ''server'')"

definition validate_installed :: "installed_state \<Rightarrow> unit res" where
  "validate_installed state =
    bindE (requireE (valid_identifier (is_install_id state) \<and> valid_identifier (is_product_id state) \<and>
      valid_identifier (is_transaction_id state) \<and> valid_identifier (is_audit_chain_id state) \<and>
      valid_identifier (is_provider_revision state) \<and>
      is_product_version state \<noteq> [] \<and> is_target_root state \<noteq> [] \<and> is_created_at state \<noteq> [] \<and>
      valid_sha256 (is_recipe_digest state) \<and> valid_sha256 (is_source_archive_digest state) \<and>
      valid_sha256 (is_ownership_manifest_digest state) \<and>
      valid_sha256 (vs_report_digest (is_last_verification state)) \<and>
      is_setup_abi_major state \<noteq> 0 \<and> is_component_selection state \<noteq> [] \<and> is_entrypoints state \<noteq> [])
      ''installed-state identity or required binding is invalid'') (\<lambda>_.
    bindE (requireE (vs_status (is_last_verification state) \<in> set [''pass'', ''warn'', ''fail''] \<and>
      is_lifecycle_status state \<in> set [''installed'', ''verified'', ''repair_required'',
        ''move_pending_acceptance'', ''uninstall_blocked'', ''recovery_required'', ''retired''])
      ''installed-state status is invalid'') (\<lambda>_.
    bindE (requireE (list_all valid_identifier (is_component_selection state) \<and> distinct (is_component_selection state))
      ''installed-state component selection is invalid'') (\<lambda>_.
    bindE (requireE (list_all entrypoint_ok (is_entrypoints state) \<and>
      distinct (map ep_entrypoint_id (is_entrypoints state))) ''installed-state entrypoint is invalid'') (\<lambda>_.
    requireE (take 10 (is_ownership_manifest_ref state) = ''ownership/'' \<and>
      length (is_ownership_manifest_ref state) > 15 \<and>
      drop (length (is_ownership_manifest_ref state) - 5) (is_ownership_manifest_ref state) = ''.json'' \<and>
      valid_identifier (ownership_record_id state))
      ''installed-state ownership reference is not repository-local and exact''))))"

definition parse_entrypoint :: "jvalue \<Rightarrow> entrypoint res" where
  "parse_entrypoint item =
    bindE (state_exact_members item [''entrypoint_id'', ''relative_path'', ''kind'']) (\<lambda>_.
    bindE (string_at item ''entrypoint_id'') (\<lambda>entrypoint_id.
    bindE (string_at item ''relative_path'') (\<lambda>relative_path.
    bindE (string_at item ''kind'') (\<lambda>kind.
    Inr \<lparr>ep_entrypoint_id = entrypoint_id, ep_relative_path = relative_path, ep_kind = kind\<rparr>))))"

definition parse_verification :: "jvalue \<Rightarrow> verification_summary res" where
  "parse_verification verification =
    bindE (state_exact_members verification [''report_id'', ''report_digest'', ''status'', ''verified_at'']) (\<lambda>_.
    bindE (string_at verification ''report_id'') (\<lambda>report_id.
    bindE (string_at verification ''report_digest'') (\<lambda>report_digest.
    bindE (string_at verification ''status'') (\<lambda>status.
    bindE (string_at verification ''verified_at'') (\<lambda>verified_at.
    Inr \<lparr>vs_report_id = report_id, vs_report_digest = report_digest, vs_status = status, vs_verified_at = verified_at\<rparr>)))))"

definition parse_installed :: "jvalue \<Rightarrow> installed_state res" where
  "parse_installed v =
    bindE (state_exact_members v installed_members) (\<lambda>_.
    bindE (string_at v ''schema'') (\<lambda>schema.
    bindE (if schema \<noteq> ''usk.installed_state.v1'' then Inr False
      else bindE (string_at v ''target_scope'') (\<lambda>scope. Inr (scope = ''portable''))) (\<lambda>compatible.
    bindE (requireE compatible ''installed-state schema or scope is incompatible'') (\<lambda>_.
    bindE (string_at v ''install_id'') (\<lambda>install_id.
    bindE (string_at v ''product_id'') (\<lambda>product_id.
    bindE (string_at v ''product_version'') (\<lambda>product_version.
    bindE (string_at v ''recipe_digest'') (\<lambda>recipe_digest.
    bindE (string_at v ''source_archive_digest'') (\<lambda>source_archive_digest.
    bindE (string_at v ''target_root'') (\<lambda>target_root.
    bindE (bindE (jat v ''component_selection'') as_array) (\<lambda>items.
    bindE (mapE as_string items) (\<lambda>components.
    bindE (string_at v ''ownership_manifest_ref'') (\<lambda>manifest_ref.
    bindE (string_at v ''ownership_manifest_digest'') (\<lambda>manifest_digest.
    bindE (bindE (jat v ''entrypoints'') as_array) (\<lambda>items.
    bindE (mapE parse_entrypoint items) (\<lambda>entrypoints.
    bindE (jat v ''setup_abi'') (\<lambda>abi.
    bindE (state_exact_members abi [''major'', ''minor'', ''provider_revision'']) (\<lambda>_.
    bindE (unsigned_at abi ''major'') (\<lambda>major.
    bindE (unsigned_at abi ''minor'') (\<lambda>minor.
    bindE (string_at abi ''provider_revision'') (\<lambda>provider_revision.
    bindE (string_at v ''transaction_id'') (\<lambda>transaction_id.
    bindE (string_at v ''created_at'') (\<lambda>created_at.
    bindE (bindE (jat v ''last_verification'') parse_verification) (\<lambda>verification.
    bindE (string_at v ''audit_chain_id'') (\<lambda>audit_chain_id.
    bindE (string_at v ''lifecycle_status'') (\<lambda>lifecycle_status.
    let result = \<lparr>is_install_id = install_id, is_product_id = product_id, is_product_version = product_version,
      is_recipe_digest = recipe_digest, is_source_archive_digest = source_archive_digest, is_target_root = target_root,
      is_component_selection = components, is_ownership_manifest_ref = manifest_ref,
      is_ownership_manifest_digest = manifest_digest, is_entrypoints = entrypoints, is_setup_abi_major = major,
      is_setup_abi_minor = minor, is_provider_revision = provider_revision, is_transaction_id = transaction_id,
      is_created_at = created_at, is_last_verification = verification, is_audit_chain_id = audit_chain_id,
      is_lifecycle_status = lifecycle_status\<rparr> in
    bindE (validate_installed result) (\<lambda>_. Inr result)))))))))))))))))))))))))))"

definition decode_installed_record :: "string \<Rightarrow> installed_state res" where
  "decode_installed_record content =
    bindE (canonical_document (4 * 1024 * 1024) ''installed-state record exceeds its byte bound''
      ''installed-state record is not canonical'' content) parse_installed"

definition serialize_installed_state :: "installed_state \<Rightarrow> string res" where
  "serialize_installed_state state =
    bindE (validate_installed state) (\<lambda>_. Inr (canonical (installed_document state) @ newline))"

section \<open>The repository\<close>

definition state_repository :: "world \<Rightarrow> path \<Rightarrow> path res" where
  "state_repository w state_root = repository_at w state_root"

definition state_initialize_layout :: "path \<Rightarrow> unit io" where
  "state_initialize_layout state_root =
    bindS (liftS (\<lambda>w. require_safe_directory w state_root)) (\<lambda>_.
    bindS (create_directory_exclusive state_root ''ownership'') (\<lambda>_.
    create_directory_exclusive state_root ''installed''))"

definition record_path :: "path \<Rightarrow> string \<Rightarrow> string \<Rightarrow> path" where
  "record_path root directory name = path_append (path_append root (path_of directory)) (path_of name)"

definition write_ownership :: "path \<Rightarrow> ownership_manifest \<Rightarrow> ownership_manifest io" where
  "write_ownership root input =
    bindS (liftS (\<lambda>w. require_safe_directory w (path_append root (path_of ''ownership'')))) (\<lambda>_.
    bindS (liftS (\<lambda>w. validate_ownership input)) (\<lambda>manifest.
    let sealed = manifest\<lparr>om_manifest_digest := ownership_digest manifest\<rparr> in
    bindS (write_new_durable_text (record_path root ''ownership'' (om_manifest_id sealed @ ''.json''))
      (canonical (ownership_document sealed) @ newline)) (\<lambda>_.
    returnS sealed)))"

definition read_ownership :: "world \<Rightarrow> path \<Rightarrow> string \<Rightarrow> ownership_manifest res" where
  "read_ownership w root manifest_id =
    (if \<not> valid_identifier manifest_id then throwE ''ownership lookup id is invalid''
     else bindE (read_stable_text w (record_path root ''ownership'' (manifest_id @ ''.json'')) (16 * 1024 * 1024))
       (\<lambda>content. decode_ownership_record content manifest_id))"

definition binds_ownership :: "installed_state \<Rightarrow> ownership_manifest \<Rightarrow> bool" where
  "binds_ownership state ownership \<longleftrightarrow>
    om_manifest_digest ownership = is_ownership_manifest_digest state \<and>
    om_install_id ownership = is_install_id state \<and> om_target_root ownership = is_target_root state"

definition write_installed :: "path \<Rightarrow> installed_state \<Rightarrow> unit io" where
  "write_installed root state =
    bindS (liftS (\<lambda>w. require_safe_directory w (path_append root (path_of ''installed'')))) (\<lambda>_.
    bindS (liftS (\<lambda>w. validate_installed state)) (\<lambda>_.
    bindS (liftS (\<lambda>w. read_ownership w root (ownership_record_id state))) (\<lambda>ownership.
    bindS (guardS (binds_ownership state ownership)
      ''installed state does not bind the exact ownership manifest'') (\<lambda>_.
    bindS (liftS (\<lambda>w. serialize_installed_state state)) (\<lambda>content.
    write_new_durable_text
      (record_path root ''installed'' (is_install_id state @ ''.'' @ is_transaction_id state @ ''.json'')) content)))))"

definition installed_entry_ok :: "world \<Rightarrow> path \<Rightarrow> string \<Rightarrow> bool" where
  "installed_entry_ok w directory name \<longleftrightarrow>
    (let p = path_append directory (element_path name) in
     (case stat w p of Some (File _ _ _ _) \<Rightarrow> True | _ \<Rightarrow> False) \<and>
     (case lstat w p of Some (Link _) \<Rightarrow> False | _ \<Rightarrow> True) \<and>
     length name > 5 \<and> drop (length name - 5) name = ''.json'')"

fun installed_candidates :: "world \<Rightarrow> path \<Rightarrow> string \<Rightarrow> string list \<Rightarrow> installed_state list res" where
  "installed_candidates w directory install_id [] = Inr []"
| "installed_candidates w directory install_id (name # names) =
    (if \<not> installed_entry_ok w directory name then throwE ''installed-state repository contains an unsafe entry''
     else bindE (read_stable_text w (path_append directory (element_path name)) (4 * 1024 * 1024)) (\<lambda>content.
       bindE (decode_installed_record content) (\<lambda>candidate.
       if name \<noteq> is_install_id candidate @ ''.'' @ is_transaction_id candidate @ ''.json'' \<and>
          name \<noteq> is_install_id candidate @ ''.json''
       then throwE ''installed-state filename does not bind its record identity''
       else bindE (installed_candidates w directory install_id names) (\<lambda>candidates.
         Inr (if is_install_id candidate = install_id then candidate # candidates else candidates)))))"

definition read_installed :: "world \<Rightarrow> path \<Rightarrow> string \<Rightarrow> installed_state res" where
  "read_installed w root install_id =
    (if \<not> valid_identifier install_id then throwE ''installed-state lookup id is invalid''
     else let directory = path_append root (path_of ''installed'') in
       bindE (require_safe_directory w directory) (\<lambda>_.
       case resolve w True directory of
         None \<Rightarrow> throwE ''directory iterator cannot open directory''
       | Some q \<Rightarrow>
           bindE (installed_candidates w directory install_id (list_directory w q)) (\<lambda>candidates.
           if candidates = [] then throwE ''installed-state record does not exist''
           else let result = last (sort_key (\<lambda>s. [is_created_at s, is_transaction_id s]) candidates) in
             bindE (read_ownership w root (ownership_record_id result)) (\<lambda>ownership.
             bindE (requireE (binds_ownership result ownership)
               ''installed-state ownership binding no longer validates'') (\<lambda>_.
             Inr result)))))"

definition read_installed_snapshot :: "world \<Rightarrow> path \<Rightarrow> string \<Rightarrow> string \<Rightarrow> installed_state res" where
  "read_installed_snapshot w root install_id transaction_id =
    (if \<not> valid_identifier install_id \<or> \<not> valid_identifier transaction_id
     then throwE ''installed-state snapshot identity is invalid''
     else bindE (read_stable_text w (record_path root ''installed'' (install_id @ ''.'' @ transaction_id @ ''.json''))
         (4 * 1024 * 1024)) (\<lambda>content.
       bindE (decode_installed_record content) (\<lambda>result.
       bindE (requireE (is_install_id result = install_id \<and> is_transaction_id result = transaction_id)
         ''installed-state snapshot lookup identity mismatch'') (\<lambda>_.
       bindE (read_ownership w root (ownership_record_id result)) (\<lambda>ownership.
       bindE (requireE (binds_ownership result ownership)
         ''installed-state snapshot ownership binding no longer validates'') (\<lambda>_.
       Inr result))))))"

end
