(* ===== verification/Usk_State_Laws.thy ===== *)
theory Usk_State_Laws
  imports Usk_State
begin

text \<open>
  Laws of the state repository: the streamed ownership digest is the digest of the canonical payload,
  documents read back as the records they were made from, and what validation guarantees about
  an ownership manifest.
\<close>

section \<open>Documents\<close>

lemma ownership_sorted: "sorted_keys (ownership_members m)"
  by (simp add: sorted_keys_def ownership_members_def less_char_def)

lemma owned_file_sorted:
  "sorted_keys [(''relative_path'', a :: jvalue), (''sha256'', b), (''size_bytes'', c)]"
  by (simp add: sorted_keys_def less_char_def)

lemma separated_enumerate:
  "concat (separated (enumerate (Suc n) pss)) = concat (map (\<lambda>ps. '','' @ concat ps) pss)"
  by (induction pss arbitrary: n) (auto simp: enumerate_simps)

lemma commas_concat: "commas (t # ts) = t @ concat (map (\<lambda>t. '','' @ t) ts)"
  by (induction ts arbitrary: t) auto

lemma concat_separated: "concat (separated (enumerate 0 pss)) = commas (map concat pss)"
proof (cases pss)
  case (Cons ps pss')
  then show ?thesis
    using separated_enumerate [of 0 pss'] commas_concat [of "concat ps" "map concat pss'"]
    by (simp add: enumerate_simps o_def)
qed (simp add: enumerate_simps)

lemma canonical_directory: "canonical (directory_value d) = ''{'' @ quote_key ''relative_path'' @ '':'' @ quoted d @ ''}''"
  by (simp add: directory_value_def object_def obj_of_def canonical_simps member_canonical_def quote_key_def
      quoted_def escape_char_def)

lemma canonical_owned_file:
  "canonical (owned_file_value f) = ''{'' @ quote_key ''relative_path'' @ '':'' @ quoted (of_relative_path f) @
    '','' @ quote_key ''sha256'' @ '':'' @ quoted (of_sha256 f) @
    '','' @ quote_key ''size_bytes'' @ '':'' @ dec (unat (of_size_bytes f)) @ ''}''"
  unfolding owned_file_value_def object_def obj_of_sorted [OF owned_file_sorted]
  by (simp add: canonical_simps member_canonical_def quote_key_def quoted_def escape_char_def)

lemma ownership_pieces_text: "concat (ownership_pieces m) = canonical (ownership_payload m)"
proof -
  have "canonical (ownership_payload m) =
      canonical (JObject (ownership_members m))"
    by (simp add: ownership_payload_def object_def obj_of_sorted [OF ownership_sorted])
  then show ?thesis
    by (simp add: ownership_pieces_def concat_separated o_def ownership_members_def canonical_simps
        member_canonical_def quote_key_def escape_char_def canonical_directory canonical_owned_file)
      (simp add: quoted_def canonical_simps o_def)
qed

lemma ownership_digest_spec: "ownership_digest m = sha256_hex (canonical (ownership_payload m))"
proof -
  obtain s' where "bindE (feed_all sha_update sha_new (ownership_pieces m)) sha_finish =
      Inr (sha256_spec (concat (ownership_pieces m)), s')"
    using sha.feed_all_close by blast
  then show ?thesis by (simp add: ownership_digest_def ownership_pieces_text sha256_hex_spec)
qed

section \<open>Reading documents back\<close>

lemmas member_reads = string_at_def unsigned_at_def object_jat state_exact_members_def object_names

lemma parse_owned_file_value: "parse_owned_file (owned_file_value f) = Inr f"
  by (simp add: parse_owned_file_def owned_file_value_def member_reads set_eq_subset)

lemma parse_directory_value: "parse_directory (directory_value d) = Inr d"
  by (simp add: parse_directory_def directory_value_def member_reads)

lemma parse_entrypoint_value: "parse_entrypoint (entrypoint_value e) = Inr e"
  by (simp add: parse_entrypoint_def entrypoint_value_def member_reads set_eq_subset)

lemma parse_verification_value: "parse_verification (verification_value v) = Inr v"
  by (simp add: parse_verification_def verification_value_def member_reads set_eq_subset)

definition ownership_doc_members :: "ownership_manifest \<Rightarrow> (string \<times> jvalue) list" where
  "ownership_doc_members m = ownership_members m @ [(''manifest_digest'', JString (om_manifest_digest m))]"

lemma ownership_document_object: "ownership_document m = object (ownership_doc_members m)"
  by (simp add: ownership_document_def ownership_payload_def ownership_doc_members_def object_def obj_of_snoc)

lemma ownership_doc_distinct: "distinct (map fst (ownership_doc_members m))"
  by (simp add: ownership_doc_members_def ownership_members_def)

lemma ownership_eta:
  "\<lparr>om_manifest_id = om_manifest_id m, om_manifest_digest = om_manifest_digest m, om_install_id = om_install_id m,
    om_target_root = om_target_root m, om_created_by_transaction_id = om_created_by_transaction_id m,
    om_files = om_files m, om_directories = om_directories m\<rparr> = m"
  by simp

lemma parse_ownership_document: "parse_ownership (ownership_document m) = validate_ownership m"
proof -
  have files: "mapE parse_owned_file (map owned_file_value (om_files m)) = Inr (om_files m)"
    using mapE_map [of "om_files m" parse_owned_file owned_file_value "\<lambda>x. x"] by (simp add: parse_owned_file_value)
  have dirs: "mapE parse_directory (map directory_value (om_directories m)) = Inr (om_directories m)"
    using mapE_map [of "om_directories m" parse_directory directory_value "\<lambda>x. x"] by (simp add: parse_directory_value)
  have names: "state_exact_members (object (ownership_doc_members m)) [''schema'', ''manifest_id'', ''manifest_digest'',
      ''install_id'', ''target_root'', ''created_by_transaction_id'', ''files'', ''directories''] = Inr ()"
    by (simp add: state_exact_members_def object_names ownership_doc_members_def ownership_members_def set_eq_subset)
  show ?thesis
    unfolding parse_ownership_def ownership_document_object names
    by (simp add: string_at_def object_jat [OF ownership_doc_distinct])
      (simp add: ownership_doc_members_def ownership_members_def files dirs ownership_eta)
qed

lemma ownership_document_wf: "wf_json (ownership_document m)"
  unfolding ownership_document_object object_wf [OF ownership_doc_distinct]
  by (simp add: ownership_doc_members_def ownership_members_def list.pred_map o_def list_all_iff
      owned_file_value_def directory_value_def object_wf)

lemma ownership_document_count:
  "value_count (ownership_document m) = 9 + 2 * length (om_directories m) + 4 * length (om_files m)"
proof -
  have "value_count (directory_value d) = 2" "value_count (owned_file_value f) = 4" for d f
    by (simp_all add: directory_value_def owned_file_value_def object_count)
  then show ?thesis
    unfolding ownership_document_object object_count [OF ownership_doc_distinct]
    by (simp add: ownership_doc_members_def ownership_members_def o_def sum_list_triv)
qed

lemma installed_distinct: "distinct (map fst (installed_fields s))"
  by (simp add: installed_fields_def)

lemma installed_eta:
  "\<lparr>is_install_id = is_install_id s, is_product_id = is_product_id s, is_product_version = is_product_version s,
    is_recipe_digest = is_recipe_digest s, is_source_archive_digest = is_source_archive_digest s,
    is_target_root = is_target_root s, is_component_selection = is_component_selection s,
    is_ownership_manifest_ref = is_ownership_manifest_ref s, is_ownership_manifest_digest = is_ownership_manifest_digest s,
    is_entrypoints = is_entrypoints s, is_setup_abi_major = is_setup_abi_major s, is_setup_abi_minor = is_setup_abi_minor s,
    is_provider_revision = is_provider_revision s, is_transaction_id = is_transaction_id s,
    is_created_at = is_created_at s, is_last_verification = is_last_verification s,
    is_audit_chain_id = is_audit_chain_id s, is_lifecycle_status = is_lifecycle_status s\<rparr> = s"
  by simp

lemma installed_abi_reads:
  "state_exact_members (abi_value s) [''major'', ''minor'', ''provider_revision''] = Inr ()"
  "unsigned_at (abi_value s) ''major'' = Inr (is_setup_abi_major s)"
  "unsigned_at (abi_value s) ''minor'' = Inr (is_setup_abi_minor s)"
  "string_at (abi_value s) ''provider_revision'' = Inr (is_provider_revision s)"
  by (simp_all add: abi_value_def member_reads)

lemmas installed_lookup = installed_fields_def [THEN arg_cong [where f = map_of]]
lemmas installed_jat = object_jat [OF installed_distinct]

lemma installed_string: "string_at (object (installed_fields s)) k = bindE (jat (object (installed_fields s)) k) as_string"
  by (simp add: string_at_def)

lemma parse_installed_document:
  "parse_installed (installed_document s) = bindE (validate_installed s) (\<lambda>_. Inr s)"
proof -
  have comps: "mapE as_string (map JString (is_component_selection s)) = Inr (is_component_selection s)"
    using mapE_map [of "is_component_selection s" as_string JString "\<lambda>x. x"] by simp
  have entries: "mapE parse_entrypoint (map entrypoint_value (is_entrypoints s)) = Inr (is_entrypoints s)"
    using mapE_map [of "is_entrypoints s" parse_entrypoint entrypoint_value "\<lambda>x. x"] by (simp add: parse_entrypoint_value)
  have names: "state_exact_members (object (installed_fields s)) installed_members = Inr ()"
    by (simp add: state_exact_members_def object_names installed_fields_def installed_members_def set_eq_subset)
  show ?thesis
    unfolding parse_installed_def installed_document_def names
    by (simp add: installed_string installed_jat installed_lookup comps entries installed_abi_reads
        parse_verification_value Let_def installed_eta)
qed

lemma installed_document_wf: "wf_json (installed_document s)"
  unfolding installed_document_def object_wf [OF installed_distinct]
  by (simp add: installed_fields_def list.pred_map o_def list_all_iff entrypoint_value_def verification_value_def
      abi_value_def object_wf)

section \<open>What validation guarantees\<close>

lemma validate_ownership_Inr:
  "validate_ownership i = Inr m \<longleftrightarrow>
    valid_identifier (om_manifest_id m) \<and> valid_identifier (om_install_id m) \<and>
    valid_identifier (om_created_by_transaction_id m) \<and> om_target_root m \<noteq> [] \<and> length (om_target_root m) \<le> 32768 \<and>
    m = i\<lparr>om_files := sort_key of_relative_path (om_files i), om_directories := sort (om_directories i)\<rparr> \<and>
    check_files [] (om_files m) \<and> check_directories [] (om_directories m) \<and>
    check_closure (set (om_directories m)) (om_files m) = Inr ()"
  by (auto simp: validate_ownership_def bindE_eq_Inr Let_def split: if_splits)

lemma validate_ownership_again:
  assumes "validate_ownership i = Inr m"
  shows "validate_ownership (m\<lparr>om_manifest_digest := x\<rparr>) = Inr (m\<lparr>om_manifest_digest := x\<rparr>)"
proof -
  have "sort_key of_relative_path (om_files m) = om_files m" "sort (om_directories m) = om_directories m"
    using assms by (auto simp: validate_ownership_Inr sort_key_id_if_sorted sorted_sort_id)
  then show ?thesis using assms unfolding validate_ownership_Inr by auto
qed

lemma check_files_facts:
  "check_files prev files \<Longrightarrow> list_all (\<lambda>f. safe_relative (of_relative_path f) \<and> valid_sha256 (of_sha256 f)) files"
  by (induction prev files rule: check_files.induct) (auto split: if_splits)

lemma check_files_strict:
  "check_files prev files \<Longrightarrow> sorted (map of_relative_path files) \<Longrightarrow> sorted_wrt (<) (map of_relative_path files)"
proof (induction prev files rule: check_files.induct)
  case (2 prev f files)
  then have rest: "check_files (of_relative_path f) files" by (simp split: if_splits)
  then have strict: "sorted_wrt (<) (map of_relative_path files)" using 2 by (simp split: if_splits)
  have "of_relative_path f < of_relative_path g" if "g \<in> set files" for g
  proof (cases files)
    case (Cons h hs)
    then have "of_relative_path f \<noteq> of_relative_path h" using rest by (auto split: if_splits)
    moreover have "of_relative_path f \<le> of_relative_path h" using "2.prems"(2) Cons by simp
    moreover have "of_relative_path h \<le> of_relative_path g" using strict that Cons by auto
    ultimately show ?thesis by simp
  qed (use that in simp)
  with strict show ?case by simp
qed simp

lemma check_directories_facts: "check_directories prev ds \<Longrightarrow> list_all safe_relative ds"
  by (induction prev ds rule: check_directories.induct) (auto split: if_splits)

lemma check_directories_strict: "check_directories prev ds \<Longrightarrow> sorted ds \<Longrightarrow> sorted_wrt (<) ds"
proof (induction prev ds rule: check_directories.induct)
  case (2 prev d ds)
  then have rest: "check_directories d ds" by (simp split: if_splits)
  then have strict: "sorted_wrt (<) ds" using 2 by (simp split: if_splits)
  have "d < g" if "g \<in> set ds" for g
  proof (cases ds)
    case (Cons h hs)
    then have "d \<noteq> h" "d \<le> h" using rest "2.prems"(2) by (auto split: if_splits)
    moreover have "h \<le> g" using strict that Cons by auto
    ultimately show ?thesis by simp
  qed (use that in simp)
  with strict show ?case by simp
qed simp

lemma check_parents_iff:
  "check_parents ds (Path r es) \<longleftrightarrow> (\<forall>k \<in> {1..length es}. path_string (Path r (take k es)) \<in> ds)"
proof (induction es rule: rev_induct)
  case (snoc e es)
  have "(\<forall>k \<in> {1..length (es @ [e])}. path_string (Path r (take k (es @ [e]))) \<in> ds) \<longleftrightarrow>
      path_string (Path r (es @ [e])) \<in> ds \<and> (\<forall>k \<in> {1..length es}. path_string (Path r (take k es)) \<in> ds)"
    by (auto simp: atLeastAtMostSuc_conv)
  then show ?case by (simp add: check_parents.simps [of _ "Path r (es @ [e])"] snoc.IH)
qed (simp add: check_parents.simps)

definition ancestors :: "string \<Rightarrow> string set" where
  "ancestors p = (\<lambda>k. path_string (Path (is_absolute (path_of p)) (take k (elements (path_of p))))) ` {1..<length (elements (path_of p))}"

lemma check_closure_facts:
  "check_closure ds files = Inr () \<Longrightarrow> f \<in> set files \<Longrightarrow> of_relative_path f \<notin> ds \<and> ancestors (of_relative_path f) \<subseteq> ds"
proof (induction files)
  case (Cons g files)
  have "ancestors (of_relative_path g) \<subseteq> ds" if "check_parents ds (parent_path (path_of (of_relative_path g)))"
  proof
    fix d assume "d \<in> ancestors (of_relative_path g)"
    then obtain k where k: "k \<in> {1..<length (elements (path_of (of_relative_path g)))}"
      "d = path_string (Path (is_absolute (path_of (of_relative_path g))) (take k (elements (path_of (of_relative_path g)))))"
      by (auto simp: ancestors_def)
    then have "take k (butlast (elements (path_of (of_relative_path g)))) = take k (elements (path_of (of_relative_path g)))"
      by (simp add: take_butlast)
    moreover have "k \<in> {1..length (butlast (elements (path_of (of_relative_path g))))}" using k(1) by auto
    ultimately show "d \<in> ds" using that k(2) unfolding parent_path_def check_parents_iff by metis
  qed
  with Cons show ?case by (auto split: if_splits)
qed simp

section \<open>Ownership records\<close>

definition ownership_line :: "ownership_manifest \<Rightarrow> string" where
  "ownership_line m = canonical (ownership_document m) @ newline"

definition ownership_readable :: "ownership_manifest \<Rightarrow> bool" where
  "ownership_readable m \<longleftrightarrow> valid_utf8 (om_target_root m) \<and> list_all valid_utf8 (om_directories m) \<and>
    list_all (\<lambda>f. valid_utf8 (of_relative_path f)) (om_files m) \<and>
    9 + 2 * length (om_directories m) + 4 * length (om_files m) \<le> 100000 \<and>
    length (ownership_line m) \<le> 4 * 1024 * 1024"

lemma safe_relative_length: "safe_relative s \<Longrightarrow> length s \<le> 4096"
  by (simp add: safe_relative_def split: if_splits)

lemma string_ok_short: "length s \<le> 32768 \<Longrightarrow> string_ok default_limits s \<longleftrightarrow> valid_utf8 s"
  by (simp add: string_ok_def default_limits_def)

lemma safe_relative_ok: "safe_relative s \<Longrightarrow> string_ok default_limits s \<longleftrightarrow> valid_utf8 s"
  using safe_relative_length [of s] by (simp add: string_ok_short)

lemma ownership_document_shape:
  assumes "validate_ownership i = Inr m" "valid_sha256 x"
  shows "shape_ok default_limits 0 (ownership_document (m\<lparr>om_manifest_digest := x\<rparr>)) \<longleftrightarrow>
    valid_utf8 (om_target_root m) \<and> list_all valid_utf8 (om_directories m) \<and>
    list_all (\<lambda>f. valid_utf8 (of_relative_path f)) (om_files m)"
proof -
  have ids: "valid_identifier (om_manifest_id m)" "valid_identifier (om_install_id m)"
    "valid_identifier (om_created_by_transaction_id m)" "length (om_target_root m) \<le> 32768"
    "check_files [] (om_files m)" "check_directories [] (om_directories m)"
    using assms(1) unfolding validate_ownership_Inr by blast+
  have depth: "max_depth default_limits = 64" by (simp add: default_limits_def)
  have dirs: "list_all (\<lambda>d. shape_ok default_limits 2 (directory_value d)) (om_directories m) \<longleftrightarrow> list_all valid_utf8 (om_directories m)"
    using check_directories_facts [OF ids(6)]
    by (intro list.pred_cong refl)
      (simp add: list_all_iff safe_relative_ok directory_value_def object_shape depth string_ok_lit)
  have files: "list_all (\<lambda>f. shape_ok default_limits 2 (owned_file_value f)) (om_files m) \<longleftrightarrow>
      list_all (\<lambda>f. valid_utf8 (of_relative_path f)) (om_files m)"
    using check_files_facts [OF ids(5)]
    by (intro list.pred_cong refl)
      (simp add: list_all_iff safe_relative_ok owned_file_value_def object_shape depth string_ok_lit)
  show ?thesis
    unfolding ownership_document_object object_shape [OF ownership_doc_distinct]
    using ids assms(2) dirs files
    by (simp add: ownership_doc_members_def ownership_members_def depth string_ok_lit string_ok_short
        list.pred_map o_def numeral_2_eq_2) blast
qed

lemma decode_ownership_line:
  assumes "validate_ownership i = Inr m" "sealed = m\<lparr>om_manifest_digest := ownership_digest m\<rparr>"
    and "lookup = om_manifest_id m \<or> lookup = om_install_id m"
  shows "decides (decode_ownership_record (ownership_line sealed) lookup) (ownership_readable sealed) sealed"
proof -
  let ?n = "length (ownership_line sealed)"
  have digest: "ownership_digest sealed = ownership_digest m" "valid_sha256 (ownership_digest m)"
    by (simp_all add: assms(2) ownership_digest_spec ownership_payload_def ownership_members_def)
  have limits: "max_bytes default_limits = 4 * 1024 * 1024" "max_values default_limits = 100000"
    by (simp_all add: default_limits_def)
  have ok: "?n \<le> 16 * 1024 * 1024 \<and> fits default_limits ?n (ownership_document sealed) \<longleftrightarrow> ownership_readable sealed"
    using ownership_document_shape [OF assms(1) digest(2)]
    by (auto simp: fits_def limits ownership_readable_def ownership_document_count assms(2))
  have lookup: "valid_identifier lookup" using assms(1,3) by (auto simp: validate_ownership_Inr)
  have "decides (decode_ownership_record (ownership_line sealed) lookup)
     ((?n \<le> 16 * 1024 * 1024 \<and> fits default_limits ?n (ownership_document sealed)) \<and> True) sealed"
    unfolding decode_ownership_record_def ownership_line_def
    by (subst if_not_P, simp add: lookup, rule decides_bindE [OF canonical_document_newline [OF ownership_document_wf]])
      (use assms(3) digest in \<open>auto simp: parse_ownership_document assms(2) validate_ownership_again [OF assms(1)]\<close>)
  then show ?thesis unfolding ok by simp
qed

end
