(* ===== verification/Usk_State_Properties.thy ===== *)
theory Usk_State_Properties
  imports Usk_State_Laws
begin

text \<open>
  The properties of the state repository: writing and reading ownership manifests and installed states,
  and which installed state a lookup returns.
\<close>

section \<open>Paths and effects\<close>

lemma record_path_names:
  assumes "list_all plain_name d" "t = [] \<or> t = [[]]" "plain_name dir" "slash \<notin> set dir" "name \<noteq> []" "slash \<notin> set name"
  shows "record_path (Path True (d @ t)) dir name = Path True ((d @ [dir]) @ [name])"
    and "path_append (Path True (d @ t)) (path_of dir) = Path True (d @ [dir])"
proof -
  have "dir \<noteq> []" using assms(3) by (simp add: plain_name_def)
  then show p: "path_append (Path True (d @ t)) (path_of dir) = Path True (d @ [dir])"
    using assms by (simp add: path_of_name append_name)
  have "list_all plain_name (d @ [dir])" using assms(1,3) by simp
  from append_name [OF this, of "[]"] show "record_path (Path True (d @ t)) dir name = Path True ((d @ [dir]) @ [name])"
    using assms(5,6) p by (simp add: record_path_def path_of_name)
qed

lemma identifier_no_slash: "valid_identifier s \<Longrightarrow> slash \<notin> set s"
proof -
  assume "valid_identifier s"
  moreover have "\<not> (isalnum slash \<or> slash = CHR ''.'' \<or> slash = CHR ''_'' \<or> slash = CHR ''-'')"
    by (simp add: isalnum_def isdigit_def)
  ultimately show ?thesis unfolding valid_identifier_def list_all_iff by blast
qed

abbreviation ownership_dir :: "string list \<Rightarrow> string list" where "ownership_dir d \<equiv> d @ [''ownership'']"
abbreviation installed_dir :: "string list \<Rightarrow> string list" where "installed_dir d \<equiv> d @ [''installed'']"

lemma json_name_plain: "plain_name (s @ ''.json'')"
proof -
  have "length (s @ ''.json'') \<ge> 5" by simp
  then show ?thesis unfolding plain_name_def by (auto simp del: length_append)
qed

lemma ownership_path:
  assumes "list_all plain_name d" "t = [] \<or> t = [[]]" "valid_identifier i"
  shows "record_path (Path True (d @ t)) ''ownership'' (i @ ''.json'') = Path True (ownership_dir d @ [i @ ''.json''])"
    and "path_append (Path True (d @ t)) (path_of ''ownership'') = Path True (ownership_dir d)"
  using record_path_names [OF assms(1,2), of "''ownership''" "i @ ''.json''"] identifier_no_slash [OF assms(3)]
  by (simp_all add: plain_name_def)

lemma installed_path:
  assumes "list_all plain_name d" "t = [] \<or> t = [[]]" "valid_identifier i" "valid_identifier j"
  shows "record_path (Path True (d @ t)) ''installed'' (i @ ''.'' @ j @ ''.json'') =
      Path True (installed_dir d @ [i @ ''.'' @ j @ ''.json''])"
    and "path_append (Path True (d @ t)) (path_of ''installed'') = Path True (installed_dir d)"
  using record_path_names [OF assms(1,2), of "''installed''" "i @ ''.'' @ j @ ''.json''"]
    identifier_no_slash [OF assms(3)] identifier_no_slash [OF assms(4)]
  by (simp_all add: plain_name_def)

lemma write_ownership_effect:
  assumes "list_all plain_name d" "t = [] \<or> t = [[]]" "write_ownership (Path True (d @ t)) i w = (Inr m, w')"
  obtains m0 where "validate_ownership i = Inr m0" "m = m0\<lparr>om_manifest_digest := ownership_digest m0\<rparr>"
    "safe_dir w (ownership_dir d)" "entry_at w (ownership_dir d @ [om_manifest_id m @ ''.json'']) = None"
    "w' = new_file (ownership_dir d @ [om_manifest_id m @ ''.json'']) (ownership_line m) w"
proof -
  from assms(3) obtain m0 where m0: "validate_ownership i = Inr m0" "m = m0\<lparr>om_manifest_digest := ownership_digest m0\<rparr>"
    "write_new_durable_text (record_path (Path True (d @ t)) ''ownership'' (om_manifest_id m @ ''.json''))
      (ownership_line m) w = (Inr (), w')"
    by (auto simp: write_ownership_def bindS_eq_Inr Let_def ownership_line_def split: sum.splits)
  have i: "valid_identifier (om_manifest_id m)" using m0(1,2) unfolding validate_ownership_Inr by auto
  have plain: "list_all plain_name (ownership_dir d)" using assms(1) by (simp add: plain_name_def)
  note w = m0(3) [unfolded ownership_path [OF assms(1,2) i]]
  from write_new_ok [OF plain json_name_plain w] m0(1,2) that show thesis by blast
qed

lemma read_ownership_child:
  assumes "list_all plain_name d" "t = [] \<or> t = [[]]" "valid_identifier i" "safe_dir w (ownership_dir d)"
    and "entry_at w (ownership_dir d @ [i @ ''.json'']) = Some (File ino content 1 mtime)"
    and "\<not> w_refuses w Sys_open (ownership_dir d @ [i @ ''.json''])" "length content < 2 ^ 64"
    and "decides (decode_ownership_record content i) ok m"
    and "ok \<Longrightarrow> length content \<le> 16 * 1024 * 1024"
  shows "decides (read_ownership w (Path True (d @ t)) i) ok m"
proof -
  have content: "decides (read_stable_text w (Path True (ownership_dir d @ [i @ ''.json''])) (16 * 1024 * 1024))
      (length content \<le> 16 * 1024 * 1024) content"
    using assms(4) json_name_plain assms(5-7) by (rule read_stable_text_decides)
  have "decides (read_ownership w (Path True (d @ t)) i) (length content \<le> 16 * 1024 * 1024 \<and> ok) m"
    unfolding read_ownership_def ownership_path [OF assms(1-3)]
    by (subst if_not_P, simp add: assms(3), rule decides_bindE [OF content], rule assms(8))
  then show ?thesis by (rule decides_cong) (use assms(9) in auto)
qed

lemma ownership_written:
  assumes "state_repository w0 p = Inr root" "write_ownership root i w = (Inr m, w')"
    and "\<forall>q. \<not> w_refuses w Sys_open q" "length (ownership_line m) < 2 ^ 64"
  shows "m = i\<lparr>om_files := sort_key of_relative_path (om_files i), om_directories := sort (om_directories i),
      om_manifest_digest := ownership_digest m\<rparr> \<and>
    (if ownership_readable m then read_ownership w' root (om_manifest_id m) = Inr m
     else \<not> accepts (read_ownership w' root (om_manifest_id m)))"
proof -
  obtain d t where root: "root = Path True (d @ t)" "t = [] \<or> t = [[]]" "list_all plain_name d"
    using assms(1) unfolding state_repository_def by (rule repository_root)
  obtain m0 where m0: "validate_ownership i = Inr m0" "m = m0\<lparr>om_manifest_digest := ownership_digest m0\<rparr>"
    "safe_dir w (ownership_dir d)" "entry_at w (ownership_dir d @ [om_manifest_id m @ ''.json'']) = None"
    "w' = new_file (ownership_dir d @ [om_manifest_id m @ ''.json'']) (ownership_line m) w"
    using assms(2) unfolding root(1) by (rule write_ownership_effect [OF root(3,2)])
  have same: "ownership_digest m = ownership_digest m0"
    by (simp add: m0(2) ownership_digest_spec ownership_payload_def ownership_members_def)
  have "decides (decode_ownership_record (ownership_line m) (om_manifest_id m)) (ownership_readable m) m"
    by (rule decode_ownership_line [OF m0(1,2)]) (simp add: m0(2))
  then have "decides (read_ownership w' root (om_manifest_id m)) (ownership_readable m) m"
    unfolding root(1)
  proof (rule read_ownership_child [OF root(3,2), rotated -2])
    show "valid_identifier (om_manifest_id m)" using m0(1,2) unfolding validate_ownership_Inr by auto
    show "safe_dir w' (ownership_dir d)" unfolding m0(5) using m0(3,4) by (rule safe_dir_new_file) simp
  qed (use assms(3,4) m0(5) in \<open>auto simp: ownership_readable_def\<close>)
  moreover have "m = i\<lparr>om_files := sort_key of_relative_path (om_files i), om_directories := sort (om_directories i),
      om_manifest_digest := ownership_digest m\<rparr>"
    using m0(1) unfolding same unfolding m0(2) validate_ownership_Inr by auto
  ultimately show ?thesis by (simp add: decides_def split: if_splits)
qed

lemma decode_ownership_valid:
  assumes "decode_ownership_record content i = Inr m"
  shows "validate_ownership m = Inr m" "om_manifest_digest m = ownership_digest m"
proof -
  from assms obtain v m0 where "validate_ownership m0 = Inr m" "om_manifest_digest m = ownership_digest m"
    by (auto simp: decode_ownership_record_def parse_ownership_def bindE_eq_Inr split: if_splits)
  moreover have "m\<lparr>om_manifest_digest := om_manifest_digest m\<rparr> = m" by simp
  ultimately show "validate_ownership m = Inr m" "om_manifest_digest m = ownership_digest m"
    using validate_ownership_again [of m0 m "om_manifest_digest m"] by metis+
qed

lemma read_ownership_valid:
  assumes "read_ownership w root i = Inr m"
  shows "validate_ownership m = Inr m" "om_manifest_digest m = ownership_digest m"
  using assms decode_ownership_valid by (auto simp: read_ownership_def bindE_eq_Inr split: if_splits)

definition installed_line :: "installed_state \<Rightarrow> string" where
  "installed_line s = canonical (installed_document s) @ newline"

lemma decode_installed_line:
  "decides (decode_installed_record (installed_line s))
    (fits default_limits (length (installed_line s)) (installed_document s) \<and> validate_installed s = Inr ()) s"
proof -
  let ?n = "length (installed_line s)"
  have "decides (decode_installed_record (installed_line s))
     ((?n \<le> 4 * 1024 * 1024 \<and> fits default_limits ?n (installed_document s)) \<and> validate_installed s = Inr ()) s"
    unfolding decode_installed_record_def installed_line_def
    by (rule decides_bindE [OF canonical_document_newline [OF installed_document_wf]])
      (auto simp: parse_installed_document decides_def accepts_iff bindE_eq_Inr)
  then show ?thesis by (rule decides_cong) (auto simp: fits_def default_limits_def)
qed

lemma parse_installed_valid: "parse_installed v = Inr s \<Longrightarrow> validate_installed s = Inr ()"
  unfolding parse_installed_def Let_def by (elim bindE_InrE) simp

lemma if_throw_Inr: "(if b then throwE msg else m) = Inr y \<Longrightarrow> m = Inr y"
  by (cases b) simp_all

lemma installed_candidates_facts:
  "installed_candidates w dir i names = Inr cs \<Longrightarrow>
    (\<forall>c \<in> set cs. is_install_id c = i \<and> validate_installed c = Inr ()) \<and>
    (\<forall>name \<in> set names. \<exists>content s'. read_stable_text w (path_append dir (element_path name)) (4 * 1024 * 1024) = Inr content \<and>
      decode_installed_record content = Inr s' \<and> (is_install_id s' = i \<longrightarrow> s' \<in> set cs))"
proof (induction names arbitrary: cs)
  case (Cons name names)
  have "installed_entry_ok w dir name" using Cons.prems by (rule contrapos_pp) simp
  with Cons.prems obtain content where content: "read_stable_text w (path_append dir (element_path name)) (4 * 1024 * 1024) = Inr content"
    and rest: "bindE (decode_installed_record content) (\<lambda>candidate.
       if name \<noteq> is_install_id candidate @ ''.'' @ is_transaction_id candidate @ ''.json'' \<and> name \<noteq> is_install_id candidate @ ''.json''
       then throwE ''installed-state filename does not bind its record identity''
       else bindE (installed_candidates w dir i names) (\<lambda>candidates.
         Inr (if is_install_id candidate = i then candidate # candidates else candidates))) = Inr cs"
    unfolding installed_candidates.simps by (simp only: not_True_eq_False if_False bindE_eq_Inr) blast
  from rest obtain c where c: "decode_installed_record content = Inr c"
    and "bindE (installed_candidates w dir i names) (\<lambda>candidates.
         Inr (if is_install_id c = i then c # candidates else candidates)) = Inr cs"
    by (rule bindE_InrE) (drule if_throw_Inr, rule that)
  from this(2) obtain cs' where cs': "installed_candidates w dir i names = Inr cs'"
    "cs = (if is_install_id c = i then c # cs' else cs')" by (rule bindE_InrE) simp
  have "validate_installed c = Inr ()"
    using c by (auto simp: decode_installed_record_def bindE_eq_Inr dest: parse_installed_valid)
  then have all: "\<forall>c \<in> set cs. is_install_id c = i \<and> validate_installed c = Inr ()"
    using Cons.IH [OF cs'(1)] cs'(2) by simp
  have sub: "set cs' \<subseteq> set cs" "is_install_id c = i \<longrightarrow> c \<in> set cs" using cs'(2) by auto
  let ?ok = "\<lambda>name. \<exists>content s'. read_stable_text w (path_append dir (element_path name)) (4 * 1024 * 1024) = Inr content \<and>
      decode_installed_record content = Inr s' \<and> (is_install_id s' = i \<longrightarrow> s' \<in> set cs)"
  have "?ok name" using content c sub(2) by blast
  moreover have "?ok n" if "n \<in> set names" for n using Cons.IH [OF cs'(1)] sub(1) that by blast
  ultimately show ?case using all unfolding list.set by blast
qed simp

lemma last_sort_key:
  assumes "xs \<noteq> []"
  shows "last (sort_key f xs) \<in> set xs \<and> (\<forall>x \<in> set xs. f x \<le> f (last (sort_key f xs)))"
proof -
  have ne: "sort_key f xs \<noteq> []" using assms by (metis length_0_conv length_sort)
  have "f x \<le> f (last (sort_key f xs))" if "x \<in> set xs" for x
  proof -
    obtain ys where ys: "sort_key f xs = ys @ [last (sort_key f xs)]" using ne by (metis append_butlast_last_id)
    have "sorted (map f (ys @ [last (sort_key f xs)]))" using sorted_sort_key [of f xs] ys by simp
    moreover have "x \<in> set (ys @ [last (sort_key f xs)])" using that ys by (metis set_sort)
    ultimately show ?thesis by (auto simp: sorted_append)
  qed
  with last_in_set [OF ne] show ?thesis by simp
qed

lemma write_installed_effect:
  assumes "list_all plain_name d" "t = [] \<or> t = [[]]" "write_installed (Path True (d @ t)) s w = (Inr (), w')"
  obtains m where "validate_installed s = Inr ()" "read_ownership w (Path True (d @ t)) (ownership_record_id s) = Inr m"
    "binds_ownership s m" "safe_dir w (installed_dir d)"
    "entry_at w (installed_dir d @ [is_install_id s @ ''.'' @ is_transaction_id s @ ''.json'']) = None"
    "w' = new_file (installed_dir d @ [is_install_id s @ ''.'' @ is_transaction_id s @ ''.json'']) (installed_line s) w"
proof -
  from assms(3) obtain m where m: "validate_installed s = Inr ()"
    "read_ownership w (Path True (d @ t)) (ownership_record_id s) = Inr m" "binds_ownership s m"
    "write_new_durable_text (record_path (Path True (d @ t)) ''installed'' (is_install_id s @ ''.'' @ is_transaction_id s @ ''.json''))
      (installed_line s) w = (Inr (), w')"
    by (auto simp: write_installed_def serialize_installed_state_def bindS_eq_Inr bindE_eq_Inr installed_line_def
        split: sum.splits if_splits)
  have ids: "valid_identifier (is_install_id s)" "valid_identifier (is_transaction_id s)"
    using m(1) by (auto simp: validate_installed_def bindE_eq_Inr)
  have plain: "list_all plain_name (installed_dir d)" using assms(1) by (simp add: plain_name_def)
  note w = m(4) [unfolded installed_path [OF assms(1,2) ids]]
  have "plain_name (is_install_id s @ ''.'' @ is_transaction_id s @ ''.json'')"
    using json_name_plain [of "is_install_id s @ ''.'' @ is_transaction_id s"] by simp
  from write_new_ok [OF plain this w] m(1-3) that show thesis by blast
qed

lemma read_ownership_frame:
  assumes "list_all plain_name d" "t = [] \<or> t = [[]]" "safe_dir w (ownership_dir d)"
    and "entry_at w (installed_dir d @ [c]) = None" "w' = new_file (installed_dir d @ [c]) content w"
  shows "read_ownership w' (Path True (d @ t)) i = read_ownership w (Path True (d @ t)) i"
proof (cases "valid_identifier i")
  case True
  have "safe_dir w' (ownership_dir d)" unfolding assms(5) using assms(3,4) by (rule safe_dir_new_file) simp
  then have "read_stable_text w' (Path True (ownership_dir d @ [i @ ''.json''])) n =
      read_stable_text w (Path True (ownership_dir d @ [i @ ''.json''])) n" for n
    using assms(3,5) json_name_plain by (intro read_stable_text_frame) simp_all
  then show ?thesis by (simp add: read_ownership_def ownership_path [OF assms(1,2) True])
qed (simp add: read_ownership_def)

lemma installed_written:
  assumes "state_repository w0 p = Inr root" "write_installed root s w = (Inr (), w')"
    and "require_safe_directory w (path_append root (path_of ''ownership'')) = Inr ()"
    and "\<forall>q. \<not> w_refuses w Sys_open q" "length (installed_line s) < 2 ^ 64"
  shows "decides (read_installed_snapshot w' root (is_install_id s) (is_transaction_id s))
    (fits default_limits (length (installed_line s)) (installed_document s)) s"
proof -
  obtain d t where root: "root = Path True (d @ t)" "t = [] \<or> t = [[]]" "list_all plain_name d"
    using assms(1) unfolding state_repository_def by (rule repository_root)
  obtain m where m: "validate_installed s = Inr ()" "read_ownership w root (ownership_record_id s) = Inr m"
    "binds_ownership s m" "safe_dir w (installed_dir d)"
    "entry_at w (installed_dir d @ [is_install_id s @ ''.'' @ is_transaction_id s @ ''.json'']) = None"
    "w' = new_file (installed_dir d @ [is_install_id s @ ''.'' @ is_transaction_id s @ ''.json'']) (installed_line s) w"
    using assms(2) unfolding root(1) by (rule write_installed_effect [OF root(3,2)])
  let ?name = "is_install_id s @ ''.'' @ is_transaction_id s @ ''.json''"
  have ids: "valid_identifier (is_install_id s)" "valid_identifier (is_transaction_id s)" "valid_identifier (ownership_record_id s)"
    using m(1) by (auto simp: validate_installed_def bindE_eq_Inr)
  have plain: "list_all plain_name (ownership_dir d)" using root(3) by (simp add: plain_name_def)
  have "safe_dir w (ownership_dir d)"
    using assms(3) require_safe_plain [OF plain] ownership_path(2) [OF root(3,2) ids(1)] by (simp add: root(1))
  then have own: "read_ownership w' root (ownership_record_id s) = Inr m"
    using read_ownership_frame [OF root(3,2) _ m(5,6)] m(2) by (simp add: root(1))
  have safe': "safe_dir w' (installed_dir d)" unfolding m(6) using m(4,5) by (rule safe_dir_new_file) simp
  have name: "plain_name ?name" using json_name_plain [of "is_install_id s @ ''.'' @ is_transaction_id s"] by simp
  have content: "decides (read_stable_text w' (Path True (installed_dir d @ [?name])) (4 * 1024 * 1024))
      (length (installed_line s) \<le> 4 * 1024 * 1024) (installed_line s)"
    by (rule read_stable_text_decides [OF safe' name]) (use assms(4,5) m(6) in simp_all)
  have tail: "bindE (requireE (is_install_id s = is_install_id s \<and> is_transaction_id s = is_transaction_id s) x) (\<lambda>_.
      bindE (read_ownership w' root (ownership_record_id s)) (\<lambda>ownership.
      bindE (requireE (binds_ownership s ownership) y) (\<lambda>_. Inr s))) = Inr s" for x y
    using own m(3) by simp
  have "decides (read_installed_snapshot w' root (is_install_id s) (is_transaction_id s))
      (length (installed_line s) \<le> 4 * 1024 * 1024 \<and>
       (fits default_limits (length (installed_line s)) (installed_document s) \<and> validate_installed s = Inr ()) \<and> True) s"
    unfolding read_installed_snapshot_def root(1) installed_path(1) [OF root(3,2) ids(1,2)]
    by (subst if_not_P, simp add: ids, rule decides_bindE [OF content], rule decides_bindE [OF decode_installed_line])
      (use tail in \<open>simp add: root(1)\<close>)
  then show ?thesis by (rule decides_cong) (use m(1) in \<open>auto simp: fits_def default_limits_def\<close>)
qed

section \<open>A sample repository\<close>

definition state_world :: world where
  "state_world = \<lparr>w_tree = [([''s''], Dir 1), ([''s'', ''ownership''], Dir 2), ([''s'', ''installed''], Dir 3)],
    w_dev = 1, w_cwd = [], w_next_ino = 9, w_now = 0, w_clock = [], w_order = (\<lambda>xs. xs), w_refuses = (\<lambda>_ _. False),
    w_writes = (\<lambda>_. replicate (1024 * 1024) (Wrote 1))\<rparr>"

definition sample_manifest :: ownership_manifest where
  "sample_manifest = \<lparr>om_manifest_id = ''m1'', om_manifest_digest = [], om_install_id = ''i1'', om_target_root = ''/opt/app'',
    om_created_by_transaction_id = ''t1'',
    om_files = [\<lparr>of_relative_path = ''bin/x'', of_sha256 = replicate 64 (CHR ''0''), of_size_bytes = 3\<rparr>],
    om_directories = [''bin'']\<rparr>"

abbreviation sealed_manifest :: ownership_manifest where
  "sealed_manifest \<equiv> sample_manifest\<lparr>om_manifest_digest := ownership_digest sample_manifest\<rparr>"

abbreviation manifest_file :: "string list" where
  "manifest_file \<equiv> [''s'', ''ownership'', ''m1.json'']"

lemma sample_manifest_valid: "validate_ownership sample_manifest = Inr sample_manifest"
proof -
  have ids: "valid_identifier ''m1''" "valid_identifier ''i1''" "valid_identifier ''t1''"
    "valid_sha256 (replicate 64 (CHR ''0''))" by code_simp+
  have "safe_parts ''bin/x''" "safe_parts ''bin''" by code_simp+
  then have "safe_relative ''bin/x''" "safe_relative ''bin''" by (simp_all add: safe_relative_def)
  moreover have "check_parents {''bin''} (parent_path (path_of ''bin/x''))" by code_simp
  ultimately show ?thesis
    using ids by (simp add: validate_ownership_def sample_manifest_def)
qed

lemma state_world_safe:
  "safe_dir state_world [''s'']" "safe_dir state_world [''s'', ''ownership'']" "safe_dir state_world [''s'', ''installed'']"
  by (simp_all add: safe_dir_def state_world_def entry_at_def plain_name_def le_Suc_eq)

lemma sample_state_repository: "state_repository state_world (path_of ''/s'') = Inr (Path True ([''s''] @ []))"
proof -
  have p: "path_of ''/s'' = Path True [''s'']" by code_simp
  have a: "list_all plain_name [''s'']" by (simp add: plain_name_def)
  have "require_safe_directory state_world (Path True [''s'']) = Inr ()"
    using require_safe_plain [OF a] state_world_safe(1) by blast
  then show ?thesis by (simp add: state_repository_def repository_at_def p absolute_def normal_names_plain [OF a] Let_def)
qed

lemma digest_length: "length (ownership_digest m) = 64"
  using valid_sha256_hex [of "canonical (ownership_payload m)"] by (simp add: ownership_digest_spec valid_sha256_def)

lemma sample_manifest_size: "length (ownership_line sealed_manifest) \<le> 4000"
proof -
  have "text_bound (ownership_document sealed_manifest) \<le> 3000"
    unfolding ownership_document_object object_bound [OF ownership_doc_distinct]
    by (simp add: ownership_doc_members_def ownership_members_def sample_manifest_def directory_value_def
        owned_file_value_def object_bound) (simp add: digest_length)
  then show ?thesis using length_canonical [of "ownership_document sealed_manifest"] by (simp add: ownership_line_def)
qed

lemma state_write:
  assumes "safe_dir state_world [''s'', dir]" "plain_name c" "length content \<le> 1024 * 1024"
    and "w = state_world \<or> dir = ''installed'' \<and> w = new_file manifest_file x state_world"
  shows "write_new_durable_text (Path True [''s'', dir, c]) content w = (Inr (), new_file [''s'', dir, c] content w)"
proof -
  have "safe_dir (new_file manifest_file x state_world) [''s'', dir]"
    using assms(1) by (rule safe_dir_new_file) (simp_all add: state_world_def entry_at_def)
  with assms show ?thesis
    using write_new_completes [of w "[''s'', dir]" c content]
    by (auto simp: state_world_def entry_at_def list_all_length filter_replicate new_file_def put_entry_def)
qed

lemma sample_ownership_write:
  "write_ownership (Path True ([''s''] @ [])) sample_manifest state_world =
    (Inr sealed_manifest, new_file manifest_file (ownership_line sealed_manifest) state_world)"
proof -
  have plain: "list_all plain_name [''s'']" "list_all plain_name [''s'', ''ownership'']" by (simp_all add: plain_name_def)
  have i: "valid_identifier ''m1''" by code_simp
  have "require_safe_directory state_world (Path True [''s'', ''ownership'']) = Inr ()"
    using require_safe_plain [OF plain(2)] state_world_safe(2) by blast
  moreover have "write_new_durable_text (Path True [''s'', ''ownership'', ''m1.json'']) (ownership_line sealed_manifest) state_world =
      (Inr (), new_file manifest_file (ownership_line sealed_manifest) state_world)"
    using sample_manifest_size state_world_safe(2) by (intro state_write) (simp_all add: plain_name_def)
  moreover have "om_manifest_id sealed_manifest = ''m1''" by (simp add: sample_manifest_def)
  ultimately show ?thesis
    using ownership_path [OF plain(1) _ i, of "[]"] sample_manifest_valid
    by (simp add: write_ownership_def Let_def ownership_line_def [symmetric])
      (simp add: bindS_def returnS_def sample_manifest_def)
qed

lemma sample_ownership_readable: "ownership_readable sealed_manifest"
  using sample_manifest_size
  by (simp add: ownership_readable_def sample_manifest_def valid_utf8_ascii)

lemma sample_ownership_read:
  "read_ownership (new_file manifest_file (ownership_line sealed_manifest) state_world) (Path True ([''s''] @ [])) ''m1'' = Inr sealed_manifest"
  using ownership_written [OF sample_state_repository sample_ownership_write] sample_manifest_size sample_ownership_readable
  by (simp add: state_world_def sample_manifest_def)

definition sample_installed :: installed_state where
  "sample_installed = \<lparr>is_install_id = ''i1'', is_product_id = ''p'', is_product_version = ''1.0'',
    is_recipe_digest = replicate 64 (CHR ''0''), is_source_archive_digest = replicate 64 (CHR ''0''),
    is_target_root = ''/opt/app'', is_component_selection = [''core''], is_ownership_manifest_ref = ''ownership/m1.json'',
    is_ownership_manifest_digest = ownership_digest sample_manifest,
    is_entrypoints = [\<lparr>ep_entrypoint_id = ''e'', ep_relative_path = ''bin/x'', ep_kind = ''tool''\<rparr>],
    is_setup_abi_major = 1, is_setup_abi_minor = 0, is_provider_revision = ''r1'', is_transaction_id = ''t1'',
    is_created_at = ''2026'', is_last_verification = \<lparr>vs_report_id = ''v'', vs_report_digest = replicate 64 (CHR ''0''),
      vs_status = ''pass'', vs_verified_at = ''2026''\<rparr>, is_audit_chain_id = ''c'', is_lifecycle_status = ''installed''\<rparr>"

definition manifest_world :: world where
  "manifest_world = new_file manifest_file (ownership_line sealed_manifest) state_world"

definition installed_world :: world where
  "installed_world = new_file [''s'', ''installed'', ''i1.t1.json''] (installed_line sample_installed) manifest_world"

lemma sample_record_id: "ownership_record_id sample_installed = ''m1''"
  by (simp add: ownership_record_id_def sample_installed_def)

lemma sample_installed_valid: "validate_installed sample_installed = Inr ()"
proof -
  have ids: "valid_identifier ''m1''" "valid_identifier ''i1''" "valid_identifier ''t1''" "valid_identifier ''p''"
    "valid_identifier ''c''" "valid_identifier ''r1''" "valid_identifier ''core''" "valid_identifier ''e''"
    "valid_sha256 (replicate 64 (CHR ''0''))" "safe_parts ''bin/x''" by code_simp+
  have "valid_sha256 (ownership_digest sample_manifest)" by (simp add: ownership_digest_spec)
  then show ?thesis
    using ids sample_record_id
    by (simp add: validate_installed_def entrypoint_ok_def safe_relative_def) (simp add: sample_installed_def safe_relative_def entrypoint_ok_def)
qed

lemma sample_installed_size: "length (installed_line sample_installed) \<le> 8000"
proof -
  have "text_bound (installed_document sample_installed) \<le> 7900"
    unfolding installed_document_def object_bound [OF installed_distinct]
    by (simp add: installed_fields_def entrypoint_value_def verification_value_def abi_value_def object_bound)
      (simp add: sample_installed_def entrypoint_value_def object_bound digest_length)
  then show ?thesis using length_canonical [of "installed_document sample_installed"] by (simp add: installed_line_def)
qed

lemma sample_installed_fits:
  "fits default_limits (length (installed_line sample_installed)) (installed_document sample_installed)"
proof -
  have depth: "max_depth default_limits = 64" by (simp add: default_limits_def)
  have ok: "string_ok default_limits (replicate 64 (CHR ''0''))" "string_ok default_limits (ownership_digest sample_manifest)"
    by (simp_all add: string_ok_lit list_all_length) (simp add: ownership_digest_spec)
  have "shape_ok default_limits 0 (installed_document sample_installed)"
    unfolding installed_document_def object_shape [OF installed_distinct]
    by (simp add: installed_fields_def entrypoint_value_def verification_value_def abi_value_def object_shape depth string_ok_lit)
      (simp add: sample_installed_def entrypoint_value_def object_shape string_ok_lit depth ok)
  moreover have "value_count (installed_document sample_installed) \<le> 100"
    unfolding installed_document_def object_count [OF installed_distinct]
    by (simp add: installed_fields_def entrypoint_value_def verification_value_def abi_value_def object_count)
      (simp add: sample_installed_def entrypoint_value_def object_count)
  ultimately show ?thesis using sample_installed_size by (simp add: fits_def default_limits_def)
qed

lemma manifest_world_safe: "safe_dir manifest_world [''s'', ''installed'']" "safe_dir manifest_world [''s'', ''ownership'']"
  unfolding manifest_world_def using state_world_safe
  by (auto intro!: safe_dir_new_file simp: state_world_def entry_at_def)

lemma sample_binds: "binds_ownership sample_installed sealed_manifest"
  by (simp add: binds_ownership_def sample_installed_def sample_manifest_def)

lemma sample_installed_write:
  "write_installed (Path True ([''s''] @ [])) sample_installed manifest_world = (Inr (), installed_world)"
proof -
  have plain: "list_all plain_name [''s'']" "list_all plain_name [''s'', ''installed'']" by (simp_all add: plain_name_def)
  have ids: "valid_identifier ''i1''" "valid_identifier ''t1''" by code_simp+
  have "require_safe_directory manifest_world (Path True [''s'', ''installed'']) = Inr ()"
    using require_safe_plain [OF plain(2)] manifest_world_safe(1) by blast
  moreover have "write_new_durable_text (Path True [''s'', ''installed'', ''i1.t1.json'']) (installed_line sample_installed) manifest_world =
      (Inr (), installed_world)"
    unfolding installed_world_def manifest_world_def
    using sample_installed_size state_world_safe(3)
    by (intro state_write [where x = "ownership_line sealed_manifest"]) (simp_all add: plain_name_def)
  moreover have "is_install_id sample_installed = ''i1''" "is_transaction_id sample_installed = ''t1''"
    by (simp_all add: sample_installed_def)
  ultimately show ?thesis
    using installed_path [OF plain(1) _ ids, of "[]"] sample_installed_valid sample_ownership_read sample_binds
    by (simp add: write_installed_def serialize_installed_state_def sample_record_id manifest_world_def [symmetric]
        installed_line_def [symmetric])
qed

lemma sample_lookup: "read_installed installed_world (Path True ([''s''] @ [])) ''i1'' = Inr sample_installed"
proof -
  have plain: "list_all plain_name [''s'']" "list_all plain_name [''s'', ''installed'']" "plain_name ''i1.t1.json''"
    by (simp_all add: plain_name_def)
  have ids: "valid_identifier ''i1''" "valid_identifier ''t1''" by code_simp+
  have absent: "entry_at manifest_world [''s'', ''installed'', ''i1.t1.json''] = None"
    unfolding manifest_world_def by simp (simp add: state_world_def entry_at_def)
  then have safe: "safe_dir installed_world [''s'', ''installed'']"
    unfolding installed_world_def by (intro safe_dir_new_file manifest_world_safe) simp_all
  have "list_directory installed_world [''s'', ''installed''] = [''i1.t1.json'']"
    by (simp add: list_directory_def children_def installed_world_def manifest_world_def state_world_def new_file_def put_entry_def)
  moreover have "require_safe_directory installed_world (Path True [''s'', ''installed'']) = Inr ()"
    using require_safe_plain [OF plain(2)] safe by blast
  moreover have "resolve installed_world True (Path True [''s'', ''installed'']) = Some [''s'', ''installed'']"
    using resolve_safe [OF safe, of "[]" True] by simp
  moreover have e: "entry_at installed_world [''s'', ''installed'', ''i1.t1.json''] =
      Some (File (w_next_ino manifest_world) (installed_line sample_installed) 1 (w_now manifest_world))"
    by (simp add: installed_world_def)
  then have "read_stable_text installed_world (Path True [''s'', ''installed'', ''i1.t1.json'']) (4 * 1024 * 1024) = Inr (installed_line sample_installed)"
    using read_stable_text_child [OF safe plain(3)] sample_installed_size
    by (simp add: installed_world_def manifest_world_def state_world_def)
  moreover have "installed_entry_ok installed_world (Path True [''s'', ''installed'']) ''i1.t1.json''"
    using e stat_child [OF safe plain(3)] lstat_child [OF safe plain(3)] append_element [OF plain(2,3)]
    by (simp add: installed_entry_ok_def)
  moreover have "path_append (Path True [''s'', ''installed'']) (element_path ''i1.t1.json'') = Path True [''s'', ''installed'', ''i1.t1.json'']"
    using append_element [OF plain(2,3)] by simp
  moreover have "decode_installed_record (installed_line sample_installed) = Inr sample_installed"
    using decode_installed_line sample_installed_fits sample_installed_valid by (simp add: decides_def)
  moreover have "read_ownership installed_world (Path True ([''s''] @ [])) ''m1'' = Inr sealed_manifest"
    using read_ownership_frame [OF plain(1), of "[]" manifest_world "''i1.t1.json''"] manifest_world_safe(2) absent sample_ownership_read
    by (simp add: installed_world_def manifest_world_def)
  moreover have "is_install_id sample_installed = ''i1''" "is_transaction_id sample_installed = ''t1''"
    by (simp_all add: sample_installed_def)
  ultimately show ?thesis
    using ids installed_path(2) [OF plain(1) _ ids, of "[]"] sample_binds
    by (simp add: read_installed_def Let_def sample_record_id)
qed

section \<open>Properties\<close>

text \<open>
  C16. The digest of an ownership manifest, computed by feeding a SHA-256 object piece by piece
  without building the document, is the digest of the canonical payload.
\<close>

theorem ownership_digest_streams: "ownership_digest m = sha256_canonical (ownership_payload m)"
  by (simp add: ownership_digest_spec sha256_canonical_spec sha256_hex_spec)

text \<open>
  C13. A written ownership manifest reads back as the sorted, sealed manifest exactly when its paths are
  UTF-8, its record is at most 4 MiB and four values per file and two per directory stay within
  100000; otherwise the record exists and every later read of it is refused.
\<close>

theorem ownership_write_read:
  assumes "state_repository w0 p = Inr root" "write_ownership root i w = (Inr m, w')"
    and "\<forall>q. \<not> w_refuses w Sys_open q" "length (ownership_line m) < 2 ^ 64"
  shows "m = i\<lparr>om_files := sort_key of_relative_path (om_files i), om_directories := sort (om_directories i),
      om_manifest_digest := ownership_digest m\<rparr> \<and>
    (if ownership_readable m then read_ownership w' root (om_manifest_id m) = Inr m
     else \<not> accepts (read_ownership w' root (om_manifest_id m)))"
  using assms by (rule ownership_written)

theorem ownership_write_read_witness:
  "\<exists>m w'. write_ownership (Path True [''s'']) sample_manifest state_world = (Inr m, w') \<and>
    read_ownership w' (Path True [''s'']) (om_manifest_id m) = Inr m"
  using ownership_write_read [OF sample_state_repository sample_ownership_write] sample_ownership_write
    sample_manifest_size sample_ownership_readable
  by (auto simp: state_world_def)

text \<open>
  C17. Every ownership manifest that a read returns is well formed: files and directories are strictly
  sorted, all paths are safe relative paths, no path is both a file and a directory, every
  ancestor of a file is a listed directory, and the digest is the one of the canonical payload.
\<close>

theorem read_ownership_closed:
  assumes "read_ownership w root i = Inr m"
  shows "sorted_wrt (<) (map of_relative_path (om_files m)) \<and> sorted_wrt (<) (om_directories m) \<and>
    list_all safe_relative (om_directories m) \<and>
    list_all (\<lambda>f. safe_relative (of_relative_path f) \<and> valid_sha256 (of_sha256 f) \<and>
      of_relative_path f \<notin> set (om_directories m) \<and> ancestors (of_relative_path f) \<subseteq> set (om_directories m)) (om_files m) \<and>
    om_manifest_digest m = sha256_hex (canonical (ownership_payload m))"
proof -
  note valid = read_ownership_valid(1) [OF assms, unfolded validate_ownership_Inr]
  then have "om_files m = sort_key of_relative_path (om_files m)" "om_directories m = sort (om_directories m)"
    by (metis ownership_manifest.select_convs(6) ownership_manifest.surjective ownership_manifest.update_convs(6,7),
      metis ownership_manifest.select_convs(7) ownership_manifest.surjective ownership_manifest.update_convs(7))
  then have sorted: "sorted (map of_relative_path (om_files m))" "sorted (om_directories m)"
    by (metis sorted_sort_key, metis sorted_sort)
  have cf: "check_files [] (om_files m)" "check_directories [] (om_directories m)"
    "check_closure (set (om_directories m)) (om_files m) = Inr ()" using valid by blast+
  show ?thesis
    using check_files_facts [OF cf(1)] check_files_strict [OF cf(1) sorted(1)] check_directories_facts [OF cf(2)]
      check_directories_strict [OF cf(2) sorted(2)] check_closure_facts [OF cf(3)] read_ownership_valid(2) [OF assms]
    by (auto simp: list_all_iff ownership_digest_spec)
qed

theorem read_ownership_closed_witness:
  "read_ownership manifest_world (Path True [''s'']) ''m1'' = Inr sealed_manifest \<and> ancestors ''bin/x'' \<subseteq> {''bin''}"
  using read_ownership_closed [OF sample_ownership_read] sample_ownership_read
  by (simp add: manifest_world_def) (simp add: sample_manifest_def)

text \<open>
  C14. A written installed state binds a readable ownership manifest with the same digest, installation and
  target root, and its snapshot reads back unchanged exactly when its document is within the
  limits of the JSON reader.
\<close>

theorem installed_write_read:
  assumes "state_repository w0 p = Inr root" "write_installed root s w = (Inr (), w')"
    and "require_safe_directory w (path_append root (path_of ''ownership'')) = Inr ()"
    and "\<forall>q. \<not> w_refuses w Sys_open q" "length (installed_line s) < 2 ^ 64"
  shows "if fits default_limits (length (installed_line s)) (installed_document s)
    then read_installed_snapshot w' root (is_install_id s) (is_transaction_id s) = Inr s
    else \<not> accepts (read_installed_snapshot w' root (is_install_id s) (is_transaction_id s))"
  using installed_written [OF assms] unfolding decides_def .

theorem installed_write_read_witness:
  "\<exists>w'. write_installed (Path True [''s'']) sample_installed manifest_world = (Inr (), w') \<and>
    read_installed_snapshot w' (Path True [''s'']) ''i1'' ''t1'' = Inr sample_installed"
proof -
  have plain: "list_all plain_name [''s'', ''ownership'']" by (simp add: plain_name_def)
  have "path_append (Path True [''s'']) (path_of ''ownership'') = Path True [''s'', ''ownership'']" by code_simp
  then have safe: "require_safe_directory manifest_world (path_append (Path True ([''s''] @ [])) (path_of ''ownership'')) = Inr ()"
    using require_safe_plain [OF plain] manifest_world_safe(2) by simp
  have ids: "is_install_id sample_installed = ''i1''" "is_transaction_id sample_installed = ''t1''"
    by (simp_all add: sample_installed_def)
  show ?thesis
    using installed_write_read [OF sample_state_repository sample_installed_write safe] sample_installed_write
      sample_installed_fits sample_installed_size by (simp add: ids) (auto simp: manifest_world_def state_world_def)
qed

text \<open>
  C15. A lookup returns a valid state of the requested installation whose ownership manifest still
  validates, and no other record of that installation in the directory is newer.
\<close>

theorem read_installed_newest:
  assumes "read_installed w root i = Inr s"
  shows "is_install_id s = i \<and> validate_installed s = Inr () \<and>
    (\<exists>m. read_ownership w root (ownership_record_id s) = Inr m \<and> binds_ownership s m) \<and>
    (\<exists>q. resolve w True (path_append root (path_of ''installed'')) = Some q \<and>
      (\<forall>name \<in> set (list_directory w q). \<exists>content s'.
        read_stable_text w (path_append (path_append root (path_of ''installed'')) (element_path name)) (4 * 1024 * 1024) = Inr content \<and>
        decode_installed_record content = Inr s' \<and>
        (is_install_id s' = i \<longrightarrow> [is_created_at s', is_transaction_id s'] \<le> [is_created_at s, is_transaction_id s])))"
proof -
  let ?dir = "path_append root (path_of ''installed'')" and ?key = "\<lambda>s. [is_created_at s, is_transaction_id s]"
  from assms obtain q cs m where q: "resolve w True ?dir = Some q" "installed_candidates w ?dir i (list_directory w q) = Inr cs"
    "cs \<noteq> []" "s = last (sort_key ?key cs)" "read_ownership w root (ownership_record_id s) = Inr m" "binds_ownership s m"
    by (auto simp: read_installed_def Let_def bindE_eq_Inr split: if_splits option.splits)
  note facts = installed_candidates_facts [OF q(2)]
  have "s \<in> set cs" using last_sort_key [OF q(3), of ?key] q(4) by simp
  moreover have "s' \<in> set cs \<Longrightarrow> ?key s' \<le> ?key s" for s' using last_sort_key [OF q(3), of ?key] q(4) by blast
  ultimately show ?thesis using facts q(1,5,6) by metis
qed

theorem read_installed_newest_witness:
  "read_installed installed_world (Path True [''s'']) ''i1'' = Inr sample_installed \<and> is_install_id sample_installed = ''i1''"
  using read_installed_newest [OF sample_lookup] sample_lookup by simp

end
