(* ===== verification/Usk_Transaction.thy ===== *)
theory Usk_Transaction
  imports Usk_Stream_Journal
begin

text \<open>
  The journal of a setup transaction, the part of
  \<^verbatim>\<open>runtime/setup/transaction/usk_transaction_session.cpp\<close> and \<^verbatim>\<open>usk_commit_authority.cpp\<close> that touches
  no file: the specification and the session as records, the table of state transitions, the
  text of the journal, its decoding and the comparison of two journals. A name of the source
  that another file also uses has the prefix \<open>tx_\<close>. The digest field that only the Windows
  branch reads is left out of the session.
\<close>

section \<open>Commit authority\<close>

datatype commit_authority_requirement = Legacy_observed | Staged_child_bound_v1

fun commit_authority_name :: "commit_authority_requirement \<Rightarrow> string" where
  "commit_authority_name Legacy_observed = ''legacy_observed''"
| "commit_authority_name Staged_child_bound_v1 = ''staged_child_bound_v1''"

definition require_commit_authority :: "commit_authority_requirement \<Rightarrow> unit res" where
  "require_commit_authority requirement =
    (if requirement = Staged_child_bound_v1
     then throwE ''staged_child_bound_v1 requires protected namespace authority unavailable on this host; no fallback''
     else Inr ())"

section \<open>Specification and session\<close>

record transaction_spec =
  ts_transaction_id :: string
  ts_plan_id :: string
  ts_plan_digest :: string
  ts_operation :: string
  ts_staging_parent :: path
  ts_target_root :: path
  ts_state_root :: path
  ts_audit_root :: path
  ts_required_commit_authority :: commit_authority_requirement

record transition =
  tr_sequence :: "64 word"
  tr_from :: string
  tr_to :: string
  tr_recorded_at :: string

record staged_file =
  sf_relative_path :: path
  sf_sha256 :: string
  sf_size_bytes :: "64 word"

type_synonym commit_closure_observation = "(string \<times> string) list"

record transaction_session =
  ss_spec :: transaction_spec
  ss_staging_root :: path
  ss_journal_path :: path
  ss_created_at :: string
  ss_current_state :: string
  ss_staging_identity :: string
  ss_retain_stream_cleanup :: bool
  ss_retain_commit_cleanup :: bool
  ss_maintenance_finalization :: bool
  ss_verified_closure :: commit_closure_observation
  ss_stream_journal :: stream_journal
  ss_staging_parent_identity :: string
  ss_target_parent_identity :: string
  ss_journal_directory_identity :: string
  ss_transitions :: "transition list"
  ss_staged_files :: "staged_file list"

section \<open>Text\<close>

fun json_escape :: "string \<Rightarrow> string" where
  "json_escape [] = []"
| "json_escape (ch # rest) =
    (if ch = backslash_ch then [backslash_ch, backslash_ch]
     else if ch = quote_ch then [backslash_ch, quote_ch]
     else if ch = CHR 0x0A then [backslash_ch, CHR ''n'']
     else if ch = CHR 0x0D then [backslash_ch, CHR ''r'']
     else if ch = CHR 0x09 then [backslash_ch, CHR ''t'']
     else if byte ch < 0x20 then backslash_ch # ''u00'' @ hex_pad 2 (byte ch)
     else [ch]) @ json_escape rest"

definition quote :: "string \<Rightarrow> string" where
  "quote text = [quote_ch] @ json_escape text @ [quote_ch]"

text \<open>
  \<^verbatim>\<open>gmtime_r\<close> as the calendar of the years from 1970 on, counted in cycles of 400 years that start
  in March; \<^verbatim>\<open>put_time\<close> with the format of the source.
\<close>

definition civil_from_days :: "nat \<Rightarrow> nat \<times> nat \<times> nat" where
  "civil_from_days n = (let z = n + 719468; era = z div 146097; doe = z mod 146097;
     yoe = (doe - doe div 1460 + doe div 36524 - doe div 146096) div 365;
     doy = doe - (365 * yoe + yoe div 4 - yoe div 100); mp = (5 * doy + 2) div 153;
     month = (if mp < 10 then mp + 3 else mp - 9)
     in (yoe + era * 400 + (if month \<le> 2 then 1 else 0), month, doy - (153 * mp + 2) div 5 + 1))"

definition iso8601 :: "nat \<Rightarrow> string" where
  "iso8601 now = (case civil_from_days (now div 86400) of (year, month, day) \<Rightarrow>
     let two = (\<lambda>n. zero_pad 2 (dec n)); s = now mod 86400 in
     zero_pad 4 (dec year) @ ''-'' @ two month @ ''-'' @ two day @ ''T'' @
     two (s div 3600) @ '':'' @ two (s div 60 mod 60) @ '':'' @ two (s mod 60) @ ''Z'')"

text \<open>The clock of the world counts nanoseconds, \<^verbatim>\<open>std::time\<close> whole seconds.\<close>

definition iso8601_now :: "string io" where
  "iso8601_now = bindS read_clock (\<lambda>t. returnS (iso8601 (unat t div 1000000000)))"

definition tx_valid_identifier :: "string \<Rightarrow> bool" where
  "tx_valid_identifier text \<longleftrightarrow> text \<noteq> [] \<and> length text \<le> 128 \<and>
    list_all (\<lambda>ch. isalnum ch \<or> ch = CHR ''.'' \<or> ch = CHR ''_'' \<or> ch = CHR ''-'') text"

definition tx_valid_sha256 :: "string \<Rightarrow> bool" where
  "tx_valid_sha256 text \<longleftrightarrow> length text = 64 \<and> list_all (\<lambda>ch. isdigit ch \<or> (CHR ''a'' \<le> ch \<and> ch \<le> CHR ''f'')) text"

definition reserved_names :: "string list" where
  "reserved_names = [''con'', ''prn'', ''aux'', ''nul'', ''clock$'',
    ''com1'', ''com2'', ''com3'', ''com4'', ''com5'', ''com6'', ''com7'', ''com8'', ''com9'',
    ''lpt1'', ''lpt2'', ''lpt3'', ''lpt4'', ''lpt5'', ''lpt6'', ''lpt7'', ''lpt8'', ''lpt9'']"

definition safe_segment :: "string \<Rightarrow> bool" where
  "safe_segment segment \<longleftrightarrow>
    \<not> (segment = [] \<or> segment = ''.'' \<or> segment = ''..'' \<or> CHR '':'' \<in> set segment \<or>
       last segment = CHR ''.'' \<or> last segment = CHR '' '') \<and>
    map tolower (takeWhile (\<lambda>c. c \<noteq> CHR ''.'') segment) \<notin> set reserved_names \<and>
    list_all (\<lambda>ch. \<not> (byte ch < 0x20 \<or> byte ch \<ge> 0x7f)) segment"

definition safe_relative_path :: "path \<Rightarrow> bool" where
  "safe_relative_path relative \<longleftrightarrow>
    \<not> path_empty relative \<and> \<not> is_absolute relative \<and> list_all safe_segment (elements relative)"

text \<open>The bytes of a file are a string of the model.\<close>

definition sha256_bytes :: "string \<Rightarrow> string" where
  "sha256_bytes bytes = sha256_hex bytes"

section \<open>States\<close>

definition valid_transition :: "string \<Rightarrow> string \<Rightarrow> bool" where
  "valid_transition from_state to_state =
    (if from_state = [] then to_state = ''created''
     else if from_state = ''created'' then to_state = ''validated''
     else if from_state = ''validated'' then to_state = ''planned''
     else if from_state = ''planned'' then to_state = ''staging''
     else if from_state = ''staging'' then to_state = ''staged'' \<or> to_state = ''recovery_required'' \<or> to_state = ''refused''
     else if from_state = ''staged'' then to_state = ''verified'' \<or> to_state = ''recovery_required'' \<or> to_state = ''refused''
     else if from_state = ''verified'' then to_state = ''committing'' \<or> to_state = ''recovery_required'' \<or> to_state = ''refused''
     else if from_state = ''committing'' then to_state = ''committed'' \<or> to_state = ''recovery_required''
     else if from_state = ''committed'' then to_state = ''completed'' \<or> to_state = ''recovery_required''
     else if from_state = ''recovery_required'' then
       to_state = ''committing'' \<or> to_state = ''rolled_back'' \<or> to_state = ''abandoned_by_operator''
     else False)"

definition journal_actions :: "string \<Rightarrow> string list" where
  "journal_actions state =
    (if state = ''staging'' \<or> state = ''staged'' \<or> state = ''verified'' \<or> state = ''committing'' then [''rollback'']
     else if state = ''committed'' then [''resume'']
     else if state = ''recovery_required'' \<or> state = ''failed'' then
       [''resume'', ''rollback'', ''retain_for_operator'', ''abandon'']
     else [])"

definition retain_commit_cleanup :: "jvalue \<Rightarrow> bool res" where
  "retain_commit_cleanup document =
    (if \<not> jcontains document ''recovery_metadata'' then Inr False
     else bindE (jat document ''recovery_metadata'') (\<lambda>metadata.
       if \<not> jcontains metadata ''commit_cleanup_policy'' then Inr False
       else bindE (string_at metadata ''commit_cleanup_policy'') (\<lambda>policy.
         if policy \<noteq> ''retain_only'' then throwE ''commit cleanup policy or rollback authority is invalid''
         else bindE (jat metadata ''staging_identity'') (\<lambda>identity.
           if identity \<noteq> JNull then throwE ''commit cleanup policy or rollback authority is invalid'' else Inr True))))"

definition validate_commit_requirement :: "jvalue \<Rightarrow> commit_authority_requirement \<Rightarrow> unit res" where
  "validate_commit_requirement document requirement =
    (let recorded = jcontains document ''required_commit_authority'' in
     if recorded \<noteq> (requirement = Staged_child_bound_v1)
     then throwE ''journal commit authority requirement mismatch or missing retention''
     else if \<not> recorded then Inr ()
     else bindE (string_at document ''required_commit_authority'') (\<lambda>name.
       if name \<noteq> ''staged_child_bound_v1''
       then throwE ''journal commit authority requirement mismatch or missing retention''
       else bindE (retain_commit_cleanup document) (\<lambda>retained.
         requireE retained ''journal commit authority requirement mismatch or missing retention'')))"

definition retain_stream_cleanup :: "jvalue \<Rightarrow> bool res" where
  "retain_stream_cleanup document =
    bindE (as_object document) (\<lambda>members.
    if map_of members ''recovery_metadata'' = None then Inr False
    else bindE (jat document ''recovery_metadata'') (\<lambda>metadata.
      bindE (as_object metadata) (\<lambda>fields.
      if map_of fields ''stream_cleanup_policy'' = None then Inr False
      else bindE (string_at metadata ''stream_cleanup_policy'') (\<lambda>policy.
        if policy \<noteq> ''retain_only'' then throwE ''stream cleanup policy or rollback authority is invalid''
        else bindE (jat metadata ''staging_identity'') (\<lambda>identity.
          if identity \<noteq> JNull then throwE ''stream cleanup policy or rollback authority is invalid'' else Inr True)))))"

section \<open>The text of a journal\<close>

text \<open>A string literal of the source between quotation marks.\<close>

definition lit :: "string \<Rightarrow> string" where
  "lit text = [quote_ch] @ text @ [quote_ch]"

definition chain_line :: "64 word \<Rightarrow> string \<Rightarrow> string \<Rightarrow> string \<Rightarrow> string" where
  "chain_line sequence from_state to_state recorded_at =
    dec (unat sequence) @ [CHR 0x00] @ from_state @ [CHR 0x00] @ to_state @ [CHR 0x00] @ recorded_at @ [CHR 0x0A]"

definition chain_text :: "transition list \<Rightarrow> string" where
  "chain_text ts = concat (map (\<lambda>t. chain_line (tr_sequence t) (tr_from t) (tr_to t) (tr_recorded_at t)) ts)"

definition render_root :: "string \<Rightarrow> path \<Rightarrow> string \<Rightarrow> string" where
  "render_root role root classification =
    ''{'' @ lit ''role'' @ '':'' @ lit role @ '','' @ lit ''root'' @ '':'' @ quote (path_string root) @ '','' @
    lit ''classification'' @ '':'' @ lit classification @ ''}''"

definition render_transition :: "string \<Rightarrow> transition \<Rightarrow> string" where
  "render_transition transaction_id t =
    ''{'' @ lit ''sequence'' @ '':'' @ dec (unat (tr_sequence t)) @ '','' @
    lit ''transition_id'' @ '':'' @ quote (transaction_id @ ''.'' @ dec (unat (tr_sequence t))) @ '','' @
    lit ''from'' @ '':'' @ (if tr_from t = [] then ''null'' else quote (tr_from t)) @ '','' @
    lit ''to'' @ '':'' @ quote (tr_to t) @ '','' @
    lit ''recorded_at'' @ '':'' @ quote (tr_recorded_at t) @ '','' @
    lit ''durable_before_external_visibility'' @ '':true}''"

definition render_staged_file :: "staged_file \<Rightarrow> string" where
  "render_staged_file file =
    ''{'' @ lit ''relative_path'' @ '':'' @ quote (path_string (sf_relative_path file)) @ '','' @
    lit ''sha256'' @ '':'' @ quote (sf_sha256 file) @ '','' @
    lit ''size_bytes'' @ '':'' @ dec (unat (sf_size_bytes file)) @ ''}''"

definition recorded_actions :: "bool \<Rightarrow> string \<Rightarrow> string list" where
  "recorded_actions retained state =
    (if retained \<and> state \<noteq> ''completed'' \<and> state \<noteq> ''committed'' then [''retain_for_operator'']
     else journal_actions state)"

definition render_metadata :: "transaction_session \<Rightarrow> string" where
  "render_metadata s =
    ''{'' @ lit ''staging_identity'' @ '':'' @
    (if ss_staging_identity s = [] \<or> ss_retain_stream_cleanup s \<or> ss_retain_commit_cleanup s
     then ''null'' else quote (ss_staging_identity s)) @ '','' @
    (if ss_retain_stream_cleanup s then lit ''stream_cleanup_policy'' @ '':'' @ lit ''retain_only'' @ '','' else []) @
    (if ss_retain_commit_cleanup s then lit ''commit_cleanup_policy'' @ '':'' @ lit ''retain_only'' @ '','' else []) @
    (if sj_present (ss_stream_journal s)
     then lit ''stream_journal'' @ '':'' @ canonical (render_stream_journal (ss_stream_journal s)) @ '','' else []) @
    lit ''staged_files'' @ '':['' @ commas (map render_staged_file (ss_staged_files s)) @ '']}''"

definition render_recovery :: "transaction_session \<Rightarrow> string" where
  "render_recovery s =
    ''{'' @ lit ''required'' @ '':'' @
    (if ss_current_state s = ''recovery_required'' \<or> ss_current_state s = ''failed'' then ''true'' else ''false'') @ '','' @
    lit ''available_actions'' @ '':['' @
    commas (map quote (recorded_actions (ss_retain_stream_cleanup s \<or> ss_retain_commit_cleanup s) (ss_current_state s))) @
    '']}''"

definition journal_text :: "transaction_session \<Rightarrow> string" where
  "journal_text s = (let spec = ss_spec s in
    ''{'' @ lit ''schema'' @ '':'' @ lit ''usk.transaction_journal.v1'' @ '','' @
    lit ''journal_id'' @ '':'' @ quote (''journal.'' @ ts_transaction_id spec) @ '','' @
    lit ''journal_digest'' @ '':'' @ quote (sha256_hex (chain_text (ss_transitions s))) @ '','' @
    lit ''transaction_id'' @ '':'' @ quote (ts_transaction_id spec) @ '','' @
    lit ''plan_id'' @ '':'' @ quote (ts_plan_id spec) @ '','' @
    lit ''plan_digest'' @ '':'' @ quote (ts_plan_digest spec) @ '','' @
    lit ''operation'' @ '':'' @ quote (ts_operation spec) @ '','' @
    lit ''current_state'' @ '':'' @ quote (ss_current_state s) @ '','' @
    lit ''created_at'' @ '':'' @ quote (ss_created_at s) @ '','' @
    lit ''updated_at'' @ '':'' @ quote (tr_recorded_at (last (ss_transitions s))) @ '','' @
    lit ''roots'' @ '':['' @
    render_root ''target'' (ts_target_root spec) ''operator_selected_owned_target'' @ '','' @
    render_root ''staging'' (ss_staging_root s) ''setup_owned'' @ '','' @
    render_root ''setup_state'' (ts_state_root spec) ''setup_owned'' @ '','' @
    render_root ''audit'' (ts_audit_root spec) ''audit_owned'' @ ''],'' @
    (if ts_required_commit_authority spec = Staged_child_bound_v1
     then lit ''required_commit_authority'' @ '':'' @ lit ''staged_child_bound_v1'' @ '','' else []) @
    lit ''transitions'' @ '':['' @ commas (map (render_transition (ts_transaction_id spec)) (ss_transitions s)) @ ''],'' @
    lit ''recovery_metadata'' @ '':'' @ render_metadata s @ '','' @
    lit ''recovery'' @ '':'' @ render_recovery s @ ''}'')"

definition journal_bound :: nat where "journal_bound = 4 * 1024 * 1024"

definition render_journal :: "transaction_session \<Rightarrow> string res" where
  "render_journal s =
    (if length (journal_text s) > journal_bound then throwE ''transaction journal exceeds its bounded recovery reader''
     else Inr (journal_text s))"

section \<open>Decoding\<close>

definition journal_limits :: parse_limits where
  "journal_limits = \<lparr>max_bytes = 4 * 1024 * 1024, max_depth = 64, max_values = 2 * 1024 * 1024,
     max_string_bytes = 1024 * 1024\<rparr>"

record recovery_inspection =
  ri_current_state :: string
  ri_journal_digest :: string
  ri_recorded_at :: string
  ri_snapshot_sha256 :: string
  ri_stream_source_digest :: string
  ri_stream_source_context :: string
  ri_publication_root_identity :: string
  ri_restart_origin_transaction_id :: string
  ri_restart_origin_snapshot_sha256 :: string
  ri_staging_exists :: bool
  ri_target_exists :: bool
  ri_commit_started :: bool
  ri_commit_confirmed :: bool
  ri_available_actions :: "string list"

record transaction_journal_history =
  th_current_state :: string
  th_journal_digest :: string
  th_recorded_at :: string
  th_snapshot_sha256 :: string
  th_stream :: stream_journal
  th_commit_started :: bool
  th_commit_confirmed :: bool
  th_retained_stream_cleanup :: bool
  th_retained_commit_cleanup :: bool

record completed_transaction_history =
  ch_journal_digest :: string
  ch_recorded_at :: string
  ch_snapshot_sha256 :: string
  ch_stream :: stream_journal

record transaction_journal_metadata =
  tm_inspection :: recovery_inspection
  tm_stream :: stream_journal
  tm_retained_stream :: bool
  tm_retained_commit :: bool

definition staging_root_of :: "transaction_spec \<Rightarrow> path" where
  "staging_root_of spec = path_append (ts_staging_parent spec) (path_of (''.usk-stage-'' @ ts_transaction_id spec))"

definition journal_path_of :: "transaction_spec \<Rightarrow> path" where
  "journal_path_of spec = path_append (path_append (ts_state_root spec) (path_of ''transactions''))
     (path_of (ts_transaction_id spec @ ''.journal.json''))"

text \<open>The tests of the first members; they are read in turn until one differs.\<close>

fun binds_members :: "jvalue \<Rightarrow> (string \<times> string) list \<Rightarrow> string \<Rightarrow> unit res" where
  "binds_members document [] msg = Inr ()"
| "binds_members document ((key, expected) # rest) msg =
    bindE (string_at document key) (\<lambda>found. if found \<noteq> expected then throwE msg else binds_members document rest msg)"

definition binding_members :: "transaction_spec \<Rightarrow> (string \<times> string) list" where
  "binding_members spec = [(''schema'', ''usk.transaction_journal.v1''), (''transaction_id'', ts_transaction_id spec),
     (''plan_id'', ts_plan_id spec), (''plan_digest'', ts_plan_digest spec), (''operation'', ts_operation spec)]"

fun read_roots :: "(string \<times> string) list \<Rightarrow> jvalue list \<Rightarrow> (string \<times> string) list res" where
  "read_roots journal_roots [] = Inr journal_roots"
| "read_roots journal_roots (root # rest) =
    bindE (string_at root ''role'') (\<lambda>role.
    bindE (string_at root ''root'') (\<lambda>text.
    case obj_emplace role text journal_roots of (journal_roots', inserted) \<Rightarrow>
      if \<not> inserted then throwE ''transaction journal contains duplicate root authority''
      else read_roots journal_roots' rest))"

definition root_text :: "(string \<times> string) list \<Rightarrow> string \<Rightarrow> string" where
  "root_text journal_roots role = (case map_of journal_roots role of None \<Rightarrow> [] | Some text \<Rightarrow> text)"

definition check_roots :: "transaction_spec \<Rightarrow> path \<Rightarrow> jvalue \<Rightarrow> string \<Rightarrow> unit res" where
  "check_roots spec staging document msg =
    bindE (bindE (jat document ''roots'') as_array) (\<lambda>roots.
    bindE (read_roots [] roots) (\<lambda>journal_roots.
    requireE (length journal_roots = 4 \<and> root_text journal_roots ''target'' = path_string (ts_target_root spec) \<and>
      root_text journal_roots ''staging'' = path_string staging \<and>
      root_text journal_roots ''setup_state'' = path_string (ts_state_root spec) \<and>
      root_text journal_roots ''audit'' = path_string (ts_audit_root spec)) msg))"

definition from_member :: "jvalue \<Rightarrow> string res" where
  "from_member item = bindE (jat item ''from'') (\<lambda>v. if v \<noteq> JNull then string_at item ''from'' else Inr [])"

fun decode_transitions :: "string \<Rightarrow> string \<Rightarrow> 64 word \<Rightarrow> jvalue list \<Rightarrow> transition list res" where
  "decode_transitions transaction_id prior sequence [] = Inr []"
| "decode_transitions transaction_id prior sequence (item # rest) =
    bindE (from_member item) (\<lambda>from_state.
    bindE (string_at item ''to'') (\<lambda>to_state.
    bindE (bindE (jat item ''sequence'') as_unsigned) (\<lambda>number.
    if number \<noteq> sequence \<or> from_state \<noteq> prior \<or> \<not> valid_transition from_state to_state
    then throwE ''transaction journal transition chain is invalid''
    else bindE (string_at item ''transition_id'') (\<lambda>name.
      if name \<noteq> transaction_id @ ''.'' @ dec (unat sequence)
      then throwE ''transaction journal transition chain is invalid''
      else bindE (bindE (jat item ''durable_before_external_visibility'') as_boolean) (\<lambda>durable.
        if \<not> durable then throwE ''transaction journal transition chain is invalid''
        else bindE (string_at item ''recorded_at'') (\<lambda>recorded_at.
          bindE (decode_transitions transaction_id to_state (sequence + 1) rest) (\<lambda>ts.
          Inr (\<lparr>tr_sequence = sequence, tr_from = from_state, tr_to = to_state, tr_recorded_at = recorded_at\<rparr> # ts))))))))"

definition last_state :: "transition list \<Rightarrow> string" where
  "last_state ts = (if ts = [] then [] else tr_to (last ts))"

text \<open>
  The counter of the source is a 64-bit integer; it is zero after a nonempty array only when the
  array has \<open>2 ^ 64\<close> elements. Each pass of \<^verbatim>\<open>any_of\<close> reads member \<^verbatim>\<open>to\<close> again, which the loop has read.
\<close>

definition decode_transaction_metadata :: "transaction_spec \<Rightarrow> string \<Rightarrow> transaction_journal_metadata res" where
  "decode_transaction_metadata spec text =
    bindE (parse text journal_limits) (\<lambda>document.
    bindE (binds_members document (binding_members spec)
      ''transaction journal does not bind the requested recovery inspection'') (\<lambda>_.
    bindE (check_roots spec (staging_root_of spec) document
      ''transaction journal root authority does not match recovery inspection'') (\<lambda>_.
    bindE (bindE (jat document ''transitions'') as_array) (\<lambda>items.
    bindE (decode_transitions (ts_transaction_id spec) [] 0 items) (\<lambda>ts.
    bindE (string_at document ''current_state'') (\<lambda>current_state.
    bindE (string_at document ''journal_digest'') (\<lambda>journal_digest.
    bindE (string_at document ''updated_at'') (\<lambda>recorded_at.
    if (of_nat (length items) :: 64 word) = 0 \<or> current_state \<noteq> last_state ts \<or> journal_digest \<noteq> sha256_hex (chain_text ts)
    then throwE ''transaction journal digest or current state is invalid''
    else bindE (validate_commit_requirement document (ts_required_commit_authority spec)) (\<lambda>_.
      bindE (retain_stream_cleanup document) (\<lambda>retained_stream.
      bindE (retain_commit_cleanup document) (\<lambda>retained_commit.
      bindE (read_stream_journal document safe_relative_path) (\<lambda>stream.
      Inr \<lparr>tm_inspection = \<lparr>ri_current_state = current_state, ri_journal_digest = journal_digest,
             ri_recorded_at = recorded_at, ri_snapshot_sha256 = sha256_hex text,
             ri_stream_source_digest = sj_source_digest stream, ri_stream_source_context = sj_source_context stream,
             ri_publication_root_identity = sj_publication_root_identity stream,
             ri_restart_origin_transaction_id = sj_origin_transaction_id stream,
             ri_restart_origin_snapshot_sha256 = sj_origin_snapshot_sha256 stream,
             ri_staging_exists = False, ri_target_exists = False,
             ri_commit_started = list_ex (\<lambda>t. tr_to t = ''committing'' \<or> tr_to t = ''committed'' \<or> tr_to t = ''completed'') ts,
             ri_commit_confirmed = list_ex (\<lambda>t. tr_to t = ''committed'' \<or> tr_to t = ''completed'') ts,
             ri_available_actions = []\<rparr>,
           tm_stream = stream, tm_retained_stream = retained_stream, tm_retained_commit = retained_commit\<rparr>))))))))))))"

definition absolute_normal :: "world \<Rightarrow> path \<Rightarrow> path res" where
  "absolute_normal w p =
    (if path_empty p then throwE ''transaction root cannot be resolved as an absolute path''
     else Inr (lexically_normal (absolute (w_cwd w) p)))"

definition normalized_inspection_spec :: "world \<Rightarrow> transaction_spec \<Rightarrow> transaction_spec res" where
  "normalized_inspection_spec w input =
    bindE (absolute_normal w (ts_staging_parent input)) (\<lambda>staging_parent.
    bindE (absolute_normal w (ts_target_root input)) (\<lambda>target_root.
    bindE (absolute_normal w (ts_state_root input)) (\<lambda>state_root.
    bindE (absolute_normal w (ts_audit_root input)) (\<lambda>audit_root.
    Inr (input\<lparr>ts_staging_parent := staging_parent, ts_target_root := target_root,
      ts_state_root := state_root, ts_audit_root := audit_root\<rparr>)))))"

definition decode_journal_history :: "world \<Rightarrow> transaction_spec \<Rightarrow> string \<Rightarrow> transaction_journal_history res" where
  "decode_journal_history w input text =
    bindE (normalized_inspection_spec w input) (\<lambda>spec.
    bindE (decode_transaction_metadata spec text) (\<lambda>metadata.
    let inspection = tm_inspection metadata in
    Inr \<lparr>th_current_state = ri_current_state inspection, th_journal_digest = ri_journal_digest inspection,
      th_recorded_at = ri_recorded_at inspection, th_snapshot_sha256 = ri_snapshot_sha256 inspection,
      th_stream = tm_stream metadata, th_commit_started = ri_commit_started inspection,
      th_commit_confirmed = ri_commit_confirmed inspection,
      th_retained_stream_cleanup = tm_retained_stream metadata,
      th_retained_commit_cleanup = tm_retained_commit metadata\<rparr>))"

definition decode_completed_history :: "world \<Rightarrow> transaction_spec \<Rightarrow> string \<Rightarrow> completed_transaction_history res" where
  "decode_completed_history w input text =
    bindE (normalized_inspection_spec w input) (\<lambda>spec.
    bindE (decode_transaction_metadata spec text) (\<lambda>metadata.
    let inspection = tm_inspection metadata in
    if ri_current_state inspection \<noteq> ''completed'' then throwE ''historical transaction journal is not completed''
    else Inr \<lparr>ch_journal_digest = ri_journal_digest inspection, ch_recorded_at = ri_recorded_at inspection,
      ch_snapshot_sha256 = ri_snapshot_sha256 inspection, ch_stream = tm_stream metadata\<rparr>))"

section \<open>Comparing two journals of a transaction\<close>

text \<open>The loop over the current transitions; it returns the chain text of the original ones.\<close>

fun compare_transitions :: "nat \<Rightarrow> jvalue list \<Rightarrow> jvalue list \<Rightarrow> string res" where
  "compare_transitions index original [] = Inr []"
| "compare_transitions index (item # original) (t # current) =
    (if canonical t \<noteq> canonical item then throwE ''maintenance original transaction transition was rewritten''
     else bindE (from_member item) (\<lambda>from_state.
       bindE (string_at item ''to'') (\<lambda>to_state.
       bindE (string_at item ''recorded_at'') (\<lambda>recorded_at.
       bindE (compare_transitions (Suc index) original current) (\<lambda>chain.
       Inr (chain_line (of_nat index) from_state to_state recorded_at @ chain))))))"
| "compare_transitions index [] (t # current) =
    bindE (string_at t ''to'') (\<lambda>state.
    if state \<noteq> ''recovery_required'' \<and> state \<noteq> ''committing'' \<and> state \<noteq> ''committed'' \<and> state \<noteq> ''completed''
    then throwE ''maintenance transaction extension is not finalization''
    else compare_transitions (Suc index) [] current)"

definition derived_recovery :: "string \<Rightarrow> string list \<Rightarrow> jvalue" where
  "derived_recovery state actions = object [(''required'', JBool (state = ''recovery_required'')),
     (''available_actions'', JArray (map JString actions))]"

definition check_derived_fields :: "jvalue \<Rightarrow> unit res" where
  "check_derived_fields document =
    bindE (string_at document ''current_state'') (\<lambda>state.
    bindE (bindE (jat document ''transitions'') as_array) (\<lambda>transitions.
    bindE (retain_stream_cleanup document) (\<lambda>retained_stream.
    bindE (if retained_stream then Inr True else retain_commit_cleanup document) (\<lambda>retained.
    bindE (string_at document ''updated_at'') (\<lambda>updated_at.
    bindE (string_at (last transitions) ''recorded_at'') (\<lambda>recorded_at.
    if updated_at \<noteq> recorded_at then throwE ''maintenance transaction extension changed derived recovery fields''
    else bindE (jat document ''recovery'') (\<lambda>recovery.
      requireE (canonical recovery = canonical (derived_recovery state (recorded_actions retained state)))
        ''maintenance transaction extension changed derived recovery fields'')))))))"

definition changing_keys :: "string list" where
  "changing_keys = [''transitions'', ''current_state'', ''journal_digest'', ''updated_at'', ''recovery'']"

definition immutable_part :: "jvalue \<Rightarrow> jvalue res" where
  "immutable_part document = bindE (as_object document) (\<lambda>members. Inr (JObject (fold obj_erase changing_keys members)))"

definition require_transition_extension_documents :: "string \<Rightarrow> string \<Rightarrow> unit res" where
  "require_transition_extension_documents original_text current_text =
    bindE (parse original_text journal_limits) (\<lambda>original.
    bindE (parse current_text journal_limits) (\<lambda>current.
    bindE (bindE (jat original ''transitions'') as_array) (\<lambda>prefix.
    bindE (bindE (jat current ''transitions'') as_array) (\<lambda>transitions.
    bindE (string_at original ''current_state'') (\<lambda>original_state.
    if prefix = [] \<or> length transitions < length prefix \<or>
       (original_state \<noteq> ''committing'' \<and> original_state \<noteq> ''committed'' \<and> original_state \<noteq> ''recovery_required'')
    then throwE ''maintenance original transition prefix is not a committed effect anchor''
    else bindE (string_at (last prefix) ''to'') (\<lambda>anchor.
      if anchor \<noteq> original_state then throwE ''maintenance original transition prefix is not a committed effect anchor''
      else bindE (compare_transitions 0 prefix transitions) (\<lambda>original_chain.
        bindE (string_at original ''journal_digest'') (\<lambda>digest.
        if sha256_hex original_chain \<noteq> digest then throwE ''maintenance original transaction chain digest changed''
        else bindE (check_derived_fields original) (\<lambda>_.
          bindE (check_derived_fields current) (\<lambda>_.
          bindE (immutable_part original) (\<lambda>original'.
          bindE (immutable_part current) (\<lambda>current'.
          requireE (canonical original' = canonical current')
            ''maintenance transaction extension changed immutable fields or its snapshot''))))))))))))"

definition require_completed_transition_extension_bytes ::
  "world \<Rightarrow> transaction_spec \<Rightarrow> string \<Rightarrow> string \<Rightarrow> string \<Rightarrow> string \<Rightarrow> unit res" where
  "require_completed_transition_extension_bytes w spec original_text original_snapshot current_text expected =
    (if length original_text > journal_bound \<or> length current_text > journal_bound \<or>
        \<not> tx_valid_sha256 original_snapshot \<or> \<not> tx_valid_sha256 expected \<or>
        sha256_hex original_text \<noteq> original_snapshot \<or> sha256_hex current_text \<noteq> expected
     then throwE ''completed transaction byte snapshots are unavailable''
     else bindE (decode_completed_history w spec current_text) (\<lambda>current.
       if ch_snapshot_sha256 current \<noteq> expected then throwE ''completed transaction byte identity differs''
       else require_transition_extension_documents original_text current_text))"

end
