(* ===== verification/Usk_Session_Files.thy ===== *)
theory Usk_Session_Files
  imports Usk_Transaction
begin

text \<open>
  The file operations of the transaction session (POSIX branches of
  \<^verbatim>\<open>runtime/setup/transaction/usk_transaction_session.cpp\<close>) and the observation of a commit closure
  (\<^verbatim>\<open>usk_commit_authority.cpp\<close>). Messages that end in the text of an \<^verbatim>\<open>errno\<close> value end before it, and
  the two outcomes of a failed \<^verbatim>\<open>renameat2\<close>, which only that value tells apart, are one. The hash of a
  stable file is taken over its bytes at once; the chunks of the source give the same digest.
\<close>

section \<open>Objects with methods\<close>

text \<open>
  A method works on its object and the world and leaves both as they are at the point of a
  throw. A fault injector is absent, or any action on the world that returns or throws.
\<close>

type_synonym ('o, 'a) obj = "('o \<times> world, 'a) st"
type_synonym injector = "(string \<Rightarrow> string \<Rightarrow> unit io) option"

definition onW :: "'a io \<Rightarrow> ('o, 'a) obj" where
  "onW m = (\<lambda>(s, w). case m w of (r, w') \<Rightarrow> (r, (s, w')))"

definition readW :: "('o \<Rightarrow> world \<Rightarrow> 'a res) \<Rightarrow> ('o, 'a) obj" where
  "readW f = (\<lambda>(s, w). (f s w, (s, w)))"

definition withS :: "('o \<Rightarrow> ('o, 'a) obj) \<Rightarrow> ('o, 'a) obj" where
  "withS f = (\<lambda>(s, w). f s (s, w))"

definition modS :: "('o \<Rightarrow> 'o) \<Rightarrow> ('o, unit) obj" where
  "modS f = (\<lambda>(s, w). (Inr (), (f s, w)))"

definition inject :: "injector \<Rightarrow> string \<Rightarrow> string \<Rightarrow> ('o, unit) obj" where
  "inject injector state point = (case injector of None \<Rightarrow> returnS () | Some f \<Rightarrow> onW (f state point))"

text \<open>\<^verbatim>\<open>try { m } catch (...) {}\<close>\<close>

definition ignoreS :: "('s, unit) st \<Rightarrow> ('s, unit) st" where
  "ignoreS m = catchS m (\<lambda>_. returnS ())"

text \<open>An object that exists only when the rest of its constructor returns.\<close>

definition constructed :: "('o, unit) obj \<Rightarrow> 'o \<Rightarrow> 'o io" where
  "constructed m s w = (case m (s, w) of (r, (s', w')) \<Rightarrow> (case r of Inl e \<Rightarrow> Inl e | Inr _ \<Rightarrow> Inr s', w'))"

section \<open>Directories\<close>

definition reparse_or_symlink :: "world \<Rightarrow> path \<Rightarrow> bool" where
  "reparse_or_symlink w p = (case lstat w p of None \<Rightarrow> True | Some (Link _) \<Rightarrow> True | Some _ \<Rightarrow> False)"

fun tx_safe_components :: "world \<Rightarrow> path \<Rightarrow> path \<Rightarrow> string list \<Rightarrow> unit res" where
  "tx_safe_components w p current [] = Inr ()"
| "tx_safe_components w p current (component # rest) =
    (let current' = path_append current (element_path component) in
     if reparse_or_symlink w current' \<or> \<not> is_directory w current'
     then throwE (''transaction root crosses a linked or non-directory component: '' @ path_string p)
     else tx_safe_components w p current' rest)"

definition tx_require_safe_directory :: "world \<Rightarrow> path \<Rightarrow> unit res" where
  "tx_require_safe_directory w p =
    (if \<not> is_directory w p \<or> reparse_or_symlink w p
     then throwE (''transaction root must be an existing non-linked directory: '' @ path_string p)
     else tx_safe_components w p (Path (is_absolute p) []) (elements p))"

definition tx_hex_id :: "64 word \<Rightarrow> string" where
  "tx_hex_id n = hex_pad 16 (unat n)"

definition directory_identity :: "world \<Rightarrow> path \<Rightarrow> string res" where
  "directory_identity w p =
    bindE (tx_require_safe_directory w p) (\<lambda>_.
    case lstat w p of
      Some (Dir ino) \<Rightarrow> Inr (tx_hex_id (w_dev w) @ '':'' @ tx_hex_id ino)
    | _ \<Rightarrow> throwE ''cannot inspect safe transaction directory identity'')"

definition volume_identity :: "world \<Rightarrow> path \<Rightarrow> string res" where
  "volume_identity w p = bindE (directory_identity w p) (\<lambda>identity. Inr (takeWhile (\<lambda>c. c \<noteq> CHR '':'') identity))"

definition observe_directory_identity :: "world \<Rightarrow> path \<Rightarrow> string res" where
  "observe_directory_identity w p = bindE (absolute_normal w p) (directory_identity w)"

function strip_slashes :: "string \<Rightarrow> string" where
  "strip_slashes text = (if length text > 1 \<and> last text = slash then strip_slashes (butlast text) else text)"
  by pat_completeness auto
termination by (relation "measure length") auto

declare strip_slashes.simps [simp del]

definition comparable_path :: "path \<Rightarrow> string" where
  "comparable_path p = strip_slashes (path_string p)"

definition path_contains :: "path \<Rightarrow> path \<Rightarrow> bool" where
  "path_contains parent child \<longleftrightarrow>
    (let parent_text = comparable_path parent; child_text = comparable_path child in
     child_text = parent_text \<or>
     (length child_text > length parent_text \<and> take (length parent_text + 1) child_text = parent_text @ [slash]))"

definition require_disjoint :: "path \<Rightarrow> path \<Rightarrow> unit res" where
  "require_disjoint left right =
    requireE (\<not> (path_contains left right \<or> path_contains right left))
      ''transaction state, audit, and target roots must be disjoint''"

section \<open>Durable writes\<close>

definition write_new_durable_file :: "path \<Rightarrow> string \<Rightarrow> unit io" where
  "write_new_durable_file p content w = (case resolve w False p of
     None \<Rightarrow> (throwE ''cannot exclusively create durable transaction file'', w)
   | Some q \<Rightarrow>
       if entry_at w q \<noteq> None \<or> \<not> is_dir_entry (entry_at w (butlast q)) \<or> w_refuses w Sys_create q
       then (throwE ''cannot exclusively create durable transaction file'', w)
       else (case write_loop (w_writes w q) content [] of (written, complete) \<Rightarrow>
         let w' = put_entry q (File (w_next_ino w) written 1 (w_now w)) (w\<lparr>w_next_ino := w_next_ino w + 1\<rparr>) in
         if \<not> complete then (throwE ''cannot write durable transaction file'', w')
         else if w_refuses w Sys_fsync q then (throwE ''cannot flush durable transaction file'', w')
         else (Inr (), w')))"

definition fsync_directory :: "path \<Rightarrow> unit io" where
  "fsync_directory p w = (case resolve w True p of
     Some q \<Rightarrow> (requireE (is_dir_entry (entry_at w q) \<and> \<not> w_refuses w Sys_fsync_dir q)
         ''cannot flush transaction journal directory'', w)
   | None \<Rightarrow> (throwE ''cannot flush transaction journal directory'', w))"

definition publish_journal :: "path \<Rightarrow> path \<Rightarrow> bool \<Rightarrow> unit io" where
  "publish_journal temporary journal first =
    bindS
      (if first then
         bindS (link_file temporary journal) (\<lambda>linked.
         if \<not> linked then throwS ''cannot no-clobber publish initial transaction journal''
         else bindS (unlink_file temporary) (\<lambda>unlinked.
           guardS unlinked ''cannot no-clobber publish initial transaction journal''))
       else
         bindS (liftS (\<lambda>w. case lstat w journal of
             Some (File _ _ links _) \<Rightarrow> requireE (links = 1) ''existing transaction journal identity is unsafe''
           | _ \<Rightarrow> throwE ''existing transaction journal identity is unsafe'')) (\<lambda>_.
         bindS (rename_file temporary journal) (\<lambda>renamed.
         guardS renamed ''cannot atomically replace transaction journal'')))
      (\<lambda>_. fsync_directory (parent_path journal))"

definition journal_temporary_path :: "path \<Rightarrow> 64 word \<Rightarrow> path" where
  "journal_temporary_path journal sequence =
    path_append (parent_path journal) (path_of (filename journal @ ''.tmp.'' @ dec (unat sequence)))"

definition atomic_write_journal :: "path \<Rightarrow> string \<Rightarrow> 64 word \<Rightarrow> bool \<Rightarrow> unit io" where
  "atomic_write_journal journal content sequence first =
    (let temporary = journal_temporary_path journal sequence in
     bindS (write_new_durable_file temporary content) (\<lambda>_.
     catchS (publish_journal temporary journal first)
       (\<lambda>e. bindS (remove_path temporary) (\<lambda>_. rethrowS e))))"

definition rename_directory_no_replace :: "path \<Rightarrow> path \<Rightarrow> unit io" where
  "rename_directory_no_replace source target w = (case (resolve w False source, resolve w False target) of
     (Some s, Some t) \<Rightarrow>
       if s = [] \<or> entry_at w s = None \<or> entry_at w t \<noteq> None \<or> \<not> is_dir_entry (entry_at w (butlast t)) \<or>
          Sublist.prefix s t \<or> w_refuses w Sys_rename s
       then (throwE ''same-volume renameat2 no-replace commit failed: '', w)
       else (Inr (), move_entries s t w)
   | _ \<Rightarrow> (throwE ''same-volume renameat2 no-replace commit failed: '', w))"

definition read_bounded_text :: "world \<Rightarrow> path \<Rightarrow> nat \<Rightarrow> string res" where
  "read_bounded_text w p limit = read_stable_text w p limit"

section \<open>Observing a closure\<close>

definition stable_identity :: "world \<Rightarrow> path \<Rightarrow> stable_file_identity res" where
  "stable_identity w p =
    (if path_empty p then throwE ''local archive path cannot be resolved'' else stable_open (quiet_reading w p))"

definition stable_sha256_hex :: "world \<Rightarrow> path \<Rightarrow> stable_file_identity \<Rightarrow> string res" where
  "stable_sha256_hex w p identity =
    bindE (read_exact (rd_portions (quiet_reading w p)) (unat (si_size_bytes identity))) (\<lambda>bytes. Inr (sha256_hex bytes))"

record commit_closure_file =
  cf_relative_path :: path
  cf_sha256 :: string
  cf_size_bytes :: "64 word"
  cf_stream_output_identity :: string

definition maximum_commit_closure_entries :: nat where "maximum_commit_closure_entries = 200000"

definition maximum_commit_closure_depth :: nat where "maximum_commit_closure_depth = 128"

fun closure_depth :: "nat \<Rightarrow> string list \<Rightarrow> unit res" where
  "closure_depth depth [] = Inr ()"
| "closure_depth depth (component # rest) =
    (if component = ''.'' \<or> component = ''..'' \<or> depth + 1 > maximum_commit_closure_depth
     then throwE ''commit closure path depth or traversal refused'' else closure_depth (depth + 1) rest)"

text \<open>The parents of a relative path, the nearest first, until the empty path.\<close>

function closure_parents :: "nat \<Rightarrow> string list \<Rightarrow> string list \<Rightarrow> string list res" where
  "closure_parents files directories parent =
    (if parent = [] then Inr directories
     else let directories' = List.insert (path_string (Path False parent)) directories in
       if files + length directories' > maximum_commit_closure_entries then throwE ''commit closure entry budget exceeded''
       else closure_parents files directories' (butlast parent))"
  by pat_completeness auto
termination by (relation "measure (\<lambda>(_, _, parent). length parent)") auto

declare closure_parents.simps [simp del]

fun closure_expected ::
  "string list \<Rightarrow> string list \<Rightarrow> commit_closure_file list \<Rightarrow> (string list \<times> string list) res" where
  "closure_expected expected_files expected_directories [] = Inr (expected_files, expected_directories)"
| "closure_expected expected_files expected_directories (file # rest) =
    (let relative = path_string (cf_relative_path file); expected_files' = relative # expected_files in
     if path_empty (cf_relative_path file) \<or> is_absolute (cf_relative_path file) \<or> relative \<in> set expected_files
     then throwE ''invalid commit closure path''
     else if length expected_files' + length expected_directories > maximum_commit_closure_entries
     then throwE ''commit closure entry budget exceeded''
     else bindE (closure_depth 0 (elements (cf_relative_path file))) (\<lambda>_.
       bindE (closure_parents (length expected_files') expected_directories (butlast (elements (cf_relative_path file))))
         (\<lambda>expected_directories'. closure_expected expected_files' expected_directories' rest)))"

text \<open>The names that \<^verbatim>\<open>directory_iterator\<close> yields.\<close>

definition iterate_directory :: "world \<Rightarrow> path \<Rightarrow> string list res" where
  "iterate_directory w p = (case resolve w True p of
     Some q \<Rightarrow> if is_dir_entry (entry_at w q) then Inr (list_directory w q)
       else throwE ''filesystem error: directory iterator cannot open directory: Not a directory''
   | None \<Rightarrow> throwE ''filesystem error: directory iterator cannot open directory: No such file or directory'')"

type_synonym closure_scan_state = "path list \<times> nat \<times> commit_closure_observation"

fun closure_entries ::
  "world \<Rightarrow> path \<Rightarrow> string list \<Rightarrow> string list \<Rightarrow> path \<Rightarrow> string list \<Rightarrow> closure_scan_state \<Rightarrow> closure_scan_state res" where
  "closure_entries w root expected_files expected_directories directory [] state = Inr state"
| "closure_entries w root expected_files expected_directories directory (name # names) (pending, observed, result) =
    (let entry = path_append directory (element_path name); relative = path_string (lexically_relative entry root) in
     if observed + 1 > maximum_commit_closure_entries then throwE ''commit closure observation budget exceeded''
     else (case lstat w entry of
         Some (Dir _) \<Rightarrow>
           if relative \<notin> set expected_directories then throwE ''commit refuses an unrecorded directory''
           else bindE (observe_directory_identity w entry) (\<lambda>identity.
             closure_entries w root expected_files expected_directories directory names
               (pending @ [entry], observed + 1, fst (obj_emplace (''D:'' @ relative) identity result)))
       | Some (File _ _ _ _) \<Rightarrow>
           if relative \<notin> set expected_files then throwE ''commit refuses linked, unsupported, or unrecorded content''
           else closure_entries w root expected_files expected_directories directory names (pending, observed + 1, result)
       | _ \<Rightarrow> throwE ''commit refuses linked, unsupported, or unrecorded content''))"

text \<open>
  Every entry costs one unit of the budget and adds at most one directory to the stack, so the
  budget left and the stack together shrink with every directory taken off: the scan ends.
\<close>

lemma closure_entries_measure:
  assumes "closure_entries w root expected_files expected_directories directory names (pending, observed, result) =
    Inr (pending', observed', result')"
  shows "(maximum_commit_closure_entries - observed') + length pending' \<le>
    (maximum_commit_closure_entries - observed) + length pending"
  using assms
proof (induction names arbitrary: pending observed result)
  case (Cons name names)
  let ?entry = "path_append directory (element_path name)"
  show ?case
  proof (cases "lstat w ?entry")
    case None
    with Cons.prems show ?thesis by (auto simp: Let_def split: if_splits)
  next
    case (Some e)
    show ?thesis
    proof (cases e)
      case (Dir ino)
      with Some Cons.prems obtain identity where "observed + 1 \<le> maximum_commit_closure_entries"
        "closure_entries w root expected_files expected_directories directory names
          (pending @ [?entry], observed + 1,
           fst (obj_emplace (''D:'' @ path_string (lexically_relative ?entry root)) identity result)) = Inr (pending', observed', result')"
        by (auto simp: Let_def bindE_eq_Inr split: if_splits)
      with Cons.IH show ?thesis by fastforce
    next
      case (File ino content links mtime)
      with Some Cons.prems have "observed + 1 \<le> maximum_commit_closure_entries"
        "closure_entries w root expected_files expected_directories directory names (pending, observed + 1, result) =
          Inr (pending', observed', result')"
        by (auto simp: Let_def split: if_splits)
      with Cons.IH show ?thesis by fastforce
    next
      case (Link t)
      with Some Cons.prems show ?thesis by (auto simp: Let_def split: if_splits)
    qed
  qed
qed simp

function closure_scan ::
  "world \<Rightarrow> path \<Rightarrow> string list \<Rightarrow> string list \<Rightarrow> closure_scan_state \<Rightarrow> (nat \<times> commit_closure_observation) res" where
  "closure_scan w root expected_files expected_directories (pending, observed, result) =
    (if pending = [] then Inr (observed, result)
     else bindE (iterate_directory w (last pending)) (\<lambda>names.
       bindE (closure_entries w root expected_files expected_directories (last pending) names (butlast pending, observed, result))
         (\<lambda>state. closure_scan w root expected_files expected_directories state)))"
  by pat_completeness auto
termination
proof (relation "measure (\<lambda>(w, root, fs, ds, pending, observed, result). (maximum_commit_closure_entries - observed) + length pending)")
  fix w root expected_files expected_directories pending observed result names state
  assume nonempty: "pending \<noteq> []"
    and entries: "closure_entries w root expected_files expected_directories (last pending) names (butlast pending, observed, result) = Inr state"
  obtain pending' observed' result' where "state = (pending', observed', result')" by (cases state)
  with closure_entries_measure [of w root expected_files expected_directories "last pending" names "butlast pending"] entries nonempty
  show "((w, root, expected_files, expected_directories, state), w, root, expected_files, expected_directories, pending, observed, result) \<in>
      measure (\<lambda>(w, root, fs, ds, pending, observed, result). (maximum_commit_closure_entries - observed) + length pending)"
    by (cases pending rule: rev_cases) fastforce+
qed simp

declare closure_scan.simps [simp del]

fun closure_files :: "world \<Rightarrow> path \<Rightarrow> commit_closure_file list \<Rightarrow> commit_closure_observation \<Rightarrow> commit_closure_observation res" where
  "closure_files w root [] result = Inr result"
| "closure_files w root (expected # rest) result =
    (let file = path_append root (cf_relative_path expected) in
     bindE (stable_identity w file) (\<lambda>actual.
     let identity = si_volume_id actual @ '':'' @ si_file_id actual in
     if (cf_stream_output_identity expected \<noteq> [] \<and> identity \<noteq> cf_stream_output_identity expected) \<or>
        si_size_bytes actual \<noteq> cf_size_bytes expected
     then throwE ''commit preparation refuses changed staged child identity or bytes''
     else bindE (stable_sha256_hex w file actual) (\<lambda>sha256.
       if sha256 \<noteq> cf_sha256 expected then throwE ''commit preparation refuses changed staged child identity or bytes''
       else bindE (verify_unchanged (quiet_reading w file) actual) (\<lambda>_.
         closure_files w root rest
           (fst (obj_emplace (''F:'' @ path_string (cf_relative_path expected)) identity result))))))"

definition observe_commit_closure :: "world \<Rightarrow> path \<Rightarrow> commit_closure_file list \<Rightarrow> commit_closure_observation res" where
  "observe_commit_closure w root files =
    (if length files > maximum_commit_closure_entries then throwE ''commit closure entry budget exceeded''
     else bindE (closure_expected [] [] files) (\<lambda>(expected_files, expected_directories).
       bindE (observe_directory_identity w root) (\<lambda>identity.
       bindE (closure_scan w root expected_files expected_directories ([root], 0, [(''D:'', identity)])) (\<lambda>(observed, result).
       if observed \<noteq> length expected_files + length expected_directories
       then throwE ''commit closure has missing or duplicate paths''
       else closure_files w root files result))))"

end
