(* ===== verification/Usk_Session.thy ===== *)
theory Usk_Session
  imports Usk_Session_Files
begin

text \<open>
  The operations of a transaction session, the class \<^verbatim>\<open>TransactionSession\<close> of
  \<^verbatim>\<open>runtime/setup/transaction/usk_transaction_session.cpp\<close> (POSIX branches). An operation works on the
  session object and the world and leaves both as they are at the point of a throw. The fault
  injector is an argument: absent, or any action on the world that returns or throws.
\<close>

section \<open>Session actions\<close>

type_synonym 'a tx = "(transaction_session, 'a) obj"

section \<open>Persisting the journal\<close>

definition persist_journal :: "64 word \<Rightarrow> bool \<Rightarrow> unit tx" where
  "persist_journal sequence first =
    bindS (readW (\<lambda>s w. render_journal s)) (\<lambda>text.
    withS (\<lambda>s. onW (atomic_write_journal (ss_journal_path s) text sequence first)))"

definition require_journal_directory :: "transaction_session \<Rightarrow> world \<Rightarrow> unit res" where
  "require_journal_directory s w =
    bindE (directory_identity w (parent_path (ss_journal_path s))) (\<lambda>identity.
    requireE (identity = ss_journal_directory_identity s) ''transaction journal directory identity changed'')"

definition push_transition :: "string \<Rightarrow> string \<Rightarrow> transaction_session \<Rightarrow> transaction_session" where
  "push_transition next_state recorded_at s = s\<lparr>ss_transitions := ss_transitions s @
       [\<lparr>tr_sequence = of_nat (length (ss_transitions s)), tr_from = ss_current_state s, tr_to = next_state,
         tr_recorded_at = recorded_at\<rparr>],
     ss_current_state := next_state\<rparr>"

definition persist_transition :: "injector \<Rightarrow> string \<Rightarrow> unit tx" where
  "persist_transition injector next_state = withS (\<lambda>before.
    if \<not> valid_transition (ss_current_state before) next_state
    then rethrowS (Logic_error ''invalid setup transaction state transition'')
    else
      bindS (inject injector next_state ''before_journal'') (\<lambda>_.
      bindS (onW iso8601_now) (\<lambda>recorded_at.
      bindS (modS (push_transition next_state recorded_at)) (\<lambda>_.
      bindS (catchS
        (withS (\<lambda>s. let first = (length (ss_transitions s) = 1) in
           bindS (if first then returnS () else readW require_journal_directory) (\<lambda>_.
           persist_journal (tr_sequence (last (ss_transitions s))) first)))
        (\<lambda>e. bindS (modS (\<lambda>s. s\<lparr>ss_current_state := ss_current_state before,
             ss_transitions := butlast (ss_transitions s)\<rparr>)) (\<lambda>_. rethrowS e))) (\<lambda>_.
      inject injector next_state ''after_journal'')))))"

definition persist_snapshot :: "unit tx" where
  "persist_snapshot = withS (\<lambda>s.
    bindS (readW (\<lambda>s w. if ss_transitions s = [] then throwE ''transaction journal directory identity changed''
        else require_journal_directory s w)) (\<lambda>_.
    persist_journal (tr_sequence (last (ss_transitions s)) + 1) False))"

section \<open>The staging directory\<close>

definition verify_staging_identity :: "transaction_session \<Rightarrow> world \<Rightarrow> unit res" where
  "verify_staging_identity s w =
    (if ss_staging_identity s = [] then throwE ''setup-owned staging root identity changed''
     else bindE (directory_identity w (ss_staging_root s)) (\<lambda>identity.
       if identity \<noteq> ss_staging_identity s then throwE ''setup-owned staging root identity changed''
       else bindE (directory_identity w (ts_staging_parent (ss_spec s))) (\<lambda>parent.
         requireE (parent = ss_staging_parent_identity s) ''setup-owned staging root identity changed'')))"

definition create_staging_root :: "injector \<Rightarrow> unit tx" where
  "create_staging_root injector = withS (\<lambda>s.
    bindS (readW (\<lambda>s w. bindE (directory_identity w (ts_staging_parent (ss_spec s))) (\<lambda>parent.
      requireE (parent = ss_staging_parent_identity s \<and> \<not> path_exists w (ss_staging_root s))
        ''staging parent changed or staging root now exists''))) (\<lambda>_.
    bindS (onW (make_directory (ss_staging_root s))) (\<lambda>created.
    bindS (guardS created ''cannot exclusively create setup-owned staging root'') (\<lambda>_.
    bindS (readW (\<lambda>s w. directory_identity w (ss_staging_root s))) (\<lambda>identity.
    bindS (modS (\<lambda>s. s\<lparr>ss_staging_identity := identity,
        ss_stream_journal := (if sj_present (ss_stream_journal s)
          then (ss_stream_journal s)\<lparr>sj_publication_root_identity := identity\<rparr> else ss_stream_journal s)\<rparr>)) (\<lambda>_.
    bindS persist_snapshot (\<lambda>_.
    inject injector (ss_current_state s) ''after_staging_create'')))))))"

text \<open>The directories between a staged file and the staging root, the nearest first.\<close>

definition parents_below :: "path \<Rightarrow> path \<Rightarrow> path list" where
  "parents_below root relative =
    map (\<lambda>k. path_append root (Path False (take k (elements relative)))) (rev [1..<length (elements relative)])"

definition check_staged_file :: "world \<Rightarrow> path \<Rightarrow> staged_file \<Rightarrow> unit res" where
  "check_staged_file w file recorded =
    bindE (stable_identity w file) (\<lambda>actual.
    if si_size_bytes actual \<noteq> sf_size_bytes recorded then throwE ''rollback refuses changed setup-owned staging content''
    else bindE (stable_sha256_hex w file actual) (\<lambda>sha256.
      if sha256 \<noteq> sf_sha256 recorded then throwE ''rollback refuses changed setup-owned staging content''
      else verify_unchanged (quiet_reading w file) actual))"

fun check_staged_files :: "world \<Rightarrow> path \<Rightarrow> staged_file list \<Rightarrow> unit res" where
  "check_staged_files w root [] = Inr ()"
| "check_staged_files w root (recorded # rest) =
    bindE (check_staged_file w (path_append root (sf_relative_path recorded)) recorded) (\<lambda>_. check_staged_files w root rest)"

text \<open>The entries below a directory as \<^verbatim>\<open>recursive_directory_iterator\<close> reports them, in the order of the tree.\<close>

definition entries_below :: "world \<Rightarrow> path \<Rightarrow> (path \<times> entry) list" where
  "entries_below w root = (case resolve w True root of
     None \<Rightarrow> []
   | Some q \<Rightarrow> map (\<lambda>(p, e). (path_append root (Path False (drop (length q) p)), e))
       (filter (\<lambda>(p, e). strict_prefix q p) (w_tree w)))"

fun check_foreign :: "string list \<Rightarrow> string list \<Rightarrow> (path \<times> entry) list \<Rightarrow> unit res" where
  "check_foreign expected_files expected_directories [] = Inr ()"
| "check_foreign expected_files expected_directories ((p, e) # rest) =
    (case e of
       Link _ \<Rightarrow> throwE ''rollback retains linked staging content''
     | Dir _ \<Rightarrow>
         if comparable_path p \<notin> set expected_directories then throwE ''rollback retains a foreign staging directory''
         else check_foreign expected_files expected_directories rest
     | File _ _ _ _ \<Rightarrow>
         if comparable_path p \<notin> set expected_files then throwE ''rollback retains foreign staging content''
         else check_foreign expected_files expected_directories rest)"

definition verify_recorded_staging_closure :: "transaction_session \<Rightarrow> world \<Rightarrow> unit res" where
  "verify_recorded_staging_closure s w =
    (let root = ss_staging_root s in
     bindE (verify_staging_identity s w) (\<lambda>_.
     bindE (check_staged_files w root (ss_staged_files s)) (\<lambda>_.
     check_foreign
       (map (\<lambda>f. comparable_path (path_append root (sf_relative_path f))) (ss_staged_files s))
       (concat (map (\<lambda>f. map comparable_path (parents_below root (sf_relative_path f))) (ss_staged_files s)))
       (entries_below w root))))"

fun remove_staged_files :: "path \<Rightarrow> staged_file list \<Rightarrow> unit io" where
  "remove_staged_files root [] = returnS ()"
| "remove_staged_files root (recorded # rest) =
    (let file = path_append root (sf_relative_path recorded) in
     bindS (liftS (\<lambda>w. check_staged_file w file recorded)) (\<lambda>_.
     bindS (remove_path file) (\<lambda>removed.
     bindS (guardS removed ''rollback cannot remove a recorded staged file'') (\<lambda>_.
     remove_staged_files root rest))))"

fun remove_directories :: "path list \<Rightarrow> unit io" where
  "remove_directories [] = returnS ()"
| "remove_directories (directory # rest) =
    bindS (liftS (\<lambda>w. tx_require_safe_directory w directory)) (\<lambda>_.
    bindS (remove_path directory) (\<lambda>removed.
    bindS (guardS removed ''rollback retains a staging directory containing foreign content'') (\<lambda>_.
    remove_directories rest)))"

text \<open>Longer paths first, equal lengths in the order of their text, without duplicates.\<close>

definition directory_order :: "path list \<Rightarrow> path list" where
  "directory_order ds = remdups_adj (sort_key (\<lambda>p. - int (length (path_string p))) (sort_key path_string ds))"

definition remove_recorded_staging_closure :: "unit tx" where
  "remove_recorded_staging_closure = withS (\<lambda>s.
    bindS (guardS (\<not> (ss_retain_stream_cleanup s \<or> ss_retain_commit_cleanup s))
      ''streamed staging is retained; automatic rollback has no deletion authority'') (\<lambda>_.
    bindS (readW verify_recorded_staging_closure) (\<lambda>_.
    bindS (onW (remove_staged_files (ss_staging_root s) (ss_staged_files s))) (\<lambda>_.
    bindS (onW (remove_directories (directory_order
      (concat (map (\<lambda>f. parents_below (ss_staging_root s) (sf_relative_path f)) (ss_staged_files s)))))) (\<lambda>_.
    bindS (readW verify_staging_identity) (\<lambda>_.
    bindS (onW (remove_path (ss_staging_root s))) (\<lambda>removed.
    guardS removed ''rollback retains a staging root containing foreign content'')))))))"

section \<open>Staging files\<close>

definition duplicated :: "transaction_session \<Rightarrow> path \<Rightarrow> bool" where
  "duplicated s relative = list_ex (\<lambda>file. map tolower (path_string (sf_relative_path file)) = map tolower (path_string relative))
     (ss_staged_files s)"

fun create_parents :: "string \<Rightarrow> path \<Rightarrow> string list \<Rightarrow> unit io" where
  "create_parents msg current [] = returnS ()"
| "create_parents msg current (component # rest) =
    (let current' = path_append current (element_path component) in
     bindS (\<lambda>w. if path_exists w current' then (Inr (), w)
       else bindS (make_directory current') (\<lambda>created. guardS created msg) w) (\<lambda>_.
     bindS (liftS (\<lambda>w. tx_require_safe_directory w current')) (\<lambda>_.
     create_parents msg current' rest)))"

definition stage_file :: "injector \<Rightarrow> path \<Rightarrow> string \<Rightarrow> unit tx" where
  "stage_file injector relative bytes = withS (\<lambda>s.
    bindS (guardS (ss_current_state s = ''staging'' \<and> safe_relative_path relative)
      ''staged file path or transaction state is invalid'') (\<lambda>_.
    bindS (guardS (\<not> duplicated s relative) ''staged file path is duplicated'') (\<lambda>_.
    bindS (readW verify_staging_identity) (\<lambda>_.
    bindS (onW (create_parents ''cannot create owned staging directory'' (ss_staging_root s) (butlast (elements relative)))) (\<lambda>_.
    bindS (inject injector (ss_current_state s) ''before_stage_file'') (\<lambda>_.
    bindS (onW (write_new_durable_file (path_append (ss_staging_root s) relative) bytes)) (\<lambda>_.
    bindS (modS (\<lambda>s. s\<lparr>ss_staged_files := ss_staged_files s @
        [\<lparr>sf_relative_path = relative, sf_sha256 = sha256_bytes bytes, sf_size_bytes = of_nat (length bytes)\<rparr>]\<rparr>)) (\<lambda>_.
    bindS persist_snapshot (\<lambda>_.
    inject injector (ss_current_state s) ''after_stage_file'')))))))))"

text \<open>
  A stream reader is the sequence of its replies; after the last one it delivers nothing. An open
  output file is known by its inode: writes and \<^verbatim>\<open>fstat\<close> reach it under whatever name it has.
\<close>

datatype read_reply = Delivered string | Reader_failed string

record stream_stage_result =
  st_sha256 :: string
  st_size_bytes :: "64 word"
  st_peak_buffer_bytes :: nat

definition append_to_inode :: "64 word \<Rightarrow> string \<Rightarrow> world \<Rightarrow> world" where
  "append_to_inode ino chunk w = w\<lparr>w_tree := map (\<lambda>(q, e). (q, case e of
     File i content links mtime \<Rightarrow> if i = ino then File i (content @ chunk) links mtime else e | _ \<Rightarrow> e)) (w_tree w)\<rparr>"

definition fstat_inode :: "world \<Rightarrow> 64 word \<Rightarrow> entry option" where
  "fstat_inode w ino = List.find (\<lambda>e. case e of File i _ _ _ \<Rightarrow> i = ino | _ \<Rightarrow> False) (map snd (w_tree w))"

definition open_stream_output :: "path \<Rightarrow> (64 word \<times> reply list \<times> bool) io" where
  "open_stream_output p w = (case resolve w False p of
     None \<Rightarrow> (throwE ''cannot exclusively create streamed transaction file'', w)
   | Some q \<Rightarrow>
       if entry_at w q \<noteq> None \<or> \<not> is_dir_entry (entry_at w (butlast q)) \<or> w_refuses w Sys_create q
       then (throwE ''cannot exclusively create streamed transaction file'', w)
       else (Inr (w_next_ino w, w_writes w q, \<not> w_refuses w Sys_fsync q \<and> \<not> w_refuses w Sys_close q),
         put_entry q (File (w_next_ino w) [] 1 (w_now w)) (w\<lparr>w_next_ino := w_next_ino w + 1\<rparr>)))"

fun stream_write :: "injector \<Rightarrow> string \<Rightarrow> 64 word \<Rightarrow> reply list \<Rightarrow> string \<Rightarrow> reply list tx" where
  "stream_write injector state ino replies [] = returnS replies"
| "stream_write injector state ino [] data =
    bindS (inject injector state ''before_stream_write'') (\<lambda>_. throwS ''cannot write streamed transaction file'')"
| "stream_write injector state ino (Interrupted # replies) data =
    bindS (inject injector state ''before_stream_write'') (\<lambda>_. stream_write injector state ino replies data)"
| "stream_write injector state ino (Wrote n # replies) data =
    bindS (inject injector state ''before_stream_write'') (\<lambda>_.
    if n = 0 then throwS ''cannot write streamed transaction file''
    else bindS (onW (\<lambda>w. (Inr (), append_to_inode ino (take n data) w))) (\<lambda>_.
      bindS (inject injector state ''after_stream_write'') (\<lambda>_.
      stream_write injector state ino replies (drop n data))))"

text \<open>
  One pass of the reading loop per reply: \<open>batch\<close> is the part of the buffer that is filled, \<open>hashed\<close>
  what earlier cycles wrote. A cycle ends as the source ends it, and the batch is written.
\<close>

primrec stream_copy :: "injector \<Rightarrow> string \<Rightarrow> 64 word \<Rightarrow> nat \<Rightarrow> nat \<Rightarrow> nat \<Rightarrow> bool \<Rightarrow> read_reply list \<Rightarrow> reply list \<Rightarrow>
    string \<Rightarrow> string \<Rightarrow> (string \<times> read_reply list) tx" where
  "stream_copy injector state ino expected buffer_bytes buffer_size batching [] writes batch hashed =
    bindS (inject injector state ''before_stream_read'') (\<lambda>_.
    throwS ''streamed source returned a short or oversized read'')"
| "stream_copy injector state ino expected buffer_bytes buffer_size batching (reply # replies) writes batch hashed =
    bindS (inject injector state ''before_stream_read'') (\<lambda>_.
    case reply of
      Reader_failed msg \<Rightarrow> throwS msg
    | Delivered chunk \<Rightarrow>
        let total = length hashed; count = length batch;
            capacity = min (min buffer_bytes (buffer_size - count)) (expected - total - count) in
        if chunk = [] \<or> length chunk > capacity then throwS ''streamed source returned a short or oversized read''
        else bindS (inject injector state ''after_stream_read'') (\<lambda>_.
          let batch' = batch @ chunk in
          if batching \<and> length batch' < buffer_size \<and> total + length batch' < expected
          then stream_copy injector state ino expected buffer_bytes buffer_size batching replies writes batch' hashed
          else bindS (stream_write injector state ino writes batch') (\<lambda>writes'.
            let hashed' = hashed @ batch' in
            if length hashed' < expected
            then stream_copy injector state ino expected buffer_bytes buffer_size batching replies writes' [] hashed'
            else returnS (hashed', replies))))"

definition update_last_entry :: "(stream_entry_observation \<Rightarrow> stream_entry_observation) \<Rightarrow> transaction_session \<Rightarrow> transaction_session" where
  "update_last_entry f s = (let j = ss_stream_journal s in
     s\<lparr>ss_stream_journal := j\<lparr>sj_entries := butlast (sj_entries j) @ [f (last (sj_entries j))]\<rparr>\<rparr>)"

definition probe_end :: "read_reply list \<Rightarrow> unit res" where
  "probe_end replies = (case replies of
     [] \<Rightarrow> Inr ()
   | Delivered chunk # _ \<Rightarrow> requireE (chunk = []) ''streamed source exceeded its reviewed size''
   | Reader_failed msg # _ \<Rightarrow> throwE msg)"

text \<open>What happens under the \<^verbatim>\<open>try\<close> of \<^verbatim>\<open>stage_file_stream\<close>.\<close>

definition stream_output :: "injector \<Rightarrow> path \<Rightarrow> 64 word \<Rightarrow> string \<Rightarrow> nat \<Rightarrow> read_reply list \<Rightarrow> nat \<Rightarrow> stream_stage_result tx" where
  "stream_output injector relative expected_size expected_sha256 buffer_bytes reader write_buffer_bytes = withS (\<lambda>s.
    let state = ss_current_state s; buffer_size = (if write_buffer_bytes \<noteq> 0 then write_buffer_bytes else buffer_bytes);
        expected = unat expected_size in
    bindS (inject injector state ''before_stage_stream'') (\<lambda>_.
    bindS (onW (open_stream_output (path_append (ss_staging_root s) relative))) (\<lambda>(ino, writes, flushes).
    bindS (readW (\<lambda>s w. stream_output_identity (w_dev w) (fstat_inode w ino))) (\<lambda>identity.
    bindS (modS (update_last_entry (\<lambda>e. e\<lparr>so_output_identity := identity, so_phase := ''writing''\<rparr>))) (\<lambda>_.
    bindS persist_snapshot (\<lambda>_.
    bindS (inject injector state ''after_stream_open'') (\<lambda>_.
    bindS (if 0 < expected
      then stream_copy injector state ino expected buffer_bytes buffer_size (write_buffer_bytes \<noteq> 0) reader writes [] []
      else returnS ([], reader)) (\<lambda>(content, replies).
    bindS (readW (\<lambda>s w. probe_end replies)) (\<lambda>_.
    bindS (inject injector state ''before_stream_finalize'') (\<lambda>_.
    bindS (readW (\<lambda>s w. bindE (stream_output_identity (w_dev w) (fstat_inode w ino)) (\<lambda>now.
      requireE (now = identity) ''stream output descriptor identity changed''))) (\<lambda>_.
    bindS (guardS flushes ''cannot flush streamed transaction file'') (\<lambda>_.
    bindS (guardS (length content = expected \<and> sha256_hex content = expected_sha256)
      ''streamed staged file integrity changed'') (\<lambda>_.
    bindS (modS (\<lambda>s. (update_last_entry (\<lambda>e. e\<lparr>so_phase := ''complete''\<rparr>) s)\<lparr>ss_staged_files := ss_staged_files s @
        [\<lparr>sf_relative_path = relative, sf_sha256 = sha256_hex content, sf_size_bytes = of_nat (length content)\<rparr>]\<rparr>)) (\<lambda>_.
    bindS persist_snapshot (\<lambda>_.
    bindS (inject injector state ''after_stage_stream'') (\<lambda>_.
    returnS \<lparr>st_sha256 = sha256_hex content, st_size_bytes = of_nat (length content),
      st_peak_buffer_bytes = buffer_size\<rparr>))))))))))))))))"

definition four_mebibytes :: nat where "four_mebibytes = 4 * 1024 * 1024"

definition stage_file_stream :: "injector \<Rightarrow> path \<Rightarrow> 64 word \<Rightarrow> string \<Rightarrow> nat \<Rightarrow> read_reply list \<Rightarrow> string \<Rightarrow> nat \<Rightarrow>
    stream_stage_result tx" where
  "stage_file_stream injector relative expected_size expected_sha256 buffer_bytes reader source_identity_digest write_buffer_bytes =
    withS (\<lambda>s.
    bindS (guardS (ss_current_state s = ''staging'' \<and> safe_relative_path relative \<and> tx_valid_sha256 expected_sha256 \<and>
        buffer_bytes \<ge> 4096 \<and> buffer_bytes \<le> four_mebibytes \<and>
        (write_buffer_bytes = 0 \<or> (write_buffer_bytes \<ge> buffer_bytes \<and> write_buffer_bytes \<le> four_mebibytes)) \<and>
        (source_identity_digest = [] \<or> tx_valid_sha256 source_identity_digest))
      ''streamed staged file request is invalid'') (\<lambda>_.
    bindS (guardS (\<not> duplicated s relative) ''streamed staged file path is duplicated'') (\<lambda>_.
    bindS (readW verify_staging_identity) (\<lambda>_.
    bindS (modS (\<lambda>s. s\<lparr>ss_retain_stream_cleanup := True,
        ss_stream_journal := (ss_stream_journal s)\<lparr>sj_present := True, sj_publication_root_identity := ss_staging_identity s\<rparr>\<rparr>)) (\<lambda>_.
    let entries = sj_entries (ss_stream_journal s) in
    bindS (guardS (\<not> (length entries \<ge> 100000 \<or> (entries \<noteq> [] \<and> so_phase (last entries) \<noteq> ''complete'')))
      ''stream journal has an incomplete entry or exceeds its entry bound'') (\<lambda>_.
    bindS (modS (\<lambda>s. s\<lparr>ss_stream_journal := (ss_stream_journal s)\<lparr>sj_entries := entries @
        [\<lparr>so_relative_path = path_string relative, so_sha256 = expected_sha256, so_expected_size = expected_size,
          so_source_identity_digest = (if source_identity_digest = [] then ts_plan_digest (ss_spec s) else source_identity_digest),
          so_phase = ''intent'', so_output_identity = []\<rparr>]\<rparr>\<rparr>)) (\<lambda>_.
    bindS persist_snapshot (\<lambda>_.
    bindS (inject injector (ss_current_state s) ''after_stream_intent'') (\<lambda>_.
    bindS (onW (create_parents ''cannot create owned streaming staging directory'' (ss_staging_root s) (butlast (elements relative)))) (\<lambda>_.
    catchS (stream_output injector relative expected_size expected_sha256 buffer_bytes reader write_buffer_bytes)
      (\<lambda>e. bindS (ignoreS (persist_transition injector ''recovery_required'')) (\<lambda>_. rethrowS e))))))))))))"

section \<open>Binding the source\<close>

definition context_bound :: "string \<Rightarrow> string \<Rightarrow> string \<Rightarrow> unit res" where
  "context_bound source_context source_digest msg =
    (if length source_context > 16384 then throwE msg
     else bindE (parse source_context default_limits) (\<lambda>context.
       requireE (canonical context = source_context \<and> sha256_canonical context = source_digest) msg))"

definition bind_stream_source :: "string \<Rightarrow> string \<Rightarrow> unit tx" where
  "bind_stream_source source_digest source_context = withS (\<lambda>s.
    bindS (guardS (ss_current_state s = ''staging'' \<and> tx_valid_sha256 source_digest \<and>
        sj_entries (ss_stream_journal s) = [] \<and>
        (sj_source_digest (ss_stream_journal s) = [] \<or> sj_source_digest (ss_stream_journal s) = source_digest))
      ''stream source binding changed or is too late'') (\<lambda>_.
    bindS (modS (\<lambda>s. s\<lparr>ss_retain_stream_cleanup := True, ss_stream_journal := (ss_stream_journal s)\<lparr>sj_present := True\<rparr>\<rparr>)) (\<lambda>_.
    bindS (readW (\<lambda>s w. if source_context = [] then Inr ()
        else context_bound source_context source_digest ''stream source context does not match its source digest'')) (\<lambda>_.
    bindS (modS (\<lambda>s. s\<lparr>ss_stream_journal := (ss_stream_journal s)\<lparr>sj_source_digest := source_digest,
        sj_source_context := source_context, sj_publication_root_identity := ss_staging_identity s\<rparr>\<rparr>)) (\<lambda>_.
    persist_snapshot)))))"

section \<open>Towards the commit\<close>

definition mark_staged :: "injector \<Rightarrow> unit tx" where
  "mark_staged injector = withS (\<lambda>s.
    bindS (guardS (ss_current_state s = ''staging'' \<and> ss_staged_files s \<noteq> [] \<and>
        \<not> list_ex (\<lambda>entry. so_phase entry \<noteq> ''complete'') (sj_entries (ss_stream_journal s)))
      ''transaction cannot become staged without staged files'') (\<lambda>_.
    bindS (readW verify_staging_identity) (\<lambda>_.
    persist_transition injector ''staged'')))"

fun staged_closure_files :: "stream_entry_observation list \<Rightarrow> staged_file list \<Rightarrow> commit_closure_file list res" where
  "staged_closure_files entries [] = Inr []"
| "staged_closure_files entries (file # rest) =
    (let stream = List.find (\<lambda>entry. so_relative_path entry = path_string (sf_relative_path file)) entries in
     if (case stream of None \<Rightarrow> False | Some entry \<Rightarrow> so_phase entry \<noteq> ''complete'') then throwE ''stream child is incomplete''
     else bindE (staged_closure_files entries rest) (\<lambda>files.
       Inr (\<lparr>cf_relative_path = sf_relative_path file, cf_sha256 = sf_sha256 file, cf_size_bytes = sf_size_bytes file,
         cf_stream_output_identity = (case stream of None \<Rightarrow> [] | Some entry \<Rightarrow> so_output_identity entry)\<rparr> # files)))"

definition observe_staged_commit_closure :: "transaction_session \<Rightarrow> world \<Rightarrow> commit_closure_observation res" where
  "observe_staged_commit_closure s w =
    bindE (verify_staging_identity s w) (\<lambda>_.
    bindE (staged_closure_files (sj_entries (ss_stream_journal s)) (ss_staged_files s)) (\<lambda>files.
    observe_commit_closure w (ss_staging_root s) files))"

definition mark_verified :: "injector \<Rightarrow> unit tx" where
  "mark_verified injector = withS (\<lambda>s.
    bindS (guardS (ss_current_state s = ''staged'') ''only a staged transaction can be verified'') (\<lambda>_.
    bindS (readW observe_staged_commit_closure) (\<lambda>closure.
    bindS (modS (\<lambda>s. s\<lparr>ss_verified_closure := closure\<rparr>)) (\<lambda>_.
    persist_transition injector ''verified''))))"

definition target_changed :: "transaction_session \<Rightarrow> world \<Rightarrow> bool res" where
  "target_changed s w =
    bindE (directory_identity w (parent_path (ts_target_root (ss_spec s)))) (\<lambda>identity.
    Inr (identity \<noteq> ss_target_parent_identity s \<or> path_exists w (ts_target_root (ss_spec s))))"

text \<open>A failure in the block is recorded, if it can be, and thrown on.\<close>

definition or_recovery :: "injector \<Rightarrow> unit tx \<Rightarrow> unit tx" where
  "or_recovery injector m =
    catchS m (\<lambda>e. bindS (ignoreS (persist_transition injector ''recovery_required'')) (\<lambda>_. rethrowS e))"

definition prepare_commit :: "transaction_session \<Rightarrow> world \<Rightarrow> unit res" where
  "prepare_commit s w =
    bindE (require_commit_authority (ts_required_commit_authority (ss_spec s))) (\<lambda>_.
    if ss_verified_closure s = [] then throwE ''commit preparation refuses a changed verified closure''
    else bindE (observe_staged_commit_closure s w) (\<lambda>closure.
      requireE (closure = ss_verified_closure s) ''commit preparation refuses a changed verified closure''))"

definition commit_effect :: "injector \<Rightarrow> unit tx" where
  "commit_effect injector = withS (\<lambda>s.
    bindS (guardS (ss_current_state s = ''verified'') ''only a verified transaction can commit'') (\<lambda>_.
    bindS (readW verify_staging_identity) (\<lambda>_.
    bindS (readW target_changed) (\<lambda>changed.
    if changed then
      bindS (persist_transition injector ''refused'') (\<lambda>_.
      throwS ''target changed or now exists; reviewed plan is invalid'')
    else
      bindS (modS (\<lambda>s. s\<lparr>ss_retain_commit_cleanup := True\<rparr>)) (\<lambda>_.
      bindS persist_snapshot (\<lambda>_.
      bindS (or_recovery injector (readW prepare_commit)) (\<lambda>_.
      bindS (inject injector (ss_current_state s) ''after_commit_preparation_observation'') (\<lambda>_.
      bindS (persist_transition injector ''committing'') (\<lambda>_.
      bindS (readW verify_staging_identity) (\<lambda>_.
      bindS (readW target_changed) (\<lambda>changed.
      if changed then
        bindS (persist_transition injector ''recovery_required'') (\<lambda>_.
        throwS ''target changed immediately before no-replace commit'')
      else
        bindS (or_recovery injector
          (onW (rename_directory_no_replace (ss_staging_root s) (ts_target_root (ss_spec s))))) (\<lambda>_.
        inject injector ''committing'' ''after_commit_effect''))))))))))))"

definition target_visible :: "transaction_session \<Rightarrow> world \<Rightarrow> bool" where
  "target_visible s w \<longleftrightarrow> \<not> (path_exists w (ss_staging_root s) \<or> \<not> is_directory w (ts_target_root (ss_spec s)) \<or>
     reparse_or_symlink w (ts_target_root (ss_spec s)))"

definition mark_committed :: "injector \<Rightarrow> unit tx" where
  "mark_committed injector = withS (\<lambda>s.
    bindS (readW (\<lambda>s w. require_commit_authority (ts_required_commit_authority (ss_spec s)))) (\<lambda>_.
    bindS (readW (\<lambda>s w. requireE (ss_current_state s = ''committing'' \<and> (ss_maintenance_finalization s \<or> target_visible s w))
      ''transaction commit effect is not present and stable'')) (\<lambda>_.
    persist_transition injector ''committed'')))"

definition mark_completed :: "injector \<Rightarrow> unit tx" where
  "mark_completed injector = withS (\<lambda>s.
    bindS (readW (\<lambda>s w. require_commit_authority (ts_required_commit_authority (ss_spec s)))) (\<lambda>_.
    bindS (guardS (ss_current_state s = ''committed'') ''only a committed transaction can complete'') (\<lambda>_.
    persist_transition injector ''completed'')))"

definition mark_recovery_required :: "injector \<Rightarrow> unit tx" where
  "mark_recovery_required injector = withS (\<lambda>s.
    bindS (guardS (ss_current_state s = ''committing'' \<or> ss_current_state s = ''committed'')
      ''transaction state cannot require finalization recovery'') (\<lambda>_.
    persist_transition injector ''recovery_required''))"

definition resume_committing :: "injector \<Rightarrow> unit tx" where
  "resume_committing injector =
    bindS (readW (\<lambda>s w. require_commit_authority (ts_required_commit_authority (ss_spec s)))) (\<lambda>_.
    bindS (readW (\<lambda>s w. requireE (ss_current_state s = ''recovery_required'' \<and> (ss_maintenance_finalization s \<or> target_visible s w))
      ''only visible-target recovery can resume finalization'')) (\<lambda>_.
    persist_transition injector ''committing''))"

definition commit :: "injector \<Rightarrow> unit tx" where
  "commit injector =
    bindS (commit_effect injector) (\<lambda>_. bindS (mark_committed injector) (\<lambda>_. mark_completed injector))"

definition rollback :: "injector \<Rightarrow> unit tx" where
  "rollback injector = withS (\<lambda>s.
    bindS (guardS (ss_current_state s = ''staging'' \<or> ss_current_state s = ''staged'' \<or> ss_current_state s = ''verified'' \<or>
        ss_current_state s = ''committing'' \<or> ss_current_state s = ''recovery_required'')
      ''transaction state cannot be rolled back safely'') (\<lambda>_.
    bindS (readW (\<lambda>s w. requireE (\<not> path_exists w (ts_target_root (ss_spec s)))
      ''rollback refuses a transaction whose target is visible'')) (\<lambda>_.
    bindS (if ss_current_state s \<noteq> ''recovery_required'' then persist_transition injector ''recovery_required'' else returnS ()) (\<lambda>_.
    bindS remove_recorded_staging_closure (\<lambda>_.
    bindS (inject injector ''recovery_required'' ''after_rollback_effect'') (\<lambda>_.
    persist_transition injector ''rolled_back''))))))"

end
