(* ===== verification/Usk_Maintenance.thy ===== *)
theory Usk_Maintenance
  imports Usk_Session_Files
begin

text \<open>
  The journal of maintenance effects, \<^verbatim>\<open>runtime/setup/transaction/usk_maintenance_effect_journal.cpp\<close>
  (POSIX branches, where no native owner is bound and the authority checks do nothing). Every
  effect is an intent record before and a completion record after; a failed write makes the
  writing object unusable, a refused record the reading one. What a reader that failed has
  stored before the refusal is not kept, as nothing can look at it.
\<close>

section \<open>Checks\<close>

definition maximum_records :: "64 word" where "maximum_records = 200002"
definition maximum_journal_bytes :: "64 word" where "maximum_journal_bytes = 64 * 1024 * 1024"
definition maximum_record_bytes :: nat where "maximum_record_bytes = 32768"

definition effect_digest :: "string \<Rightarrow> bool" where
  "effect_digest text \<longleftrightarrow> length text = 64 \<and>
    list_all (\<lambda>c. (CHR ''0'' \<le> c \<and> c \<le> CHR ''9'') \<or> (CHR ''a'' \<le> c \<and> c \<le> CHR ''f'')) text"

definition native_identity :: "string \<Rightarrow> bool" where
  "native_identity text \<longleftrightarrow> length text = 33 \<and> text ! 16 = CHR '':'' \<and>
    length (filter (\<lambda>c. c = CHR '':'') text) = 1 \<and>
    list_all (\<lambda>c. c = CHR '':'' \<or> (CHR ''0'' \<le> c \<and> c \<le> CHR ''9'') \<or> (CHR ''a'' \<le> c \<and> c \<le> CHR ''f'')) text"

definition effect_exact_keys :: "jvalue \<Rightarrow> string list \<Rightarrow> unit res" where
  "effect_exact_keys v expected =
    bindE (member_names v) (\<lambda>actual. requireE (actual = set expected) ''maintenance journal fields are invalid'')"

definition normalized :: "world \<Rightarrow> path \<Rightarrow> string res" where
  "normalized w p =
    (if path_empty p then throwE ''filesystem error: cannot make absolute path: Invalid argument''
     else Inr (path_string (lexically_normal (absolute (w_cwd w) p))))"

definition relative_path :: "string \<Rightarrow> bool \<Rightarrow> unit res" where
  "relative_path text allow_root =
    (if allow_root \<and> text = [] then Inr ()
     else let p = path_of text in
       if text = [] \<or> length text > 4096 \<or> is_absolute p \<or> path_string p \<noteq> text \<or>
          list_ex (\<lambda>c. byte c < 0x20 \<or> byte c = 0x7f \<or> c = CHR '':'' \<or> c = backslash_ch) text
       then throwE ''maintenance effect path is invalid''
       else requireE (list_all (\<lambda>c. c \<noteq> [] \<and> c \<noteq> ''.'' \<and> c \<noteq> ''..'') (elements p))
         ''maintenance effect path is not relative and normalized'')"

definition root_observation :: "world \<Rightarrow> jvalue \<Rightarrow> path \<Rightarrow> unit res" where
  "root_observation w root expected =
    bindE (effect_exact_keys root [''root'', ''native_identity'']) (\<lambda>_.
    bindE (string_at root ''root'') (\<lambda>text.
    bindE (normalized w expected) (\<lambda>expected_text.
    if text \<noteq> expected_text then throwE ''maintenance context root observation is invalid''
    else bindE (string_at root ''native_identity'') (\<lambda>identity.
      requireE (native_identity identity) ''maintenance context root observation is invalid''))))"

definition context_limits :: parse_limits where
  "context_limits = \<lparr>max_bytes = 16384, max_depth = 8, max_values = 128, max_string_bytes = 16384\<rparr>"

definition context_keys :: "string list" where
  "context_keys = [''schema'', ''operation'', ''install_id'', ''transaction_id'', ''plan_id'', ''plan_digest'', ''policy_digest'',
     ''applied_at'', ''original_installed_transaction_id'', ''original_installed_state_digest'', ''ownership_manifest_ref'',
     ''ownership_manifest_digest'', ''original_source_archive_digest'', ''installed_root'', ''operation_target_root'',
     ''operation_target_parent'', ''staging_parent'', ''state_root'', ''audit_root'']"

definition reviewed_plan :: "transaction_spec \<Rightarrow> jvalue \<Rightarrow> unit res" where
  "reviewed_plan spec v =
    (if jcontains v ''reviewed_plan_ref'' \<or> jcontains v ''reviewed_plan_sha256'' then
       bindE (effect_exact_keys v (context_keys @ [''reviewed_plan_ref'', ''reviewed_plan_sha256''])) (\<lambda>_.
       bindE (string_at v ''reviewed_plan_ref'') (\<lambda>plan.
       if plan \<noteq> ts_transaction_id spec @ ''.maintenance-plan.json'' then throwE ''maintenance reviewed-plan binding is invalid''
       else bindE (string_at v ''reviewed_plan_sha256'') (\<lambda>sha256.
         requireE (effect_digest sha256) ''maintenance reviewed-plan binding is invalid'')))
     else effect_exact_keys v context_keys)"

definition context_binding :: "transaction_spec \<Rightarrow> jvalue \<Rightarrow> unit res" where
  "context_binding spec v = (let msg = ''maintenance context does not bind the transaction'' in
    bindE (binds_members v [(''schema'', ''usk.maintenance_source_context.v1'')] msg) (\<lambda>_.
    bindE (requireE (ts_operation spec = ''repair'' \<or> ts_operation spec = ''move'' \<or> ts_operation spec = ''uninstall'') msg) (\<lambda>_.
    bindE (binds_members v [(''operation'', ts_operation spec), (''transaction_id'', ts_transaction_id spec),
      (''plan_id'', ts_plan_id spec), (''plan_digest'', ts_plan_digest spec)] msg) (\<lambda>_.
    bindE (requireE (valid_identifier (ts_transaction_id spec) \<and> valid_identifier (ts_plan_id spec) \<and>
      effect_digest (ts_plan_digest spec)) msg) (\<lambda>_.
    bindE (string_at v ''install_id'') (\<lambda>install_id.
    bindE (requireE (valid_identifier install_id) msg) (\<lambda>_.
    bindE (string_at v ''original_installed_transaction_id'') (\<lambda>original.
    bindE (requireE (valid_identifier original \<and> original \<noteq> ts_transaction_id spec) msg) (\<lambda>_.
    bindE (string_at v ''applied_at'') (\<lambda>applied_at.
    requireE (applied_at \<noteq> [] \<and> length applied_at \<le> 64) msg))))))))))"

fun context_digests :: "jvalue \<Rightarrow> string list \<Rightarrow> unit res" where
  "context_digests v [] = Inr ()"
| "context_digests v (key # rest) =
    bindE (string_at v key) (\<lambda>text.
    if \<not> effect_digest text then throwE ''maintenance context digest is invalid'' else context_digests v rest)"

definition installed_observation :: "world \<Rightarrow> jvalue \<Rightarrow> unit res" where
  "installed_observation w installed =
    bindE (effect_exact_keys installed [''root'', ''native_identity'', ''parent'']) (\<lambda>_.
    bindE (string_at installed ''root'') (\<lambda>text.
    let installed_root = path_of text in
    if \<not> is_absolute installed_root then throwE ''maintenance installed-root observation is invalid''
    else bindE (normalized w installed_root) (\<lambda>root_text.
      if root_text \<noteq> text then throwE ''maintenance installed-root observation is invalid''
      else bindE (jat installed ''native_identity'') (\<lambda>v.
        bindE (if v = JNull then Inr True else bindE (as_string v) (\<lambda>identity. Inr (native_identity identity))) (\<lambda>ok.
        if \<not> ok then throwE ''maintenance installed-root observation is invalid''
        else bindE (jat installed ''parent'') (\<lambda>parent. root_observation w parent (parent_path installed_root)))))))"

definition validate_context :: "world \<Rightarrow> transaction_spec \<Rightarrow> string \<Rightarrow> unit res" where
  "validate_context w spec text =
    (if text = [] \<or> length text > 16384 then throwE ''maintenance context exceeds its bound''
     else bindE (parse text context_limits) (\<lambda>v.
       bindE (reviewed_plan spec v) (\<lambda>_.
       bindE (requireE (canonical v = text) ''maintenance context does not bind the transaction'') (\<lambda>_.
       bindE (context_binding spec v) (\<lambda>_.
       bindE (context_digests v [''policy_digest'', ''original_installed_state_digest'', ''ownership_manifest_digest'',
         ''original_source_archive_digest'']) (\<lambda>_.
       bindE (bindE (string_at v ''ownership_manifest_ref'') (\<lambda>reference. relative_path reference False)) (\<lambda>_.
       bindE (bindE (jat v ''installed_root'') (installed_observation w)) (\<lambda>_.
       bindE (string_at v ''operation_target_root'') (\<lambda>target.
       bindE (normalized w (ts_target_root spec)) (\<lambda>target_text.
       bindE (requireE (target = target_text) ''maintenance operation target changed'') (\<lambda>_.
       bindE (bindE (jat v ''operation_target_parent'')
         (\<lambda>root. root_observation w root (parent_path (absolute (w_cwd w) (ts_target_root spec))))) (\<lambda>_.
       bindE (bindE (jat v ''staging_parent'') (\<lambda>root. root_observation w root (ts_staging_parent spec))) (\<lambda>_.
       bindE (bindE (jat v ''state_root'') (\<lambda>root. root_observation w root (ts_state_root spec))) (\<lambda>_.
       bindE (jat v ''audit_root'') (\<lambda>root. root_observation w root (ts_audit_root spec))))))))))))))))"

section \<open>Effects\<close>

definition validate_file_effect :: "string \<Rightarrow> string \<Rightarrow> jvalue \<Rightarrow> unit res" where
  "validate_file_effect operation kind details =
    bindE (effect_exact_keys details ([''relative_path'', ''native_identity'', ''sha256'', ''size_bytes''] @
      (if kind = ''remove_file'' then [''root_role''] else []))) (\<lambda>_.
    bindE (bindE (string_at details ''relative_path'') (\<lambda>text. relative_path text False)) (\<lambda>_.
    bindE (string_at details ''native_identity'') (\<lambda>identity.
    if \<not> native_identity identity then throwE ''maintenance file observation is invalid''
    else bindE (string_at details ''sha256'') (\<lambda>sha256.
      if \<not> effect_digest sha256 then throwE ''maintenance file observation is invalid''
      else bindE (bindE (jat details ''size_bytes'') as_unsigned) (\<lambda>size_bytes.
        if size_bytes > 2 ^ 32 then throwE ''maintenance file observation is invalid''
        else if kind \<noteq> ''remove_file'' \<and> operation \<noteq> ''repair'' then throwE ''maintenance file exchange belongs to repair''
        else if kind = ''remove_file'' then
          bindE (string_at details ''root_role'') (\<lambda>role.
          requireE (\<not> ((role \<noteq> ''installed'' \<and> role \<noteq> ''operation_target'') \<or> operation = ''move'' \<or>
              (operation = ''repair'' \<and> role \<noteq> ''operation_target'')))
            ''maintenance removal root role is invalid'')
        else Inr ())))))"

definition validate_directory_effect :: "string \<Rightarrow> jvalue \<Rightarrow> unit res" where
  "validate_directory_effect operation details =
    bindE (effect_exact_keys details [''root_role'', ''relative_path'', ''native_identity'']) (\<lambda>_.
    bindE (bindE (string_at details ''relative_path'') (\<lambda>text. relative_path text True)) (\<lambda>_.
    bindE (string_at details ''root_role'') (\<lambda>role.
    bindE (string_at details ''native_identity'') (\<lambda>identity.
    requireE (\<not> (\<not> native_identity identity \<or> operation = ''move'' \<or>
        (role \<noteq> ''installed'' \<and> role \<noteq> ''operation_target'') \<or> (operation = ''repair'' \<and> role \<noteq> ''operation_target'')))
      ''maintenance directory observation is invalid''))))"

definition validate_ownership_effect :: "string \<Rightarrow> jvalue \<Rightarrow> unit res" where
  "validate_ownership_effect operation details =
    bindE (effect_exact_keys details [''manifest_id'', ''prior_manifest_digest'']) (\<lambda>_.
    if operation = ''uninstall'' then throwE ''maintenance ownership binding is invalid''
    else bindE (string_at details ''manifest_id'') (\<lambda>manifest_id.
      if \<not> valid_identifier manifest_id then throwE ''maintenance ownership binding is invalid''
      else bindE (string_at details ''prior_manifest_digest'') (\<lambda>prior.
        requireE (effect_digest prior) ''maintenance ownership binding is invalid'')))"

fun strings_present :: "jvalue \<Rightarrow> string list \<Rightarrow> unit res" where
  "strings_present v [] = Inr ()"
| "strings_present v (key # rest) = bindE (string_at v key) (\<lambda>_. strings_present v rest)"

definition validate_revision :: "jvalue \<Rightarrow> unit res" where
  "validate_revision revision =
    bindE (effect_exact_keys revision [''target_root'', ''ownership_manifest_ref'', ''ownership_manifest_digest'', ''transaction_id'',
      ''created_at'', ''lifecycle_status'', ''last_verification'']) (\<lambda>_.
    bindE (strings_present revision [''target_root'', ''ownership_manifest_ref'', ''transaction_id'', ''created_at'', ''lifecycle_status'']) (\<lambda>_.
    bindE (string_at revision ''ownership_manifest_digest'') (\<lambda>ownership.
    if \<not> effect_digest ownership then throwE ''maintenance installed-state ownership digest is invalid''
    else bindE (jat revision ''last_verification'') (\<lambda>verification.
      bindE (effect_exact_keys verification [''report_id'', ''report_digest'', ''status'', ''verified_at'']) (\<lambda>_.
      bindE (strings_present verification [''report_id'', ''status'', ''verified_at'']) (\<lambda>_.
      bindE (string_at verification ''report_digest'') (\<lambda>report.
      requireE (effect_digest report) ''maintenance installed-state verification digest is invalid'')))))))"

definition validate_installed_effect :: "jvalue \<Rightarrow> unit res" where
  "validate_installed_effect details =
    bindE (as_object details) (\<lambda>members.
    let revised = (map_of members ''state_revision'' \<noteq> None) in
    bindE (effect_exact_keys details ([''install_id'', ''state_digest''] @ (if revised then [''state_revision''] else []))) (\<lambda>_.
    bindE (string_at details ''install_id'') (\<lambda>install_id.
    if \<not> valid_identifier install_id then throwE ''maintenance installed-state binding is invalid''
    else bindE (string_at details ''state_digest'') (\<lambda>state_digest.
      if \<not> effect_digest state_digest then throwE ''maintenance installed-state binding is invalid''
      else if revised then bindE (jat details ''state_revision'') validate_revision else Inr ()))))"

fun all_strings :: "(string \<times> jvalue) list \<Rightarrow> unit res" where
  "all_strings [] = Inr ()"
| "all_strings ((key, v) # rest) = bindE (as_string v) (\<lambda>_. all_strings rest)"

definition validate_audit_effect :: "jvalue \<Rightarrow> unit res" where
  "validate_audit_effect details =
    bindE (as_object details) (\<lambda>members.
    let given = (map_of members ''input'' \<noteq> None) in
    bindE (effect_exact_keys details ([''chain_id'', ''input_digest''] @ (if given then [''input''] else []))) (\<lambda>_.
    bindE (string_at details ''chain_id'') (\<lambda>chain_id.
    if \<not> valid_identifier chain_id then throwE ''maintenance audit binding is invalid''
    else bindE (string_at details ''input_digest'') (\<lambda>input_digest.
      if \<not> effect_digest input_digest then throwE ''maintenance audit binding is invalid''
      else if given then
        bindE (jat details ''input'') (\<lambda>input.
        bindE (effect_exact_keys input [''created_at'', ''operation'', ''phase'', ''status'', ''subject_type'', ''subject_id'',
          ''details_digest'', ''transaction_id'', ''plan_id'', ''message'']) (\<lambda>_.
        bindE (bindE (as_object input) all_strings) (\<lambda>_.
        requireE (sha256_canonical input = input_digest) ''maintenance audit postimage digest differs'')))
      else Inr ()))))"

definition validate_effect :: "string \<Rightarrow> string \<Rightarrow> jvalue \<Rightarrow> unit res" where
  "validate_effect operation kind details =
    (if length (canonical details) > 8192 then throwE ''maintenance effect exceeds its bound''
     else if kind = ''backup_file'' \<or> kind = ''replace_file'' \<or> kind = ''remove_file'' then validate_file_effect operation kind details
     else if kind = ''remove_directory'' then validate_directory_effect operation details
     else if kind = ''publish_target'' then
       bindE (effect_exact_keys details [''native_identity'']) (\<lambda>_.
       bindE (string_at details ''native_identity'') (\<lambda>identity.
       requireE (native_identity identity) ''maintenance publication observation is invalid''))
     else if kind = ''write_ownership'' then validate_ownership_effect operation details
     else if kind = ''write_installed'' then validate_installed_effect details
     else if kind = ''append_audit'' then validate_audit_effect details
     else throwE ''maintenance effect kind is unknown'')"

definition validate_completion :: "string \<Rightarrow> string \<Rightarrow> string \<Rightarrow> unit res" where
  "validate_completion kind outcome result_digest =
    (let metadata = (kind = ''write_ownership'' \<or> kind = ''write_installed'' \<or> kind = ''append_audit'') in
     requireE (\<not> ((outcome \<noteq> ''applied'' \<and> (outcome \<noteq> ''retained'' \<or> kind \<noteq> ''remove_directory'')) \<or>
         (if metadata then \<not> effect_digest result_digest else result_digest \<noteq> [])))
       ''maintenance completion is invalid'')"

definition effect_filename :: "64 word \<Rightarrow> string" where
  "effect_filename sequence = zero_pad 20 (dec (unat sequence)) @ ''.json''"

definition record_limits :: parse_limits where
  "record_limits = \<lparr>max_bytes = 32768, max_depth = 12, max_values = 256, max_string_bytes = 16384\<rparr>"

definition record_keys :: "string list" where
  "record_keys = [''schema'', ''sequence'', ''transaction_id'', ''source_digest'', ''phase'', ''details'', ''previous_digest'', ''digest'']"

definition decode_record_text :: "string \<Rightarrow> 64 word \<Rightarrow> (jvalue \<times> 64 word) res" where
  "decode_record_text text bytes =
    (if length text > maximum_record_bytes then throwE ''maintenance journal record exceeds its byte bound''
     else if bytes > maximum_journal_bytes - of_nat (length text) then throwE ''maintenance journal exceeds its byte bound''
     else bindE (parse text record_limits) (\<lambda>v.
       bindE (effect_exact_keys v record_keys) (\<lambda>_.
       bindE (string_at v ''digest'') (\<lambda>hash.
       bindE (as_object v) (\<lambda>members.
       if canonical v @ newline \<noteq> text \<or> \<not> effect_digest hash \<or>
          sha256_canonical (JObject (obj_erase ''digest'' members)) \<noteq> hash
       then throwE ''maintenance journal record is invalid''
       else bindE (string_at v ''schema'') (\<lambda>schema.
         if schema \<noteq> ''usk.maintenance_effect_record.v1'' then throwE ''maintenance journal record is invalid''
         else Inr (v, bytes + of_nat (length text))))))))"

definition read_record :: "world \<Rightarrow> path \<Rightarrow> 64 word \<Rightarrow> (jvalue \<times> 64 word) res" where
  "read_record w p bytes = bindE (read_stable_text w p maximum_record_bytes) (\<lambda>text. decode_record_text text bytes)"

section \<open>The reader\<close>

record completed_effect =
  ce_intent_sequence :: "64 word"
  ce_kind :: string
  ce_details :: jvalue
  ce_outcome :: string
  ce_result_digest :: string

record effect_inspection =
  ei_source_context :: string
  ei_source_digest :: string
  ei_journal_digest :: string
  ei_completed_effects :: "64 word"
  ei_next_sequence :: "64 word"
  ei_pending_sequence :: "64 word"
  ei_serialized_bytes :: "64 word"
  ei_directory_identity :: string
  ei_sealed :: bool
  ei_pending_kind :: string
  ei_pending_details :: jvalue
  ei_completed :: "completed_effect list"

record effect_reader =
  er_spec :: transaction_spec
  er_directory_identity :: string
  er_expected_source_digest :: string
  er_record_count :: "64 word"
  er_retain_completed :: bool
  er_result :: effect_inspection
  er_pending_sequence :: "64 word"
  er_bytes :: "64 word"
  er_failed :: bool
  er_finished :: bool

definition new_inspection :: effect_inspection where
  "new_inspection = \<lparr>ei_source_context = [], ei_source_digest = [], ei_journal_digest = [], ei_completed_effects = 0,
     ei_next_sequence = 0, ei_pending_sequence = 0, ei_serialized_bytes = 0, ei_directory_identity = [], ei_sealed = False,
     ei_pending_kind = [], ei_pending_details = JNull, ei_completed = []\<rparr>"

definition new_reader :: "transaction_spec \<Rightarrow> string \<Rightarrow> string \<Rightarrow> nat \<Rightarrow> bool \<Rightarrow> effect_reader res" where
  "new_reader spec identity expected_source_digest record_count retain_completed =
    (if \<not> valid_identifier (ts_transaction_id spec) \<or> \<not> effect_digest expected_source_digest \<or>
        record_count = 0 \<or> record_count > unat maximum_records
     then throwE ''maintenance inspection identity or record count is invalid''
     else Inr \<lparr>er_spec = spec, er_directory_identity = identity, er_expected_source_digest = expected_source_digest,
       er_record_count = of_nat record_count, er_retain_completed = retain_completed, er_result = new_inspection,
       er_pending_sequence = 0, er_bytes = 0, er_failed = False, er_finished = False\<rparr>)"

text \<open>The four kinds of record; each returns the reader after it, apart from the digest and the count.\<close>

definition consume_context :: "world \<Rightarrow> effect_reader \<Rightarrow> string \<Rightarrow> jvalue \<Rightarrow> effect_reader res" where
  "consume_context w r phase details =
    (if phase \<noteq> ''context'' then throwE ''maintenance journal lacks original context''
     else bindE (effect_exact_keys details [''source_context'', ''directory_identity'']) (\<lambda>_.
       bindE (string_at details ''directory_identity'') (\<lambda>identity.
       if identity \<noteq> er_directory_identity r then throwE ''maintenance journal directory identity changed''
       else bindE (string_at details ''source_context'') (\<lambda>source_context.
         bindE (validate_context w (er_spec r) source_context) (\<lambda>_.
         bindE (parse source_context default_limits) (\<lambda>context.
         if sha256_canonical context \<noteq> er_expected_source_digest r then throwE ''maintenance original context digest changed''
         else Inr (r\<lparr>er_result := (er_result r)\<lparr>ei_source_context := source_context,
           ei_source_digest := sha256_canonical context\<rparr>\<rparr>)))))))"

definition consume_intent :: "effect_reader \<Rightarrow> 64 word \<Rightarrow> jvalue \<Rightarrow> effect_reader res" where
  "consume_intent r index details =
    bindE (effect_exact_keys details [''kind'', ''effect'']) (\<lambda>_.
    if ei_pending_kind (er_result r) \<noteq> [] then throwE ''maintenance intents overlap''
    else bindE (string_at details ''kind'') (\<lambda>kind.
      bindE (jat details ''effect'') (\<lambda>effect.
      bindE (validate_effect (ts_operation (er_spec r)) kind effect) (\<lambda>_.
      Inr (r\<lparr>er_result := (er_result r)\<lparr>ei_pending_kind := kind, ei_pending_details := effect\<rparr>, er_pending_sequence := index\<rparr>)))))"

definition consume_complete :: "effect_reader \<Rightarrow> jvalue \<Rightarrow> effect_reader res" where
  "consume_complete r details = (let result = er_result r in
    bindE (effect_exact_keys details [''intent_sequence'', ''kind'', ''outcome'', ''result_digest'']) (\<lambda>_.
    if ei_pending_kind result = [] then throwE ''maintenance completion does not bind an intent''
    else bindE (string_at details ''kind'') (\<lambda>kind.
      if kind \<noteq> ei_pending_kind result then throwE ''maintenance completion does not bind an intent''
      else bindE (bindE (jat details ''intent_sequence'') as_unsigned) (\<lambda>intent_sequence.
        if intent_sequence \<noteq> er_pending_sequence r then throwE ''maintenance completion does not bind an intent''
        else bindE (bindE (jat details ''result_digest'') optional_string) (\<lambda>hash.
          bindE (string_at details ''outcome'') (\<lambda>outcome.
          bindE (validate_completion (ei_pending_kind result) outcome hash) (\<lambda>_.
          Inr (r\<lparr>er_result := result\<lparr>ei_completed := (if er_retain_completed r then ei_completed result @
                [\<lparr>ce_intent_sequence = er_pending_sequence r, ce_kind = ei_pending_kind result,
                  ce_details = ei_pending_details result, ce_outcome = outcome, ce_result_digest = hash\<rparr>] else ei_completed result),
              ei_pending_kind := [], ei_pending_details := JNull,
              ei_completed_effects := ei_completed_effects result + 1\<rparr>\<rparr>))))))))"

definition consume_sealed :: "effect_reader \<Rightarrow> jvalue \<Rightarrow> effect_reader res" where
  "consume_sealed r details =
    (if ei_pending_kind (er_result r) \<noteq> [] \<or> details \<noteq> JNull
     then throwE ''maintenance journal sealed with an unresolved effect''
     else Inr (r\<lparr>er_result := (er_result r)\<lparr>ei_sealed := True\<rparr>\<rparr>))"

definition record_binds :: "effect_reader \<Rightarrow> string \<Rightarrow> 64 word \<Rightarrow> jvalue \<Rightarrow> unit res" where
  "record_binds r record_name index v = (let msg = ''maintenance journal chain or binding is invalid'' in
    if record_name \<noteq> effect_filename index then throwE msg
    else bindE (bindE (jat v ''sequence'') as_unsigned) (\<lambda>sequence.
      if sequence \<noteq> index then throwE msg
      else bindE (binds_members v [(''transaction_id'', ts_transaction_id (er_spec r)),
          (''source_digest'', er_expected_source_digest r)] msg) (\<lambda>_.
        if ei_sealed (er_result r) then throwE msg
        else bindE (jat v ''previous_digest'') (\<lambda>previous.
          if index = 0 then requireE (previous = JNull) msg
          else bindE (as_string previous) (\<lambda>text. requireE (text = ei_journal_digest (er_result r)) msg)))))"

definition consume_record :: "world \<Rightarrow> effect_reader \<Rightarrow> string \<Rightarrow> string \<Rightarrow> effect_reader res" where
  "consume_record w r record_name text = (let index = ei_next_sequence (er_result r) in
    if index \<ge> er_record_count r then throwE ''maintenance journal has an unexpected record''
    else bindE (decode_record_text text (er_bytes r)) (\<lambda>(v, bytes).
      bindE (record_binds r record_name index v) (\<lambda>_.
      bindE (string_at v ''phase'') (\<lambda>phase.
      bindE (jat v ''details'') (\<lambda>details.
      bindE (if index = 0 then consume_context w r phase details
        else if phase = ''intent'' then consume_intent r index details
        else if phase = ''complete'' then consume_complete r details
        else if phase = ''sealed'' then consume_sealed r details
        else throwE ''maintenance journal phase is invalid'') (\<lambda>r'.
      bindE (string_at v ''digest'') (\<lambda>digest.
      Inr (r'\<lparr>er_bytes := bytes, er_result := (er_result r')\<lparr>ei_journal_digest := digest, ei_next_sequence := index + 1\<rparr>\<rparr>))))))))"

definition consume :: "world \<Rightarrow> string \<Rightarrow> string \<Rightarrow> (effect_reader, unit) st" where
  "consume w record_name text r =
    (if er_failed r \<or> er_finished r then (Inl (Logic_error ''maintenance record reader is no longer usable''), r)
     else (case consume_record w r record_name text of
         Inl e \<Rightarrow> (Inl e, r\<lparr>er_failed := True\<rparr>)
       | Inr r' \<Rightarrow> (Inr (), r')))"

definition finish :: "(effect_reader, effect_inspection) st" where
  "finish r =
    (if er_failed r \<or> er_finished r then (Inl (Logic_error ''maintenance record reader is no longer usable''), r)
     else if ei_next_sequence (er_result r) \<noteq> er_record_count r
     then (throwE ''maintenance journal input is incomplete'', r\<lparr>er_failed := True\<rparr>)
     else (Inr ((er_result r)\<lparr>ei_pending_sequence := er_pending_sequence r, ei_serialized_bytes := er_bytes r,
         ei_directory_identity := er_directory_identity r\<rparr>), r\<lparr>er_finished := True\<rparr>))"

section \<open>Inspection of a journal directory\<close>

definition effect_directory :: "world \<Rightarrow> transaction_spec \<Rightarrow> path res" where
  "effect_directory w spec =
    (if path_empty (ts_state_root spec) then throwE ''filesystem error: cannot make absolute path: Invalid argument''
     else Inr (path_append (path_append (lexically_normal (absolute (w_cwd w) (ts_state_root spec))) (path_of ''transactions''))
       (path_of (ts_transaction_id spec @ ''.maintenance''))))"

fun effect_records :: "world \<Rightarrow> path \<Rightarrow> path list \<Rightarrow> string list \<Rightarrow> path list res" where
  "effect_records w directory records [] = Inr records"
| "effect_records w directory records (name # names) =
    (let entry = path_append directory (element_path name) in
     if length records \<ge> unat maximum_records \<or> (case lstat w entry of Some (File _ _ _ _) \<Rightarrow> False | _ \<Rightarrow> True)
     then throwE ''maintenance journal directory is not exact''
     else effect_records w directory (records @ [entry]) names)"

fun consume_all :: "world \<Rightarrow> path list \<Rightarrow> (effect_reader, unit) st" where
  "consume_all w [] = returnS ()"
| "consume_all w (p # ps) =
    bindS (liftS (\<lambda>_. read_stable_text w p maximum_record_bytes)) (\<lambda>text.
    bindS (consume w (filename p) text) (\<lambda>_. consume_all w ps))"

definition inspect_effects :: "world \<Rightarrow> transaction_spec \<Rightarrow> string \<Rightarrow> bool \<Rightarrow> effect_inspection res" where
  "inspect_effects w spec expected_source_digest retain_completed =
    (if \<not> valid_identifier (ts_transaction_id spec) \<or> \<not> effect_digest expected_source_digest
     then throwE ''maintenance inspection identity is invalid''
     else bindE (effect_directory w spec) (\<lambda>directory.
       bindE (observe_directory_identity w directory) (\<lambda>identity.
       bindE (iterate_directory w directory) (\<lambda>names.
       bindE (effect_records w directory [] names) (\<lambda>records.
       if records = [] then throwE ''maintenance journal has no original context''
       else bindE (new_reader spec identity expected_source_digest (length records) retain_completed) (\<lambda>reader.
         case consume_all w (sort_key elements records) reader of
           (Inl e, _) \<Rightarrow> Inl e
         | (Inr _, reader') \<Rightarrow>
             bindE (observe_directory_identity w directory) (\<lambda>again.
             if again \<noteq> identity then throwE ''maintenance journal directory changed during inspection''
             else fst (finish reader'))))))))"

definition require_maintenance_source_context :: "world \<Rightarrow> transaction_spec \<Rightarrow> string \<Rightarrow> unit res" where
  "require_maintenance_source_context w spec text = validate_context w spec text"

section \<open>The writer\<close>

record effect_journal =
  ej_spec :: transaction_spec
  ej_directory :: path
  ej_directory_identity :: string
  ej_source_digest :: string
  ej_last_digest :: string
  ej_pending_kind :: string
  ej_pending_sequence :: "64 word"
  ej_sequence :: "64 word"
  ej_bytes :: "64 word"
  ej_sealed :: bool
  ej_failed :: bool
  ej_payload_attempted :: bool
  ej_payload_outcome :: string

definition effect_record :: "effect_journal \<Rightarrow> string \<Rightarrow> jvalue \<Rightarrow> (string \<times> jvalue) list" where
  "effect_record j phase details =
    [(''schema'', JString ''usk.maintenance_effect_record.v1''), (''sequence'', JUnsigned (ej_sequence j)),
     (''transaction_id'', JString (ts_transaction_id (ej_spec j))), (''source_digest'', JString (ej_source_digest j)),
     (''phase'', JString phase), (''details'', details),
     (''previous_digest'', if ej_last_digest j = [] then JNull else JString (ej_last_digest j))]"

definition sealed_record :: "effect_journal \<Rightarrow> string \<Rightarrow> jvalue \<Rightarrow> jvalue" where
  "sealed_record j phase details = (let members = obj_of (effect_record j phase details) in
     JObject (fst (obj_emplace ''digest'' (JString (sha256_canonical (JObject members))) members)))"

definition record_text :: "effect_journal \<Rightarrow> string \<Rightarrow> jvalue \<Rightarrow> string" where
  "record_text j phase details = canonical (sealed_record j phase details) @ newline"

definition require_effect_directory :: "string \<Rightarrow> effect_journal \<Rightarrow> world \<Rightarrow> unit res" where
  "require_effect_directory msg j w =
    bindE (observe_directory_identity w (ej_directory j)) (\<lambda>identity. requireE (identity = ej_directory_identity j) msg)"

definition check_predecessor :: "effect_journal \<Rightarrow> world \<Rightarrow> unit res" where
  "check_predecessor j w =
    (if ej_sequence j = 0 then Inr ()
     else bindE (read_record w (path_append (ej_directory j) (path_of (effect_filename (ej_sequence j - 1)))) 0) (\<lambda>(prior, _).
       bindE (string_at prior ''digest'') (\<lambda>digest.
       requireE (digest = ej_last_digest j) ''maintenance journal predecessor changed'')))"

definition persist_effect :: "injector \<Rightarrow> string \<Rightarrow> jvalue \<Rightarrow> (effect_journal, unit) obj" where
  "persist_effect injector phase details = withS (\<lambda>j.
    if ej_failed j \<or> ej_sealed j \<or> ej_sequence j \<ge> maximum_records
    then throwS ''maintenance journal cannot accept another record''
    else catchS
      (bindS (inject injector phase ''before_record'') (\<lambda>_.
       bindS (readW (require_effect_directory ''maintenance journal directory changed'')) (\<lambda>_.
       bindS (readW check_predecessor) (\<lambda>_.
       let text = record_text j phase details in
       bindS (guardS (\<not> (length text > maximum_record_bytes \<or> ej_bytes j > maximum_journal_bytes - of_nat (length text)))
         ''maintenance journal exceeds its bound'') (\<lambda>_.
       bindS (onW (write_new_durable_text (path_append (ej_directory j) (path_of (effect_filename (ej_sequence j)))) text)) (\<lambda>_.
       bindS (readW (require_effect_directory ''maintenance journal directory changed after persistence'')) (\<lambda>_.
       bindS (modS (\<lambda>j. j\<lparr>ej_last_digest := sha256_canonical (object (effect_record j phase details)),
           ej_bytes := ej_bytes j + of_nat (length text), ej_sequence := ej_sequence j + 1\<rparr>)) (\<lambda>_.
       inject injector phase ''after_record'')))))))) 
      (\<lambda>e. bindS (modS (\<lambda>j. j\<lparr>ej_failed := True\<rparr>)) (\<lambda>_. rethrowS e)))"

definition begin_effect :: "injector \<Rightarrow> string \<Rightarrow> jvalue \<Rightarrow> (effect_journal, unit) obj" where
  "begin_effect injector kind details = withS (\<lambda>j.
    if ej_pending_kind j \<noteq> [] then rethrowS (Logic_error ''maintenance effect is still unresolved'')
    else bindS (readW (\<lambda>j w. validate_effect (ts_operation (ej_spec j)) kind details)) (\<lambda>_.
      bindS (modS (\<lambda>j. j\<lparr>ej_pending_sequence := ej_sequence j\<rparr>)) (\<lambda>_.
      bindS (persist_effect injector ''intent'' (object [(''kind'', JString kind), (''effect'', details)])) (\<lambda>_.
      modS (\<lambda>j. j\<lparr>ej_pending_kind := kind, ej_payload_attempted := False, ej_payload_outcome := []\<rparr>)))))"

definition completion_details :: "effect_journal \<Rightarrow> string \<Rightarrow> string \<Rightarrow> jvalue" where
  "completion_details j outcome result_digest =
    object [(''intent_sequence'', JUnsigned (ej_pending_sequence j)), (''kind'', JString (ej_pending_kind j)),
      (''outcome'', JString outcome), (''result_digest'', if result_digest = [] then JNull else JString result_digest)]"

definition persist_completion :: "injector \<Rightarrow> string \<Rightarrow> string \<Rightarrow> (effect_journal, unit) obj" where
  "persist_completion injector outcome result_digest = withS (\<lambda>j.
    bindS (readW (\<lambda>j w. validate_completion (ej_pending_kind j) outcome result_digest)) (\<lambda>_.
    bindS (persist_effect injector ''complete'' (completion_details j outcome result_digest)) (\<lambda>_.
    modS (\<lambda>j. j\<lparr>ej_pending_kind := []\<rparr>))))"

definition complete_effect :: "injector \<Rightarrow> string \<Rightarrow> string \<Rightarrow> (effect_journal, unit) obj" where
  "complete_effect injector outcome result_digest = withS (\<lambda>j.
    if ej_pending_kind j = [] then rethrowS (Logic_error ''maintenance completion has no intent'')
    else persist_completion injector outcome result_digest)"

definition apply_owned_effect :: "(effect_journal, (string \<times> string) option) obj" where
  "apply_owned_effect = withS (\<lambda>j.
    if ej_failed j \<or> ej_sealed j \<or> ej_pending_kind j = [] \<or> ej_payload_attempted j
    then throwS ''maintenance owned intent is absent, failed or already attempted'' else returnS None)"

definition apply_payload_effect :: "(effect_journal, string option) obj" where
  "apply_payload_effect = withS (\<lambda>j.
    if ej_pending_kind j \<noteq> ''backup_file'' \<and> ej_pending_kind j \<noteq> ''replace_file'' \<and> ej_pending_kind j \<noteq> ''remove_file'' \<and>
       ej_pending_kind j \<noteq> ''remove_directory''
    then throwS ''maintenance payload dispatch received a non-payload intent''
    else bindS apply_owned_effect (\<lambda>result. returnS (map_option fst result)))"

definition apply_metadata_effect :: "(effect_journal, string option) obj" where
  "apply_metadata_effect = withS (\<lambda>j.
    if ej_pending_kind j \<noteq> ''write_ownership'' \<and> ej_pending_kind j \<noteq> ''write_installed'' \<and> ej_pending_kind j \<noteq> ''append_audit''
    then throwS ''maintenance metadata dispatch received a non-metadata intent''
    else bindS apply_owned_effect (\<lambda>result. returnS (map_option snd result)))"

definition seal :: "injector \<Rightarrow> (effect_journal, unit) obj" where
  "seal injector = withS (\<lambda>j.
    if ej_pending_kind j \<noteq> [] then rethrowS (Logic_error ''maintenance journal has an unresolved intent'')
    else bindS (persist_effect injector ''sealed'' JNull) (\<lambda>_. modS (\<lambda>j. j\<lparr>ej_sealed := True\<rparr>)))"

text \<open>The constructors: a new journal writes its context record, a resumed one continues an inspected prefix.\<close>

definition fresh_effect_journal :: "transaction_spec \<Rightarrow> path \<Rightarrow> string \<Rightarrow> string \<Rightarrow> effect_journal" where
  "fresh_effect_journal spec directory identity source_digest =
    \<lparr>ej_spec = spec, ej_directory = directory, ej_directory_identity = identity, ej_source_digest = source_digest,
     ej_last_digest = [], ej_pending_kind = [], ej_pending_sequence = 0, ej_sequence = 0, ej_bytes = 0, ej_sealed = False,
     ej_failed = False, ej_payload_attempted = False, ej_payload_outcome = []\<rparr>"

definition new_effect_journal :: "injector \<Rightarrow> transaction_spec \<Rightarrow> string \<Rightarrow> effect_journal io" where
  "new_effect_journal injector spec source_context =
    bindS (liftS (\<lambda>w. validate_context w spec source_context)) (\<lambda>_.
    bindS (liftS (\<lambda>w. parse source_context default_limits)) (\<lambda>context.
    bindS (liftS (\<lambda>w. effect_directory w spec)) (\<lambda>directory.
    bindS (liftS (\<lambda>w. require_safe_directory w (parent_path directory))) (\<lambda>_.
    bindS (create_directory_exclusive (parent_path directory) (filename directory)) (\<lambda>_.
    bindS (liftS (\<lambda>w. observe_directory_identity w directory)) (\<lambda>identity.
    constructed
      (persist_effect injector ''context''
        (object [(''source_context'', JString source_context), (''directory_identity'', JString identity)]))
      (fresh_effect_journal spec directory identity (sha256_canonical context))))))))"

definition resume_effect_journal :: "world \<Rightarrow> transaction_spec \<Rightarrow> string \<Rightarrow> string \<Rightarrow> effect_journal res" where
  "resume_effect_journal w spec expected_source_digest expected_history_digest =
    bindE (inspect_effects w spec expected_source_digest False) (\<lambda>inspected.
    if \<not> effect_digest expected_history_digest \<or> ei_journal_digest inspected \<noteq> expected_history_digest \<or> ei_sealed inspected
    then throwE ''maintenance continuation snapshot changed or is sealed''
    else bindE (effect_directory w spec) (\<lambda>directory.
      Inr ((fresh_effect_journal spec directory (ei_directory_identity inspected) (ei_source_digest inspected))
        \<lparr>ej_last_digest := ei_journal_digest inspected, ej_pending_kind := ei_pending_kind inspected,
         ej_pending_sequence := ei_pending_sequence inspected, ej_sequence := ei_next_sequence inspected,
         ej_bytes := ei_serialized_bytes inspected\<rparr>)))"

end
