(* ===== verification/Usk_Recovery.thy ===== *)
theory Usk_Recovery
  imports Usk_Session Usk_Maintenance
begin

text \<open>
  Opening and reopening a transaction: the constructor of \<^verbatim>\<open>TransactionSession\<close> in its four modes, recovery
  inspection, the comparison of a journal with an earlier snapshot, streaming restart and maintenance
  finalization (\<^verbatim>\<open>runtime/setup/transaction/usk_transaction_session.cpp\<close>). \<^verbatim>\<open>require_path_capacity\<close> checks
  native length limits that the POSIX build does not have. The hash of the bytes read on reopening
  is kept for the Windows owner only and has no field.
\<close>

section \<open>The constructor\<close>

datatype resume_mode = Mode_none | Mode_finalization | Mode_rollback | Mode_maintenance_finalization

definition session_spec :: "world \<Rightarrow> transaction_spec \<Rightarrow> transaction_spec res" where
  "session_spec w spec =
    (if \<not> tx_valid_identifier (ts_transaction_id spec) \<or> \<not> tx_valid_identifier (ts_plan_id spec) \<or>
        \<not> tx_valid_sha256 (ts_plan_digest spec) \<or>
        ts_operation spec \<notin> set [''install_local'', ''repair'', ''move'', ''uninstall'', ''recovery'']
     then throwE ''transaction identity, digest, or operation is invalid''
     else normalized_inspection_spec w spec)"

definition bare_session :: "stream_journal \<Rightarrow> transaction_spec \<Rightarrow> string \<Rightarrow> transaction_session" where
  "bare_session stream_journal spec created_at =
    \<lparr>ss_spec = spec, ss_staging_root = staging_root_of spec, ss_journal_path = journal_path_of spec,
     ss_created_at = created_at, ss_current_state = [], ss_staging_identity = [],
     ss_retain_stream_cleanup = sj_present stream_journal,
     ss_retain_commit_cleanup = (ts_required_commit_authority spec = Staged_child_bound_v1),
     ss_maintenance_finalization = False, ss_verified_closure = [], ss_stream_journal = stream_journal,
     ss_staging_parent_identity = [], ss_target_parent_identity = [], ss_journal_directory_identity = [],
     ss_transitions = [], ss_staged_files = []\<rparr>"

definition safe_roots :: "transaction_spec \<Rightarrow> world \<Rightarrow> unit res" where
  "safe_roots spec w =
    bindE (tx_require_safe_directory w (ts_staging_parent spec)) (\<lambda>_.
    bindE (tx_require_safe_directory w (parent_path (ts_target_root spec))) (\<lambda>_.
    bindE (tx_require_safe_directory w (ts_state_root spec)) (\<lambda>_.
    bindE (tx_require_safe_directory w (path_append (ts_state_root spec) (path_of ''transactions''))) (\<lambda>_.
    tx_require_safe_directory w (ts_audit_root spec)))))"

definition disjoint_roots :: "transaction_spec \<Rightarrow> unit res" where
  "disjoint_roots spec =
    bindE (require_disjoint (ts_target_root spec) (ts_state_root spec)) (\<lambda>_.
    bindE (require_disjoint (ts_target_root spec) (ts_audit_root spec)) (\<lambda>_.
    require_disjoint (ts_state_root spec) (ts_audit_root spec)))"

definition observe_parents :: "transaction_session \<Rightarrow> world \<Rightarrow> transaction_session res" where
  "observe_parents s w = (let spec = ss_spec s in
    bindE (directory_identity w (ts_staging_parent spec)) (\<lambda>staging_parent.
    bindE (directory_identity w (parent_path (ts_target_root spec))) (\<lambda>target_parent.
    bindE (directory_identity w (path_append (ts_state_root spec) (path_of ''transactions''))) (\<lambda>journal_directory.
    Inr (s\<lparr>ss_staging_parent_identity := staging_parent, ss_target_parent_identity := target_parent,
      ss_journal_directory_identity := journal_directory\<rparr>)))))"

definition verify_roots_for_plan :: "transaction_session \<Rightarrow> world \<Rightarrow> transaction_session res" where
  "verify_roots_for_plan s w = (let spec = ss_spec s in
    bindE (safe_roots spec w) (\<lambda>_.
    if path_exists w (ts_target_root spec) \<or> path_exists w (ss_staging_root s)
    then throwE ''target and transaction staging roots must not already exist''
    else bindE (disjoint_roots spec) (\<lambda>_.
      if comparable_path (ss_staging_root s) = comparable_path (ts_target_root spec)
      then throwE ''staging and target roots must be distinct''
      else bindE (volume_identity w (ts_staging_parent spec)) (\<lambda>staging_volume.
        bindE (volume_identity w (parent_path (ts_target_root spec))) (\<lambda>target_volume.
        if staging_volume \<noteq> target_volume then throwE ''WU4 supports same-volume no-replace commit only''
        else observe_parents s w)))))"

definition start_transaction :: "injector \<Rightarrow> unit tx" where
  "start_transaction injector =
    bindS (readW verify_roots_for_plan) (\<lambda>verified.
    bindS (modS (\<lambda>_. verified)) (\<lambda>_.
    bindS (readW (\<lambda>s w. requireE (\<not> path_exists w (ss_journal_path s))
      ''transaction journal already exists; recovery inspection is required'')) (\<lambda>_.
    bindS (persist_transition injector ''created'') (\<lambda>_.
    bindS (persist_transition injector ''validated'') (\<lambda>_.
    bindS (persist_transition injector ''planned'') (\<lambda>_.
    bindS (persist_transition injector ''staging'') (\<lambda>_.
    create_staging_root injector)))))))"

section \<open>Reopening a journal\<close>

fun resume_transitions :: "string \<Rightarrow> transition list \<Rightarrow> string \<Rightarrow> jvalue list \<Rightarrow> transition list res" where
  "resume_transitions transaction_id transitions prior [] = Inr transitions"
| "resume_transitions transaction_id transitions prior (item # rest) =
    bindE (bindE (jat item ''sequence'') as_unsigned) (\<lambda>sequence.
    bindE (from_member item) (\<lambda>from_state.
    bindE (string_at item ''to'') (\<lambda>to_state.
    if sequence \<noteq> of_nat (length transitions) \<or> from_state \<noteq> prior \<or> \<not> valid_transition from_state to_state
    then throwE ''transaction journal transition chain is invalid''
    else bindE (string_at item ''transition_id'') (\<lambda>name.
      if name \<noteq> transaction_id @ ''.'' @ dec (unat sequence)
      then throwE ''transaction journal transition chain is invalid''
      else bindE (bindE (jat item ''durable_before_external_visibility'') as_boolean) (\<lambda>durable.
        if \<not> durable then throwE ''transaction journal transition chain is invalid''
        else bindE (string_at item ''recorded_at'') (\<lambda>recorded_at.
          resume_transitions transaction_id (transitions @
            [\<lparr>tr_sequence = sequence, tr_from = from_state, tr_to = to_state, tr_recorded_at = recorded_at\<rparr>])
            to_state rest))))))"

fun resume_staged_files :: "jvalue list \<Rightarrow> staged_file list res" where
  "resume_staged_files [] = Inr []"
| "resume_staged_files (file # rest) =
    bindE (string_at file ''relative_path'') (\<lambda>relative.
    bindE (string_at file ''sha256'') (\<lambda>sha256.
    bindE (bindE (jat file ''size_bytes'') as_unsigned) (\<lambda>size_bytes.
    if \<not> safe_relative_path (path_of relative) \<or> \<not> tx_valid_sha256 sha256
    then throwE ''transaction recovery metadata is invalid''
    else bindE (resume_staged_files rest) (\<lambda>files.
      Inr (\<lparr>sf_relative_path = path_of relative, sf_sha256 = sha256, sf_size_bytes = size_bytes\<rparr> # files)))))"

definition resume_metadata :: "jvalue \<Rightarrow> transaction_session \<Rightarrow> transaction_session res" where
  "resume_metadata document s =
    bindE (as_object document) (\<lambda>members.
    if map_of members ''recovery_metadata'' = None then Inr s
    else bindE (jat document ''recovery_metadata'') (\<lambda>metadata.
      bindE (jat metadata ''staging_identity'') (\<lambda>identity.
      bindE (if identity \<noteq> JNull then as_string identity else Inr (ss_staging_identity s)) (\<lambda>staging_identity.
      bindE (bindE (jat metadata ''staged_files'') as_array) (\<lambda>items.
      bindE (resume_staged_files items) (\<lambda>files.
      Inr (s\<lparr>ss_staging_identity := staging_identity, ss_staged_files := ss_staged_files s @ files\<rparr>)))))))"

definition resume_journal :: "string \<Rightarrow> transaction_session \<Rightarrow> world \<Rightarrow> transaction_session res" where
  "resume_journal text s w = (let spec = ss_spec s in
    bindE (parse text journal_limits) (\<lambda>document.
    bindE (binds_members document (binding_members spec)
      ''transaction journal does not bind the requested finalization'') (\<lambda>_.
    bindE (validate_commit_requirement document (ts_required_commit_authority spec)) (\<lambda>_.
    bindE (retain_commit_cleanup document) (\<lambda>retained_commit.
    bindE (check_roots spec (ss_staging_root s) document
      ''transaction journal root authority does not match recovery inputs'') (\<lambda>_.
    bindE (string_at document ''created_at'') (\<lambda>created_at.
    bindE (bindE (jat document ''transitions'') as_array) (\<lambda>items.
    bindE (resume_transitions (ts_transaction_id spec) [] [] items) (\<lambda>transitions.
    if transitions = [] then throwE ''transaction journal digest or current state is invalid''
    else bindE (string_at document ''current_state'') (\<lambda>current_state.
      if current_state \<noteq> last_state transitions then throwE ''transaction journal digest or current state is invalid''
      else bindE (string_at document ''journal_digest'') (\<lambda>digest.
        if digest \<noteq> sha256_hex (chain_text transitions)
        then throwE ''transaction journal digest or current state is invalid''
        else bindE (retain_stream_cleanup document) (\<lambda>retained_stream.
          bindE (read_stream_journal document safe_relative_path) (\<lambda>stream.
          bindE (observe_parents (s\<lparr>ss_created_at := created_at, ss_current_state := current_state,
            ss_transitions := transitions, ss_retain_commit_cleanup := retained_commit,
            ss_retain_stream_cleanup := retained_stream, ss_stream_journal := stream\<rparr>) w) (\<lambda>s.
          resume_metadata document s))))))))))))))"

text \<open>
  The conditions of a mode on the journal and the namespace. A path below a safe directory is not
  found only because it does not exist, so the error code of \<^verbatim>\<open>symlink_status\<close> decides nothing more.
\<close>

definition removed_operation_root :: "transaction_session \<Rightarrow> completed_effect \<Rightarrow> world \<Rightarrow> unit res" where
  "removed_operation_root s effect w =
    (let msg = ''maintenance finalization lacks confirmed operation-root removal'' in
     if \<not> list_ex (\<lambda>t. tr_to t = ''committed'') (ss_transitions s) \<or> ce_kind effect \<noteq> ''remove_directory'' \<or>
        ce_outcome effect \<noteq> ''applied''
     then throwE msg
     else bindE (string_at (ce_details effect) ''root_role'') (\<lambda>role.
       if role \<noteq> ''operation_target'' then throwE msg
       else bindE (string_at (ce_details effect) ''relative_path'') (\<lambda>relative.
         if relative \<noteq> [] then throwE msg
         else bindE (string_at (ce_details effect) ''native_identity'') (\<lambda>identity.
           requireE (identity = sj_publication_root_identity (ss_stream_journal s) \<and>
             lstat w (ts_target_root (ss_spec s)) = None) msg))))"

definition moved_root :: "transaction_session \<Rightarrow> completed_effect \<Rightarrow> world \<Rightarrow> unit res" where
  "moved_root s effect w =
    (let target = ts_target_root (ss_spec s); msg = ''move finalization lost its published root'' in
     if ce_kind effect \<noteq> ''append_audit'' \<or> \<not> is_directory w target \<or> reparse_or_symlink w target then throwE msg
     else bindE (directory_identity w target) (\<lambda>identity.
       requireE (identity = sj_publication_root_identity (ss_stream_journal s)) msg))"

definition maintenance_candidate :: "transaction_session \<Rightarrow> world \<Rightarrow> unit res" where
  "maintenance_candidate s w = (let spec = ss_spec s; stream = ss_stream_journal s in
    if ts_operation spec \<notin> set [''repair'', ''move'', ''uninstall''] \<or>
       ss_current_state s \<notin> set [''committing'', ''committed'', ''recovery_required'', ''completed'']
    then throwE ''transaction is not a maintenance finalization candidate''
    else bindE (inspect_effects w spec (sj_source_digest stream) True) (\<lambda>history.
      if \<not> ei_sealed history \<or> ei_pending_kind history \<noteq> [] \<or> ei_source_context history \<noteq> sj_source_context stream \<or>
         ei_completed history = [] \<or> sj_publication_root_identity stream = []
      then throwE ''maintenance finalization has no sealed original history''
      else if lstat w (ss_staging_root s) \<noteq> None
      then throwE ''maintenance finalization staging is not genuinely absent''
      else if ts_operation spec \<noteq> ''move'' then removed_operation_root s (last (ei_completed history)) w
      else moved_root s (last (ei_completed history)) w))"

definition finalization_candidate :: "transaction_session \<Rightarrow> world \<Rightarrow> unit res" where
  "finalization_candidate s w =
    requireE (ss_current_state s \<in> set [''committing'', ''committed'', ''recovery_required''] \<and> target_visible s w)
      ''transaction is not a visible-target finalization candidate''"

definition rollback_candidate :: "transaction_session \<Rightarrow> world \<Rightarrow> unit res" where
  "rollback_candidate s w =
    bindE (requireE (ss_current_state s \<in> set [''staging'', ''staged'', ''verified'', ''committing'', ''recovery_required''] \<and>
        is_directory w (ss_staging_root s) \<and> \<not> reparse_or_symlink w (ss_staging_root s) \<and>
        \<not> path_exists w (ts_target_root (ss_spec s)) \<and> ss_staging_identity s \<noteq> [] \<and>
        \<not> ss_retain_stream_cleanup s \<and> \<not> ss_retain_commit_cleanup s)
      ''transaction is not a staged rollback candidate'') (\<lambda>_.
    verify_recorded_staging_closure s w)"

definition reopen_session :: "resume_mode \<Rightarrow> transaction_session \<Rightarrow> world \<Rightarrow> transaction_session res" where
  "reopen_session mode s w = (let spec = ss_spec s in
    bindE (if mode = Mode_finalization \<or> mode = Mode_maintenance_finalization
           then require_commit_authority (ts_required_commit_authority spec) else Inr ()) (\<lambda>_.
    bindE (safe_roots spec w) (\<lambda>_.
    bindE (disjoint_roots spec) (\<lambda>_.
    bindE (read_bounded_text w (ss_journal_path s) journal_bound) (\<lambda>text.
    bindE (resume_journal text s w) (\<lambda>s.
    case mode of
      Mode_maintenance_finalization \<Rightarrow>
        bindE (maintenance_candidate s w) (\<lambda>_. Inr (s\<lparr>ss_maintenance_finalization := True\<rparr>))
    | Mode_finalization \<Rightarrow> bindE (finalization_candidate s w) (\<lambda>_. Inr s)
    | _ \<Rightarrow> bindE (rollback_candidate s w) (\<lambda>_. Inr s)))))))"

definition construct_session :: "injector \<Rightarrow> resume_mode \<Rightarrow> stream_journal \<Rightarrow> transaction_spec \<Rightarrow> transaction_session io" where
  "construct_session injector mode stream_journal spec =
    bindS (liftS (\<lambda>w. session_spec w spec)) (\<lambda>spec.
    bindS iso8601_now (\<lambda>created_at.
    let s = bare_session stream_journal spec created_at in
    if mode \<noteq> Mode_none then liftS (reopen_session mode s)
    else constructed (start_transaction injector) s))"

definition begin_streaming :: "injector \<Rightarrow> transaction_spec \<Rightarrow> string \<Rightarrow> string \<Rightarrow> transaction_session io" where
  "begin_streaming injector spec source_digest source_context =
    bindS (guardS (tx_valid_sha256 source_digest \<and> source_context \<noteq> [])
      ''initial stream source context does not match its source digest'') (\<lambda>_.
    bindS (liftS (\<lambda>w. context_bound source_context source_digest
      ''initial stream source context does not match its source digest'')) (\<lambda>_.
    construct_session injector Mode_none
      (empty_stream_journal\<lparr>sj_present := True, sj_source_digest := source_digest, sj_source_context := source_context\<rparr>)
      spec))"

definition resume_rollback :: "injector \<Rightarrow> transaction_spec \<Rightarrow> transaction_session io" where
  "resume_rollback injector spec = construct_session injector Mode_rollback empty_stream_journal spec"

definition resume_finalization :: "injector \<Rightarrow> transaction_spec \<Rightarrow> transaction_session io" where
  "resume_finalization injector spec =
    bindS (construct_session injector Mode_finalization empty_stream_journal spec) (\<lambda>s.
    bindS (liftS (\<lambda>w. let stream = ss_stream_journal s; msg = ''visible target publication identity changed or is unavailable'' in
      if \<not> sj_present stream then Inr ()
      else if sj_publication_root_identity stream = [] then throwE msg
      else bindE (directory_identity w (ts_target_root (ss_spec s))) (\<lambda>identity.
        requireE (identity = sj_publication_root_identity stream) msg))) (\<lambda>_.
    returnS s))"

section \<open>Inspecting a transaction\<close>

definition observed_inspection :: "transaction_spec \<Rightarrow> transaction_journal_metadata \<Rightarrow> world \<Rightarrow> (recovery_inspection \<times> bool) res" where
  "observed_inspection spec metadata w =
    (let staging = staging_root_of spec; target = ts_target_root spec;
         staging_exists = path_exists w staging; target_exists = path_exists w target;
         publication = sj_publication_root_identity (tm_stream metadata) in
     if staging_exists \<and> reparse_or_symlink w staging then throwE ''recovery staging root is linked or substituted''
     else if target_exists \<and> reparse_or_symlink w target then throwE ''recovery target root is linked or substituted''
     else bindE (if target_exists \<and> publication \<noteq> [] then
          bindE (directory_identity w target) (\<lambda>identity. Inr (identity \<noteq> publication)) else Inr False) (\<lambda>changed.
       Inr ((tm_inspection metadata)\<lparr>ri_staging_exists := staging_exists, ri_target_exists := target_exists\<rparr>, changed)))"

definition rollback_actions :: "transaction_spec \<Rightarrow> transaction_journal_metadata \<Rightarrow> string list io" where
  "rollback_actions spec metadata =
    catchS
      (bindS (guardS (\<not> (tm_retained_stream metadata \<or> tm_retained_commit metadata)) ''streamed staging must be retained'') (\<lambda>_.
       bindS (resume_rollback None spec) (\<lambda>_. returnS [''rollback''])))
      (\<lambda>_. returnS [''retain_for_operator''])"

definition recovery_actions ::
  "transaction_spec \<Rightarrow> transaction_journal_metadata \<Rightarrow> recovery_inspection \<Rightarrow> bool \<Rightarrow> string list io" where
  "recovery_actions spec metadata result changed =
    (let state = ri_current_state result; staging = ri_staging_exists result; target = ri_target_exists result in
     if changed then returnS [''retain_for_operator'']
     else if ts_required_commit_authority spec = Staged_child_bound_v1 then returnS [''retain_for_operator'']
     else if state \<in> set [''committing'', ''committed'', ''recovery_required''] \<and> target \<and> \<not> staging then returnS [''resume'']
     else if state \<in> set [''staging'', ''staged'', ''verified'', ''committing'', ''recovery_required''] \<and> staging \<and> \<not> target
     then rollback_actions spec metadata
     else if state \<in> set [''created'', ''validated'', ''planned'', ''staging''] \<and> \<not> staging \<and> \<not> target
     then returnS [''abandon'']
     else if state \<notin> set [''completed'', ''rolled_back'', ''refused''] then returnS [''retain_for_operator'']
     else returnS (ri_available_actions result))"

definition inspect_recovery_impl :: "transaction_spec \<Rightarrow> bool \<Rightarrow> recovery_inspection io" where
  "inspect_recovery_impl input observe_payload =
    bindS (liftS (\<lambda>w. normalized_inspection_spec w input)) (\<lambda>spec.
    bindS (liftS (\<lambda>w. read_bounded_text w (journal_path_of spec) journal_bound)) (\<lambda>text.
    bindS (liftS (\<lambda>w. decode_transaction_metadata spec text)) (\<lambda>metadata.
    if \<not> observe_payload then
      bindS (guardS (ri_current_state (tm_inspection metadata) = ''completed'')
        ''historical transaction journal is not completed'') (\<lambda>_.
      returnS (tm_inspection metadata))
    else
      bindS (liftS (observed_inspection spec metadata)) (\<lambda>(result, changed).
      bindS (recovery_actions spec metadata result changed) (\<lambda>actions.
      returnS (result\<lparr>ri_available_actions := actions\<rparr>))))))"

definition inspect_recovery :: "transaction_spec \<Rightarrow> recovery_inspection io" where
  "inspect_recovery input = inspect_recovery_impl input True"

section \<open>Reading a journal between two inspections\<close>

definition current_journal :: "world \<Rightarrow> transaction_spec \<Rightarrow> string res" where
  "current_journal w spec =
    bindE (absolute_normal w (ts_state_root spec)) (\<lambda>state_root.
    read_bounded_text w (journal_path_of (spec\<lparr>ts_state_root := state_root\<rparr>)) journal_bound)"

definition require_transition_extension_impl :: "transaction_spec \<Rightarrow> string \<Rightarrow> string \<Rightarrow> string \<Rightarrow> bool \<Rightarrow> unit io" where
  "require_transition_extension_impl spec original_text original_snapshot_sha256 expected_current_snapshot_sha256 completed_history =
    bindS (guardS (\<not> (length original_text > journal_bound \<or> \<not> tx_valid_sha256 original_snapshot_sha256 \<or>
        \<not> tx_valid_sha256 expected_current_snapshot_sha256 \<or> sha256_hex original_text \<noteq> original_snapshot_sha256))
      ''maintenance original transaction snapshot is unavailable'') (\<lambda>_.
    bindS (inspect_recovery_impl spec (\<not> completed_history)) (\<lambda>before.
    bindS (guardS (ri_snapshot_sha256 before = expected_current_snapshot_sha256 \<and> ri_commit_started before)
      ''maintenance current transaction snapshot changed'') (\<lambda>_.
    bindS (liftS (\<lambda>w. current_journal w spec)) (\<lambda>current_text.
    bindS (guardS (sha256_hex current_text = expected_current_snapshot_sha256)
      ''maintenance current transaction bytes changed'') (\<lambda>_.
    bindS (liftS (\<lambda>w. require_transition_extension_documents original_text current_text)) (\<lambda>_.
    bindS (inspect_recovery_impl spec (\<not> completed_history)) (\<lambda>after.
    guardS (ri_snapshot_sha256 after = expected_current_snapshot_sha256)
      ''maintenance transaction extension changed immutable fields or its snapshot'')))))))"

definition require_recovery_transition_extension :: "transaction_spec \<Rightarrow> string \<Rightarrow> string \<Rightarrow> string \<Rightarrow> unit io" where
  "require_recovery_transition_extension spec original_text original_snapshot_sha256 expected_current_snapshot_sha256 =
    require_transition_extension_impl spec original_text original_snapshot_sha256 expected_current_snapshot_sha256 False"

definition require_completed_transition_extension :: "transaction_spec \<Rightarrow> string \<Rightarrow> string \<Rightarrow> string \<Rightarrow> unit io" where
  "require_completed_transition_extension spec original_text original_snapshot_sha256 expected_current_snapshot_sha256 =
    require_transition_extension_impl spec original_text original_snapshot_sha256 expected_current_snapshot_sha256 True"

definition inspect_recovery_stream :: "transaction_spec \<Rightarrow> string \<Rightarrow> stream_journal io" where
  "inspect_recovery_stream spec expected_snapshot_sha256 =
    bindS (inspect_recovery spec) (\<lambda>before.
    bindS (guardS (tx_valid_sha256 expected_snapshot_sha256 \<and> ri_snapshot_sha256 before = expected_snapshot_sha256)
      ''recovery stream snapshot changed'') (\<lambda>_.
    bindS (liftS (\<lambda>w. current_journal w spec)) (\<lambda>text.
    bindS (guardS (sha256_hex text = expected_snapshot_sha256) ''recovery stream bytes changed'') (\<lambda>_.
    bindS (liftS (\<lambda>w. bindE (parse text journal_limits) (\<lambda>document. read_stream_journal document safe_relative_path))) (\<lambda>result.
    bindS (inspect_recovery spec) (\<lambda>after.
    bindS (guardS (ri_snapshot_sha256 after = expected_snapshot_sha256) ''recovery stream changed during inspection'') (\<lambda>_.
    returnS result)))))))"

definition inspect_completed_history :: "transaction_spec \<Rightarrow> completed_transaction_history io" where
  "inspect_completed_history spec =
    bindS (inspect_recovery_impl spec False) (\<lambda>before.
    bindS (liftS (\<lambda>w. current_journal w spec)) (\<lambda>text.
    bindS (guardS (sha256_hex text = ri_snapshot_sha256 before) ''historical transaction bytes changed'') (\<lambda>_.
    bindS (liftS (\<lambda>w. bindE (parse text journal_limits) (\<lambda>document. read_stream_journal document safe_relative_path))) (\<lambda>stream.
    bindS (inspect_recovery_impl spec False) (\<lambda>after.
    bindS (guardS (ri_snapshot_sha256 after = ri_snapshot_sha256 before) ''historical transaction changed during inspection'') (\<lambda>_.
    returnS \<lparr>ch_journal_digest = ri_journal_digest before, ch_recorded_at = ri_recorded_at before,
      ch_snapshot_sha256 = ri_snapshot_sha256 before, ch_stream = stream\<rparr>))))))"

section \<open>Restarting a streamed transaction\<close>

definition replayable :: "recovery_inspection \<Rightarrow> bool" where
  "replayable v \<longleftrightarrow>
    ri_current_state v \<in> set [''created'', ''validated'', ''planned'', ''staging'', ''staged'', ''verified'', ''recovery_required''] \<and>
    \<not> ri_commit_started v \<and> \<not> ri_target_exists v \<and> (ri_staging_exists v \<or> ri_publication_root_identity v = [])"

text \<open>The walk over the ancestors; the first argument is what the depth leaves of 64.\<close>

primrec check_lineage :: "nat \<Rightarrow> string \<Rightarrow> string list \<Rightarrow> transaction_spec \<Rightarrow> recovery_inspection \<Rightarrow> unit io" where
  "check_lineage 0 source_digest visited ancestor_spec ancestor =
    throwS ''stream restart lineage is cyclic or exceeds 64 journals''"
| "check_lineage (Suc remaining) source_digest visited ancestor_spec ancestor =
    (if ts_transaction_id ancestor_spec \<in> set visited
     then throwS ''stream restart lineage is cyclic or exceeds 64 journals''
     else if \<not> replayable ancestor \<or> ri_stream_source_digest ancestor \<noteq> source_digest
     then throwS ''stream restart refuses changed or uncertain ancestor state''
     else if ri_restart_origin_transaction_id ancestor = [] then returnS ()
     else
       let next_spec = ancestor_spec\<lparr>ts_transaction_id := ri_restart_origin_transaction_id ancestor\<rparr> in
       bindS (inspect_recovery next_spec) (\<lambda>next_inspection.
       bindS (guardS (ri_snapshot_sha256 next_inspection = ri_restart_origin_snapshot_sha256 ancestor)
         ''stream restart ancestor journal snapshot changed'') (\<lambda>_.
       check_lineage remaining source_digest (ts_transaction_id ancestor_spec # visited) next_spec next_inspection)))"

definition restart_streaming ::
  "injector \<Rightarrow> transaction_spec \<Rightarrow> string \<Rightarrow> string \<Rightarrow> string \<Rightarrow> transaction_session io" where
  "restart_streaming injector prior_spec new_transaction_id expected_snapshot_sha256 source_digest =
    bindS (guardS (tx_valid_identifier (ts_transaction_id prior_spec) \<and> tx_valid_identifier new_transaction_id \<and>
        new_transaction_id \<noteq> ts_transaction_id prior_spec \<and> tx_valid_sha256 expected_snapshot_sha256 \<and>
        tx_valid_sha256 source_digest) ''stream restart identity is invalid'') (\<lambda>_.
    bindS (liftS (\<lambda>w. require_commit_authority (ts_required_commit_authority prior_spec))) (\<lambda>_.
    bindS (liftS (\<lambda>w. absolute_normal w (ts_state_root prior_spec))) (\<lambda>state_root.
    let prior_path = journal_path_of (prior_spec\<lparr>ts_state_root := state_root\<rparr>) in
    bindS (liftS (\<lambda>w. stable_identity w prior_path)) (\<lambda>prior_identity.
    bindS (guardS (unat (si_size_bytes prior_identity) \<le> journal_bound)
      ''stream restart journal exceeds its bounded reader'') (\<lambda>_.
    bindS (liftS (\<lambda>w. read_exact (rd_portions (quiet_reading w prior_path)) (unat (si_size_bytes prior_identity)))) (\<lambda>text.
    bindS (guardS (sha256_hex text = expected_snapshot_sha256) ''stream restart journal snapshot changed'') (\<lambda>_.
    bindS (liftS (\<lambda>w. parse text journal_limits)) (\<lambda>document.
    bindS (inspect_recovery prior_spec) (\<lambda>inspection.
    bindS (liftS (\<lambda>w. read_stream_journal document safe_relative_path)) (\<lambda>prior_stream.
    bindS (guardS (ri_snapshot_sha256 inspection = expected_snapshot_sha256 \<and> sj_present prior_stream \<and>
        sj_source_digest prior_stream = source_digest \<and> replayable inspection)
      ''transaction is not an explicit stream replay candidate'') (\<lambda>_.
    bindS (check_lineage 64 source_digest [new_transaction_id] prior_spec inspection) (\<lambda>_.
    bindS (liftS (\<lambda>w. verify_unchanged (quiet_reading w prior_path) prior_identity)) (\<lambda>_.
    construct_session injector Mode_none
      (empty_stream_journal\<lparr>sj_present := True, sj_source_digest := source_digest,
        sj_source_context := sj_source_context prior_stream, sj_origin_transaction_id := ts_transaction_id prior_spec,
        sj_origin_snapshot_sha256 := expected_snapshot_sha256\<rparr>)
      (prior_spec\<lparr>ts_transaction_id := new_transaction_id\<rparr>))))))))))))))"

section \<open>Finalizing a maintenance transaction\<close>

definition pin_history :: "transaction_spec \<Rightarrow> string \<Rightarrow> unit tx" where
  "pin_history spec expected_history_digest =
    bindS (onW (inspect_recovery spec)) (\<lambda>current.
    bindS (readW (\<lambda>s w. inspect_effects w spec (ri_stream_source_digest current) False)) (\<lambda>history.
    bindS (readW (\<lambda>s w. render_journal s)) (\<lambda>expected_text.
    withS (\<lambda>s. guardS (\<not> (ei_journal_digest history \<noteq> expected_history_digest \<or> \<not> ei_sealed history \<or>
        ei_pending_kind history \<noteq> [] \<or> ri_current_state current \<noteq> ss_current_state s \<or>
        ri_snapshot_sha256 current \<noteq> sha256_hex expected_text))
      ''maintenance finalization changed its sealed history or transaction''))))"

definition finalization_step :: "transaction_spec \<Rightarrow> string \<Rightarrow> string \<Rightarrow> unit tx \<Rightarrow> unit tx" where
  "finalization_step spec expected_history_digest state m = withS (\<lambda>s.
    if ss_current_state s = state then bindS m (\<lambda>_. pin_history spec expected_history_digest) else returnS ())"

definition finalize_maintenance ::
  "injector \<Rightarrow> transaction_spec \<Rightarrow> string \<Rightarrow> string \<Rightarrow> recovery_inspection io" where
  "finalize_maintenance injector spec expected_snapshot_sha256 expected_history_digest =
    bindS (inspect_recovery spec) (\<lambda>before.
    bindS (guardS (tx_valid_sha256 expected_snapshot_sha256 \<and> tx_valid_sha256 expected_history_digest \<and>
        ri_snapshot_sha256 before = expected_snapshot_sha256 \<and> ri_commit_started before)
      ''maintenance finalization snapshot changed or has no committed effect'') (\<lambda>_.
    bindS (construct_session injector Mode_maintenance_finalization empty_stream_journal spec) (\<lambda>session.
    bindS (inspect_recovery spec) (\<lambda>again.
    bindS (guardS (ri_snapshot_sha256 again = expected_snapshot_sha256)
      ''maintenance finalization snapshot changed during reopening'') (\<lambda>_.
    bindS (constructed
      (bindS (pin_history spec expected_history_digest) (\<lambda>_.
       bindS (finalization_step spec expected_history_digest ''recovery_required'' (resume_committing injector)) (\<lambda>_.
       bindS (finalization_step spec expected_history_digest ''committing'' (mark_committed injector)) (\<lambda>_.
       bindS (finalization_step spec expected_history_digest ''committed'' (mark_completed injector)) (\<lambda>_.
       withS (\<lambda>s. guardS (ss_current_state s = ''completed'') ''maintenance finalization did not complete''))))))
      session) (\<lambda>_.
    inspect_recovery spec))))))"

end
