(* ===== verification/Usk_Stream_Laws.thy ===== *)
theory Usk_Stream_Laws
  imports Usk_Stream_Journal
begin

text \<open>
  Laws of the stream journal: \<open>stream_ok\<close> says which journals are well formed with respect to
  the staged closure; the reader accepts exactly the rendered well-formed journals and gives
  them back.
\<close>

section \<open>Well-formed entries\<close>

lemma stream_digest_eq: "stream_digest = valid_sha256"
proof (rule ext)
  have "(\<lambda>c. (CHR ''0'' \<le> c \<and> c \<le> CHR ''9'') \<or> (CHR ''a'' \<le> c \<and> c \<le> CHR ''f'')) = is_lower_hex"
    by (rule ext) (simp add: is_lower_hex_def isdigit_def less_eq_char_def)
  then show "stream_digest x = valid_sha256 x" for x
    by (simp only: stream_digest_def valid_sha256_def)
qed

definition staged_value :: "string \<times> string \<times> 64 word \<Rightarrow> jvalue" where
  "staged_value f = object [(''relative_path'', JString (fst f)), (''sha256'', JString (fst (snd f))),
     (''size_bytes'', JUnsigned (snd (snd f)))]"

definition entry_ok :: "(path \<Rightarrow> bool) \<Rightarrow> (string \<times> jvalue) list \<Rightarrow> stream_entry_observation \<Rightarrow> bool" where
  "entry_ok valid_path staged_files e \<longleftrightarrow>
    valid_path (path_of (so_relative_path e)) \<and> valid_sha256 (so_sha256 e) \<and> valid_sha256 (so_source_identity_digest e) \<and>
    so_phase e \<in> {''intent'', ''writing'', ''complete''} \<and>
    (if so_phase e = ''intent'' then so_output_identity e = [] else stream_identity_valid (so_output_identity e)) \<and>
    check_stream_phase staged_files e = Inr ()"

fun entries_ok :: "(path \<Rightarrow> bool) \<Rightarrow> (string \<times> jvalue) list \<Rightarrow> string list \<Rightarrow> bool \<Rightarrow> stream_entry_observation list \<Rightarrow> bool" where
  "entries_ok valid_path staged_files paths incomplete [] = True"
| "entries_ok valid_path staged_files paths incomplete (e # es) =
    (\<not> incomplete \<and> map tolower (so_relative_path e) \<notin> set paths \<and> entry_ok valid_path staged_files e \<and>
     entries_ok valid_path staged_files (map tolower (so_relative_path e) # paths) (so_phase e \<noteq> ''complete'') es)"

lemma entries_ok_facts:
  assumes "entries_ok valid_path staged_files paths incomplete es"
  shows "list_all (entry_ok valid_path staged_files) es \<and>
    distinct (map (\<lambda>e. map tolower (so_relative_path e)) es) \<and>
    set (map (\<lambda>e. map tolower (so_relative_path e)) es) \<inter> set paths = {} \<and>
    list_all (\<lambda>e. so_phase e = ''complete'') (butlast es) \<and> (incomplete \<longrightarrow> es = [])"
  using assms
proof (induction es arbitrary: paths incomplete)
  case (Cons e es)
  then have IH: "list_all (entry_ok valid_path staged_files) es"
      "distinct (map (\<lambda>e. map tolower (so_relative_path e)) es)"
      "set (map (\<lambda>e. map tolower (so_relative_path e)) es) \<inter> set (map tolower (so_relative_path e) # paths) = {}"
      "list_all (\<lambda>e. so_phase e = ''complete'') (butlast es)" "so_phase e \<noteq> ''complete'' \<longrightarrow> es = []"
    using Cons.IH [of "map tolower (so_relative_path e) # paths" "so_phase e \<noteq> ''complete''"] by simp_all
  with Cons.prems show ?case by auto
qed simp

section \<open>Reading back\<close>

lemma observation_eta:
  "\<lparr>so_relative_path = so_relative_path e, so_sha256 = so_sha256 e, so_expected_size = so_expected_size e,
    so_source_identity_digest = so_source_identity_digest e, so_phase = so_phase e,
    so_output_identity = so_output_identity e\<rparr> = e"
  by simp

lemma optional_nullable [simp]: "optional_string (nullable s) = Inr s" "nullable s = JNull \<longleftrightarrow> s = []"
  by (simp_all add: optional_string_def nullable_def)

lemma exact_keys_object: "exact_keys (object kvs) ks = requireE (fst ` set kvs = set ks) ''stream journal fields are invalid''"
  by (simp add: exact_keys_def object_names)

lemma read_rendered_observation: "read_stream_observation (render_stream_entry e) = Inr e"
  by (simp add: read_stream_observation_def render_stream_entry_def exact_keys_object string_at_def object_jat)

lemma rendered_output: "jat (render_stream_entry e) ''output_identity'' = Inr (nullable (so_output_identity e))"
  by (simp add: render_stream_entry_def object_jat)

lemma read_stream_entry_Inr:
  "read_stream_entry valid_path staged_files paths incomplete v = Inr e \<Longrightarrow>
    \<not> incomplete \<and> map tolower (so_relative_path e) \<notin> set paths \<and> entry_ok valid_path staged_files e"
  by (auto simp: read_stream_entry_def entry_ok_def stream_digest_eq read_stream_observation_def bindE_eq_Inr
      optional_string_def split: if_splits)

lemma read_rendered_entry:
  "\<not> incomplete \<Longrightarrow> map tolower (so_relative_path e) \<notin> set paths \<Longrightarrow> entry_ok valid_path staged_files e \<Longrightarrow>
    read_stream_entry valid_path staged_files paths incomplete (render_stream_entry e) = Inr e"
  by (auto simp: read_stream_entry_def read_rendered_observation rendered_output entry_ok_def stream_digest_eq)

lemma read_stream_entries_ok:
  "read_stream_entries valid_path staged_files paths incomplete vs = Inr es \<Longrightarrow>
    entries_ok valid_path staged_files paths incomplete es"
proof (induction vs arbitrary: paths incomplete es)
  case (Cons v vs)
  from Cons.prems obtain e es' where
    "read_stream_entry valid_path staged_files paths incomplete v = Inr e"
    "read_stream_entries valid_path staged_files (map tolower (so_relative_path e) # paths) (so_phase e \<noteq> ''complete'') vs = Inr es'"
    "es = e # es'"
    by (auto simp: bindE_eq_Inr)
  with read_stream_entry_Inr Cons.IH show ?case by fastforce
qed simp

lemma read_rendered_entries:
  "entries_ok valid_path staged_files paths incomplete es \<Longrightarrow>
    read_stream_entries valid_path staged_files paths incomplete (map render_stream_entry es) = Inr es"
  by (induction es arbitrary: paths incomplete) (simp_all add: read_rendered_entry)

lemma read_staged_rendered:
  assumes "distinct (map fst fs @ map fst m)" "sorted_keys m"
  shows "read_staged_map m (map staged_value fs) =
    Inr (fold (\<lambda>(k, v) m. fst (obj_emplace k v m)) (map (\<lambda>f. (fst f, staged_value f)) fs) m)"
  using assms
proof (induction fs arbitrary: m)
  case (Cons f fs)
  obtain m' b where em: "obj_emplace (fst f) (staged_value f) m = (m', b)" by fastforce
  have new: "fst f \<notin> fst ` set m" using Cons.prems by auto
  then have b: "b" using obj_emplace_inserted [OF Cons.prems(2), of "fst f" "staged_value f"] em by simp
  have "sorted_keys m'" using obj_emplace_sorted [OF Cons.prems(2), of "fst f" "staged_value f"] em by simp
  moreover have "set (map fst m') = insert (fst f) (set (map fst m))"
    using obj_emplace_keys [of "fst f" "staged_value f" m] em by simp
  moreover have "distinct (map fst m')" using \<open>sorted_keys m'\<close> by (rule sorted_keys_distinct)
  ultimately have "read_staged_map m' (map staged_value fs) =
      Inr (fold (\<lambda>(k, v) m. fst (obj_emplace k v m)) (map (\<lambda>f. (fst f, staged_value f)) fs) m')"
    using Cons.prems by (intro Cons.IH) auto
  moreover have "string_at (staged_value f) ''relative_path'' = Inr (fst f)"
    by (simp add: staged_value_def string_at_def object_jat)
  ultimately show ?case using em b by simp
qed simp

definition staged_map :: "(string \<times> string \<times> 64 word) list \<Rightarrow> (string \<times> jvalue) list" where
  "staged_map fs = obj_of (map (\<lambda>f. (fst f, staged_value f)) fs)"

lemma read_staged_map_value:
  "distinct (map fst fs) \<Longrightarrow> read_staged_map [] (map staged_value fs) = Inr (staged_map fs)"
  using read_staged_rendered [of fs "[]"] by (simp add: staged_map_def obj_of_def)

lemma map_of_staged_map:
  assumes "distinct (map fst fs)"
  shows "map_of (staged_map fs) r = map_option (\<lambda>hn. staged_value (r, hn)) (map_of fs r)"
proof -
  have "distinct (map fst (map (\<lambda>f. (fst f, staged_value f)) fs))" using assms by (simp add: o_def)
  then have "map_of (staged_map fs) r = map_of (map (\<lambda>f. (fst f, staged_value f)) fs) r"
    unfolding staged_map_def by (simp only: map_of_obj_of)
  also have "\<dots> = map_option (\<lambda>hn. staged_value (r, hn)) (map_of fs r)"
    by (induction fs) auto
  finally show ?thesis .
qed

lemma check_stream_phase_iff:
  assumes "distinct (map fst fs)"
  shows "check_stream_phase (staged_map fs) e = Inr () \<longleftrightarrow>
    map_of fs (so_relative_path e) = (if so_phase e = ''complete'' then Some (so_sha256 e, so_expected_size e) else None)"
  by (cases "map_of fs (so_relative_path e)")
    (auto simp: check_stream_phase_def map_of_staged_map [OF assms] staged_value_def string_at_def object_jat)

section \<open>The whole journal\<close>

definition stream_members :: "stream_journal \<Rightarrow> (string \<times> jvalue) list" where
  "stream_members j =
    [(''version'', JUnsigned (if sj_publication_root_identity j = [] then 1 else 2)),
     (''source_digest'', nullable (sj_source_digest j)), (''restart_origin'', render_stream_origin j),
     (''entries'', JArray (map render_stream_entry (sj_entries j)))] @
    (if sj_source_context j \<noteq> [] then [(''source_context'', JString (sj_source_context j))] else []) @
    (if sj_publication_root_identity j \<noteq> []
     then [(''publication_root_identity'', JString (sj_publication_root_identity j))] else [])"

definition sealed_stream :: "stream_journal \<Rightarrow> (string \<times> jvalue) list" where
  "sealed_stream j = stream_members j @ [(''digest'', JString (sha256_canonical (object (stream_members j))))]"

lemma stream_distinct: "distinct (map fst (stream_members j))" "distinct (map fst (sealed_stream j))"
  by (simp_all add: stream_members_def sealed_stream_def)

lemma render_stream_object: "render_stream_journal j = object (sealed_stream j)"
  by (simp add: render_stream_journal_def sealed_stream_def stream_members_def object_def Let_def obj_of_snoc)

lemma obj_erase_snoc:
  assumes "distinct (map fst (xs @ [(k, v)]))"
  shows "obj_erase k (obj_of (xs @ [(k, v)])) = obj_of xs"
proof (rule sorted_maps_eq)
  have "sorted_keys (obj_of (xs @ [(k, v)]))" by (rule sorted_keys_obj_of)
  then show "sorted_keys (obj_erase k (obj_of (xs @ [(k, v)])))"
    by (auto simp: obj_erase_def sorted_keys_def sorted_wrt_map intro: sorted_wrt_filter)
  have "map_of xs k = None" using assms by (auto simp: map_of_eq_None_iff)
  then show "map_of (obj_erase k (obj_of (xs @ [(k, v)]))) = map_of (obj_of xs)"
    using assms by (auto simp: obj_erase_def map_of_filter_key map_of_obj_of map_add_def fun_eq_iff split: option.splits)
qed (rule sorted_keys_obj_of)

lemma sealed_lookup:
  "map_of (sealed_stream j) ''version'' = Some (JUnsigned (if sj_publication_root_identity j = [] then 1 else 2))"
  "map_of (sealed_stream j) ''source_digest'' = Some (nullable (sj_source_digest j))"
  "map_of (sealed_stream j) ''restart_origin'' = Some (render_stream_origin j)"
  "map_of (sealed_stream j) ''entries'' = Some (JArray (map render_stream_entry (sj_entries j)))"
  "map_of (sealed_stream j) ''source_context'' =
    (if sj_source_context j = [] then None else Some (JString (sj_source_context j)))"
  "map_of (sealed_stream j) ''publication_root_identity'' =
    (if sj_publication_root_identity j = [] then None else Some (JString (sj_publication_root_identity j)))"
  "map_of (sealed_stream j) ''digest'' = Some (JString (sha256_canonical (object (stream_members j))))"
  by (simp_all add: sealed_stream_def stream_members_def)

lemma sealed_names:
  "fst ` set (sealed_stream j) = set ([''version'', ''source_digest'', ''restart_origin'', ''entries'', ''digest''] @
     (if sj_source_context j \<noteq> [] then [''source_context''] else []) @
     (if sj_publication_root_identity j \<noteq> [] then [''publication_root_identity''] else []))"
  by (cases "sj_source_context j = []"; cases "sj_publication_root_identity j = []")
    (simp_all add: sealed_stream_def stream_members_def set_eq_subset)

lemma sha256_canonical_valid [simp]: "valid_sha256 (sha256_canonical v)"
  using valid_sha256_hex [of "canonical v"] by (simp add: sha256_canonical_spec sha256_hex_spec)

lemma stream_seal_rendered:
  "stream_journal_seal (object (sealed_stream j)) = Inr (if sj_publication_root_identity j = [] then 1 else 2)"
proof -
  have "sha256_canonical (JObject (obj_erase ''digest'' (obj_of (sealed_stream j)))) =
      sha256_canonical (object (stream_members j))"
    unfolding sealed_stream_def object_def
    by (subst obj_erase_snoc) (use stream_distinct(2) [of j] in \<open>simp_all only: sealed_stream_def object_def\<close>)
  moreover have "as_object (object (sealed_stream j)) = Inr (obj_of (sealed_stream j))" by (simp add: object_def)
  ultimately show ?thesis
    by (simp add: stream_journal_seal_def object_jat object_contains stream_distinct sealed_lookup exact_keys_object
        string_at_def stream_digest_eq sealed_names)
qed

definition context_ok :: "string \<Rightarrow> string \<Rightarrow> bool" where
  "context_ok source_context source_digest \<longleftrightarrow> source_context = [] \<or> length source_context \<le> 16384 \<and>
    (case parse source_context default_limits of Inl _ \<Rightarrow> False
     | Inr v \<Rightarrow> canonical v = source_context \<and> sha256_canonical v = source_digest)"

definition origin_ok :: "string \<Rightarrow> stream_journal \<Rightarrow> bool" where
  "origin_ok own j \<longleftrightarrow>
    (if sj_origin_transaction_id j = [] then sj_origin_snapshot_sha256 j = []
     else valid_identifier (sj_origin_transaction_id j) \<and> sj_origin_transaction_id j \<noteq> own \<and>
       valid_sha256 (sj_origin_snapshot_sha256 j) \<and> sj_source_digest j \<noteq> [])"

definition stream_ok :: "string \<Rightarrow> (path \<Rightarrow> bool) \<Rightarrow> (string \<times> jvalue) list \<Rightarrow> stream_journal \<Rightarrow> bool" where
  "stream_ok own valid_path staged_files j \<longleftrightarrow> sj_present j \<and>
    (sj_publication_root_identity j = [] \<or> stream_identity_valid (sj_publication_root_identity j)) \<and>
    (sj_source_digest j = [] \<or> valid_sha256 (sj_source_digest j)) \<and>
    context_ok (sj_source_context j) (sj_source_digest j) \<and> origin_ok own j \<and>
    length (sj_entries j) \<le> 100000 \<and> entries_ok valid_path staged_files [] False (sj_entries j)"

lemma jat_contains: "jat v k = Inr x \<Longrightarrow> jcontains v k"
  by (cases v) (auto simp: jat_def jcontains_def throwE_def split: option.splits)

lemma rendered_jat:
  "jat (render_stream_journal j) k =
    (case map_of (sealed_stream j) k of None \<Rightarrow> throwE (''required JSON member is missing: '' @ k) | Some x \<Rightarrow> Inr x)"
  "jcontains (render_stream_journal j) k \<longleftrightarrow> map_of (sealed_stream j) k \<noteq> None"
  by (simp_all add: render_stream_object object_jat object_contains stream_distinct)

lemma read_rendered_context:
  "context_ok (sj_source_context j) d \<Longrightarrow> read_stream_context (render_stream_journal j) d = Inr (sj_source_context j)"
  by (auto simp: read_stream_context_def rendered_jat sealed_lookup string_at_def context_ok_def split: sum.splits)

lemma read_rendered_origin:
  assumes "origin_ok own j" "string_at document ''transaction_id'' = Inr own"
  shows "read_stream_origin document (render_stream_journal j) (sj_source_digest j) =
    Inr (sj_origin_transaction_id j, sj_origin_snapshot_sha256 j)"
proof (cases "sj_origin_transaction_id j = []")
  case True
  with assms show ?thesis
    by (simp add: read_stream_origin_def rendered_jat sealed_lookup render_stream_origin_def origin_ok_def)
next
  case False
  have "object [(''transaction_id'', JString a), (''snapshot_sha256'', JString b)] \<noteq> JNull" for a b
    by (simp add: object_def)
  with False assms show ?thesis
    by (simp add: read_stream_origin_def rendered_jat sealed_lookup render_stream_origin_def origin_ok_def
        exact_keys_object string_at_def object_jat stream_digest_eq)
qed

lemma read_rendered_source:
  "sj_source_digest j = [] \<or> valid_sha256 (sj_source_digest j) \<Longrightarrow>
    read_stream_source (render_stream_journal j) = Inr (sj_source_digest j)"
  by (auto simp: read_stream_source_def rendered_jat sealed_lookup stream_digest_eq)

lemma read_rendered_root:
  "sj_publication_root_identity j = [] \<or> stream_identity_valid (sj_publication_root_identity j) \<Longrightarrow>
    read_stream_root_identity (render_stream_journal j) (if sj_publication_root_identity j = [] then 1 else 2) =
    Inr (sj_publication_root_identity j)"
  by (auto simp: read_stream_root_identity_def rendered_jat sealed_lookup string_at_def)

lemma stream_round_trip:
  assumes "jat document ''recovery_metadata'' = Inr metadata" "string_at document ''transaction_id'' = Inr own"
    and "jat metadata ''stream_journal'' = Inr (render_stream_journal j)" "stream_journal_authority metadata = Inr ()"
    and "jat metadata ''staged_files'' = Inr (JArray (map staged_value fs))" "distinct (map fst fs)"
    and "stream_ok own valid_path (staged_map fs) j"
  shows "read_stream_journal document valid_path = Inr j"
  using assms read_rendered_origin [of own j document]
  by (simp add: read_stream_journal_def jat_contains read_staged_map_value stream_ok_def read_rendered_root
      read_rendered_source read_rendered_context read_rendered_entries rendered_jat sealed_lookup
      stream_seal_rendered [of j, folded render_stream_object])

section \<open>What an accepted journal guarantees\<close>

lemma obj_emplace_new:
  assumes "obj_emplace k v m = (m', True)" "sorted_keys m"
  shows "sorted_keys m'" "map_of m' = (map_of m)(k \<mapsto> v)" "map_of m k = None"
proof -
  have "k \<notin> fst ` set m" using obj_emplace_inserted [OF assms(2), of k v] assms(1) by simp
  then show "map_of m k = None" by (simp add: map_of_eq_None_iff)
  show "sorted_keys m'" using obj_emplace_sorted [OF assms(2), of k v] assms(1) by simp
  show "map_of m' = (map_of m)(k \<mapsto> v)"
    using map_of_emplace [OF assms(2) \<open>k \<notin> fst ` set m\<close>, of v] assms(1) by (auto simp: fun_eq_iff)
qed

lemma read_staged_map_lookup:
  assumes "read_staged_map m vs = Inr m'" "sorted_keys m"
  shows "map_of m' r = Some s \<longleftrightarrow> map_of m r = Some s \<or> s \<in> set vs \<and> string_at s ''relative_path'' = Inr r"
  using assms
proof (induction vs arbitrary: m)
  case (Cons v vs)
  from Cons.prems(1) obtain k where k: "string_at v ''relative_path'' = Inr k"
    "(case obj_emplace k v m of (m1, inserted) \<Rightarrow>
       if \<not> inserted then throwE ''stream journal has duplicate staged closure paths'' else read_staged_map m1 vs) = Inr m'"
    by (auto elim: bindE_InrE)
  then obtain m1 where step: "string_at v ''relative_path'' = Inr k" "obj_emplace k v m = (m1, True)"
    "read_staged_map m1 vs = Inr m'"
    by (cases "obj_emplace k v m") (auto split: if_splits)
  note new = obj_emplace_new [OF step(2) Cons.prems(2)]
  show ?case using Cons.IH [OF step(3) new(1)] new(2,3) step(1) by auto
qed simp

lemma check_stream_phase_Inr:
  "check_stream_phase staged_files e = Inr () \<Longrightarrow>
    so_phase e = ''complete'' \<longleftrightarrow> (\<exists>s. map_of staged_files (so_relative_path e) = Some s \<and>
      string_at s ''sha256'' = Inr (so_sha256 e) \<and> bindE (jat s ''size_bytes'') as_unsigned = Inr (so_expected_size e))"
  by (auto simp: check_stream_phase_def bindE_eq_Inr split: option.splits if_splits)

lemma read_stream_journal_Inr:
  assumes "read_stream_journal document valid_path = Inr j" "sj_present j"
  obtains metadata staged staged_files where
    "jat document ''recovery_metadata'' = Inr metadata" "jat metadata ''staging_identity'' = Inr JNull"
    "bindE (jat metadata ''staged_files'') as_array = Inr staged" "read_staged_map [] staged = Inr staged_files"
    "entries_ok valid_path staged_files [] False (sj_entries j)"
  using assms
  by (auto simp: read_stream_journal_def bindE_eq_Inr stream_journal_authority_def empty_stream_journal_def
      split: if_splits dest!: read_stream_entries_ok)

text \<open>
  C18. A stream journal that the reader accepts never carries rollback authority (the recorded
  staging identity is null); its paths are valid and distinct up to case; every entry but the
  last is complete; and an entry is complete exactly when the staged closure records its path
  with the same digest and size.
\<close>

theorem accepted_stream_journal:
  assumes "read_stream_journal document valid_path = Inr j" "sj_present j"
  shows "\<exists>metadata staged. jat document ''recovery_metadata'' = Inr metadata \<and>
    jat metadata ''staging_identity'' = Inr JNull \<and> bindE (jat metadata ''staged_files'') as_array = Inr staged \<and>
    distinct (map (\<lambda>e. map tolower (so_relative_path e)) (sj_entries j)) \<and>
    (\<forall>e \<in> set (butlast (sj_entries j)). so_phase e = ''complete'') \<and>
    (\<forall>e \<in> set (sj_entries j). valid_path (path_of (so_relative_path e)) \<and>
      (so_phase e = ''complete'' \<longleftrightarrow> (\<exists>s \<in> set staged. string_at s ''relative_path'' = Inr (so_relative_path e) \<and>
        string_at s ''sha256'' = Inr (so_sha256 e) \<and> bindE (jat s ''size_bytes'') as_unsigned = Inr (so_expected_size e))))"
proof -
  from assms obtain metadata staged staged_files where doc: "jat document ''recovery_metadata'' = Inr metadata"
    "jat metadata ''staging_identity'' = Inr JNull" "bindE (jat metadata ''staged_files'') as_array = Inr staged"
    "read_staged_map [] staged = Inr staged_files" "entries_ok valid_path staged_files [] False (sj_entries j)"
    by (rule read_stream_journal_Inr)
  note facts = entries_ok_facts [OF doc(5)]
  have "valid_path (path_of (so_relative_path e)) \<and> (so_phase e = ''complete'' \<longleftrightarrow>
      (\<exists>s \<in> set staged. string_at s ''relative_path'' = Inr (so_relative_path e) \<and>
        string_at s ''sha256'' = Inr (so_sha256 e) \<and> bindE (jat s ''size_bytes'') as_unsigned = Inr (so_expected_size e)))"
    if "e \<in> set (sj_entries j)" for e
  proof -
    have "entry_ok valid_path staged_files e" using facts that by (simp add: list_all_iff)
    then show ?thesis
      using check_stream_phase_Inr [of staged_files e]
        read_staged_map_lookup [OF doc(4), of "so_relative_path e"] by (auto simp: entry_ok_def sorted_keys_Nil)
  qed
  with doc facts show ?thesis by (auto simp: list_all_iff)
qed

definition sample_stream :: stream_journal where
  "sample_stream = \<lparr>sj_source_digest = [], sj_source_context = [], sj_publication_root_identity = [],
     sj_origin_transaction_id = [], sj_origin_snapshot_sha256 = [],
     sj_entries = [\<lparr>so_relative_path = ''bin/app'', so_sha256 = replicate 64 (CHR ''a''), so_expected_size = 7,
       so_source_identity_digest = replicate 64 (CHR ''b''), so_phase = ''complete'',
       so_output_identity = replicate 16 (CHR ''0'') @ '':'' @ replicate 16 (CHR ''5'')\<rparr>], sj_present = True\<rparr>"

definition sample_stream_metadata :: jvalue where
  "sample_stream_metadata = object [(''staging_identity'', JNull), (''stream_cleanup_policy'', JString ''retain_only''),
     (''stream_journal'', render_stream_journal sample_stream),
     (''staged_files'', JArray (map staged_value [(''bin/app'', replicate 64 (CHR ''a''), 7)]))]"

definition sample_stream_document :: jvalue where
  "sample_stream_document = object [(''transaction_id'', JString ''t1''), (''recovery_metadata'', sample_stream_metadata)]"

lemma sample_stream_read: "read_stream_journal sample_stream_document (\<lambda>p. \<not> is_absolute p) = Inr sample_stream"
proof (rule stream_round_trip [where fs = "[(''bin/app'', replicate 64 (CHR ''a''), 7)]" and own = "''t1''"
      and metadata = sample_stream_metadata])
  have "check_stream_phase (staged_map [(''bin/app'', replicate 64 (CHR ''a''), 7)])
      (hd (sj_entries sample_stream)) = Inr ()"
    by (subst check_stream_phase_iff) (simp_all add: sample_stream_def)
  moreover have "\<not> is_absolute (path_of ''bin/app'')" by code_simp
  moreover have "stream_identity_valid (replicate 16 (CHR ''0'') @ '':'' @ replicate 16 (CHR ''5''))" by code_simp
  moreover have "valid_sha256 (replicate 64 (CHR ''a''))" "valid_sha256 (replicate 64 (CHR ''b''))" by code_simp+
  ultimately show "stream_ok ''t1'' (\<lambda>p. \<not> is_absolute p)
      (staged_map [(''bin/app'', replicate 64 (CHR ''a''), 7)]) sample_stream"
    by (simp add: stream_ok_def sample_stream_def context_ok_def origin_ok_def entry_ok_def)
qed (simp_all add: sample_stream_document_def sample_stream_metadata_def object_jat string_at_def stream_journal_authority_def object_contains)

theorem accepted_stream_journal_witness:
  "\<exists>metadata staged. jat sample_stream_document ''recovery_metadata'' = Inr metadata \<and>
    jat metadata ''staging_identity'' = Inr JNull \<and> bindE (jat metadata ''staged_files'') as_array = Inr staged \<and>
    (\<exists>s \<in> set staged. string_at s ''relative_path'' = Inr ''bin/app'')"
  using accepted_stream_journal [OF sample_stream_read] by (auto simp: sample_stream_def)

end
