(* ===== verification/Usk_Transaction_Laws.thy ===== *)
theory Usk_Transaction_Laws
  imports Usk_Transaction Usk_Stream_Laws
begin

text \<open>
  Laws of the transaction journal. The text the session writes by hand denotes the JSON document
  \<open>journal_document\<close>; the decoder reads it back. \<open>state_chain\<close> holds of the histories that the state
  table admits, and the last section says what a decoded or extended journal guarantees.
\<close>

section \<open>The text denotes a document\<close>

definition plain_text :: "string \<Rightarrow> bool" where
  "plain_text = list_all (\<lambda>c. byte c \<ge> 0x20 \<and> c \<noteq> quote_ch \<and> c \<noteq> backslash_ch)"

lemma str_text_plain: "plain_text s \<Longrightarrow> str_text s s"
  by (induction s) (auto simp: plain_text_def intro: str_text.intros)

lemma json_lit: "plain_text s \<Longrightarrow> json_text (JString s) (lit s)"
  using json_text.string [OF str_text_plain] by (simp add: lit_def)

lemma hex_pad_two: "byte c < 0x20 \<Longrightarrow> hex_pad 2 (byte c) = [hex_char (byte c div 16), hex_char (byte c mod 16)]"
  by (simp add: numeral_2_eq_2)

lemma str_text_json_escape: "str_text s (json_escape s)"
proof (induction s)
  case (Cons c s)
  note simple = str_text.simple [OF _ Cons.IH]
  have esc: "simple_escape backslash_ch = Some backslash_ch" "simple_escape quote_ch = Some quote_ch"
    "simple_escape (CHR ''n'') = Some (CHR 0x0A)" "simple_escape (CHR ''r'') = Some (CHR 0x0D)"
    "simple_escape (CHR ''t'') = Some (CHR 0x09)"
    by code_simp+
  show ?case
    using simple [OF esc(1)] simple [OF esc(2)] simple [OF esc(3)] simple [OF esc(4)] simple [OF esc(5)]
      str_text.control [OF _ Cons.IH, of c] str_text.plain [OF _ _ _ Cons.IH, of c]
    by (auto simp: hex_pad_two)
qed (simp add: str_text.nil)

lemma json_quote: "json_text (JString s) (quote s)"
  using json_text.string [OF str_text_json_escape] by (simp add: quote_def)

lemma json_nullable: "json_text (nullable s) (if s = [] then ''null'' else quote s)"
  by (simp add: nullable_def json_quote json_text.null)

lemma json_array: "(\<And>x. x \<in> set xs \<Longrightarrow> json_text (f x) (g x)) \<Longrightarrow> json_text (JArray (map f xs)) (''['' @ commas (map g xs) @ '']'')"
  by (rule json_text.array) (auto simp: list_all2_map1 list_all2_map2 intro: list.rel_refl_strong)

text \<open>Members as triples: key, value and the text of the value.\<close>

definition members_text :: "(string \<times> jvalue \<times> string) list \<Rightarrow> string" where
  "members_text ms = ''{'' @ commas (map (\<lambda>(k, v, t). lit k @ '':'' @ t) ms) @ ''}''"

definition members_ok :: "(string \<times> jvalue \<times> string) list \<Rightarrow> bool" where
  "members_ok ms \<longleftrightarrow> list_all (\<lambda>(k, v, t). plain_text k \<and> json_text v t) ms \<and> distinct (map fst ms)"

lemma json_members:
  assumes "members_ok ms"
  shows "json_text (object (map (\<lambda>(k, v, t). (k, v)) ms)) (members_text ms)"
  unfolding object_def members_text_def
proof (rule json_text.object)
  show "distinct (map fst (map (\<lambda>(k, v, t). (k, v)) ms))"
    using assms by (simp add: members_ok_def o_def case_prod_unfold)
  have "\<exists>kt vt. str_text (fst m) kt \<and> json_text (fst (snd m)) vt \<and> lit (fst m) @ '':'' @ snd (snd m) = quote_ch # kt @ [quote_ch] @ '':'' @ vt"
    if "m \<in> set ms" for m
    using assms that
    by (rule_tac exI [of _ "fst m"], rule_tac exI [of _ "snd (snd m)"])
      (auto simp: members_ok_def list_all_iff lit_def case_prod_unfold intro: str_text_plain)
  then show "list_all2 (\<lambda>kv t. \<exists>kt vt. str_text (fst kv) kt \<and> json_text (snd kv) vt \<and> t = quote_ch # kt @ [quote_ch] @ '':'' @ vt)
      (map (\<lambda>(k, v, t). (k, v)) ms) (map (\<lambda>(k, v, t). lit k @ '':'' @ t) ms)"
    by (auto simp: list_all2_map1 list_all2_map2 case_prod_unfold intro!: list.rel_refl_strong)
qed

definition root_members :: "string \<Rightarrow> path \<Rightarrow> string \<Rightarrow> (string \<times> jvalue \<times> string) list" where
  "root_members role root classification = [(''role'', JString role, lit role),
     (''root'', JString (path_string root), quote (path_string root)),
     (''classification'', JString classification, lit classification)]"

definition transition_members :: "string \<Rightarrow> transition \<Rightarrow> (string \<times> jvalue \<times> string) list" where
  "transition_members transaction_id t =
    [(''sequence'', JUnsigned (tr_sequence t), dec (unat (tr_sequence t))),
     (''transition_id'', JString (transaction_id @ ''.'' @ dec (unat (tr_sequence t))),
       quote (transaction_id @ ''.'' @ dec (unat (tr_sequence t)))),
     (''from'', nullable (tr_from t), if tr_from t = [] then ''null'' else quote (tr_from t)),
     (''to'', JString (tr_to t), quote (tr_to t)),
     (''recorded_at'', JString (tr_recorded_at t), quote (tr_recorded_at t)),
     (''durable_before_external_visibility'', JBool True, ''true'')]"

definition staged_members :: "staged_file \<Rightarrow> (string \<times> jvalue \<times> string) list" where
  "staged_members f =
    [(''relative_path'', JString (path_string (sf_relative_path f)), quote (path_string (sf_relative_path f))),
     (''sha256'', JString (sf_sha256 f), quote (sf_sha256 f)),
     (''size_bytes'', JUnsigned (sf_size_bytes f), dec (unat (sf_size_bytes f)))]"

definition members_value :: "(string \<times> jvalue \<times> string) list \<Rightarrow> jvalue" where
  "members_value ms = object (map (\<lambda>(k, v, t). (k, v)) ms)"

definition metadata_members :: "transaction_session \<Rightarrow> (string \<times> jvalue \<times> string) list" where
  "metadata_members s =
    (let identity = (if ss_retain_stream_cleanup s \<or> ss_retain_commit_cleanup s then [] else ss_staging_identity s) in
     [(''staging_identity'', nullable identity, if identity = [] then ''null'' else quote identity)] @
     (if ss_retain_stream_cleanup s then [(''stream_cleanup_policy'', JString ''retain_only'', lit ''retain_only'')] else []) @
     (if ss_retain_commit_cleanup s then [(''commit_cleanup_policy'', JString ''retain_only'', lit ''retain_only'')] else []) @
     (if sj_present (ss_stream_journal s)
      then [(''stream_journal'', render_stream_journal (ss_stream_journal s), canonical (render_stream_journal (ss_stream_journal s)))]
      else []) @
     [(''staged_files'', JArray (map (\<lambda>f. members_value (staged_members f)) (ss_staged_files s)),
       ''['' @ commas (map render_staged_file (ss_staged_files s)) @ '']'')])"

definition recovery_members :: "transaction_session \<Rightarrow> (string \<times> jvalue \<times> string) list" where
  "recovery_members s =
    (let actions = recorded_actions (ss_retain_stream_cleanup s \<or> ss_retain_commit_cleanup s) (ss_current_state s);
         required = (ss_current_state s = ''recovery_required'' \<or> ss_current_state s = ''failed'') in
     [(''required'', JBool required, if required then ''true'' else ''false''),
      (''available_actions'', JArray (map JString actions), ''['' @ commas (map quote actions) @ '']'')])"

definition journal_roots :: "transaction_session \<Rightarrow> (string \<times> path \<times> string) list" where
  "journal_roots s =
    [(''target'', ts_target_root (ss_spec s), ''operator_selected_owned_target''),
     (''staging'', ss_staging_root s, ''setup_owned''), (''setup_state'', ts_state_root (ss_spec s), ''setup_owned''),
     (''audit'', ts_audit_root (ss_spec s), ''audit_owned'')]"

definition journal_members :: "transaction_session \<Rightarrow> (string \<times> jvalue \<times> string) list" where
  "journal_members s = (let spec = ss_spec s; tid = ts_transaction_id spec; text = (\<lambda>k v. (k, JString v, quote v)) in
     [(''schema'', JString ''usk.transaction_journal.v1'', lit ''usk.transaction_journal.v1''),
      text ''journal_id'' (''journal.'' @ tid), text ''journal_digest'' (sha256_hex (chain_text (ss_transitions s))),
      text ''transaction_id'' tid, text ''plan_id'' (ts_plan_id spec), text ''plan_digest'' (ts_plan_digest spec),
      text ''operation'' (ts_operation spec), text ''current_state'' (ss_current_state s),
      text ''created_at'' (ss_created_at s), text ''updated_at'' (tr_recorded_at (last (ss_transitions s))),
      (''roots'', JArray (map (\<lambda>(role, root, c). members_value (root_members role root c)) (journal_roots s)),
        ''['' @ commas (map (\<lambda>(role, root, c). render_root role root c) (journal_roots s)) @ '']'')] @
     (if ts_required_commit_authority spec = Staged_child_bound_v1
      then [(''required_commit_authority'', JString ''staged_child_bound_v1'', lit ''staged_child_bound_v1'')] else []) @
     [(''transitions'', JArray (map (\<lambda>t. members_value (transition_members tid t)) (ss_transitions s)),
        ''['' @ commas (map (render_transition tid) (ss_transitions s)) @ '']''),
      (''recovery_metadata'', members_value (metadata_members s), render_metadata s),
      (''recovery'', members_value (recovery_members s), render_recovery s)])"

definition journal_document :: "transaction_session \<Rightarrow> jvalue" where
  "journal_document s = members_value (journal_members s)"

lemma render_members:
  "render_root role root c = members_text (root_members role root c)"
  "render_transition tid t = members_text (transition_members tid t)"
  "render_staged_file f = members_text (staged_members f)"
  "render_recovery s = members_text (recovery_members s)"
  by (simp_all add: render_root_def root_members_def members_text_def render_transition_def transition_members_def
      render_staged_file_def staged_members_def render_recovery_def recovery_members_def Let_def lit_def)

lemma render_metadata_members: "render_metadata s = members_text (metadata_members s)"
  by (cases "ss_retain_stream_cleanup s"; cases "ss_retain_commit_cleanup s"; cases "sj_present (ss_stream_journal s)")
    (simp_all add: render_metadata_def metadata_members_def members_text_def Let_def)

lemma journal_text_members: "journal_text s = members_text (journal_members s)"
  by (cases "ts_required_commit_authority (ss_spec s)")
    (simp_all add: journal_text_def journal_members_def members_text_def journal_roots_def Let_def)

lemma plain_keys:
  "plain_text ''usk.transaction_journal.v1''" "plain_text ''retain_only''" "plain_text ''staged_child_bound_v1''"
  "plain_text ''target''" "plain_text ''staging''" "plain_text ''setup_state''" "plain_text ''audit''"
  "plain_text ''operator_selected_owned_target''" "plain_text ''setup_owned''" "plain_text ''audit_owned''"
  by code_simp+

lemma members_ok_root: "plain_text role \<Longrightarrow> plain_text c \<Longrightarrow> members_ok (root_members role root c)"
  by (simp add: members_ok_def root_members_def json_lit json_quote plain_text_def)

lemma members_ok_transition: "members_ok (transition_members tid t)"
  using json_text.bool [of True]
  by (simp add: members_ok_def transition_members_def json_quote json_nullable json_text.unsigned plain_text_def)

lemma members_ok_staged: "members_ok (staged_members f)"
  by (simp add: members_ok_def staged_members_def json_quote json_text.unsigned plain_text_def)

lemma members_ok_recovery: "members_ok (recovery_members s)"
  using json_text.bool json_array [of _ JString quote] json_quote
  by (simp add: members_ok_def recovery_members_def Let_def plain_text_def)

lemma nullable_wf [simp]: "wf_json (nullable s)"
  by (simp add: nullable_def)

lemma wf_stream: "wf_json (render_stream_journal j)"
proof -
  have "wf_json (render_stream_entry e)" for e
    by (simp add: render_stream_entry_def object_wf)
  moreover have "wf_json (render_stream_origin j)" by (simp add: render_stream_origin_def object_wf)
  ultimately have "list_all (\<lambda>kv. wf_json (snd kv)) (sealed_stream j)"
    by (auto simp: sealed_stream_def stream_members_def list_all_iff)
  then show ?thesis by (simp add: render_stream_object object_wf stream_distinct)
qed

lemma json_members_value: "members_ok ms \<Longrightarrow> json_text (members_value ms) (members_text ms)"
  unfolding members_value_def by (rule json_members)

lemma members_ok_metadata: "members_ok (metadata_members s)"
proof -
  have "json_text (JArray (map (\<lambda>f. members_value (staged_members f)) (ss_staged_files s)))
      (''['' @ commas (map render_staged_file (ss_staged_files s)) @ '']'')"
    by (rule json_array) (simp add: render_members json_members_value members_ok_staged)
  moreover have "json_text (nullable identity) (if identity = [] then ''null'' else quote identity)" for identity
    by (rule json_nullable)
  moreover have "json_text (render_stream_journal j) (canonical (render_stream_journal j))" for j
    by (rule json_text_canonical) (rule wf_stream)
  moreover have "json_text (JString ''retain_only'') (lit ''retain_only'')" by (rule json_lit) (rule plain_keys)
  ultimately show ?thesis by (simp add: members_ok_def metadata_members_def Let_def plain_text_def)
qed

lemma members_ok_journal: "members_ok (journal_members s)"
proof -
  have "json_text (JArray (map (\<lambda>(role, root, c). members_value (root_members role root c)) (journal_roots s)))
      (''['' @ commas (map (\<lambda>(role, root, c). render_root role root c) (journal_roots s)) @ '']'')"
    by (rule json_array)
      (auto simp: journal_roots_def render_members plain_keys intro!: json_members_value members_ok_root)
  moreover have "json_text (JArray (map (\<lambda>t. members_value (transition_members tid t)) ts))
      (''['' @ commas (map (render_transition tid) ts) @ '']'')" for tid ts
    by (rule json_array) (simp add: render_members json_members_value members_ok_transition)
  moreover have "json_text (members_value (metadata_members s)) (render_metadata s)"
    by (simp add: render_metadata_members json_members_value members_ok_metadata)
  moreover have "json_text (members_value (recovery_members s)) (render_recovery s)"
    by (simp add: render_members json_members_value members_ok_recovery)
  moreover have "json_text (JString ''usk.transaction_journal.v1'') (lit ''usk.transaction_journal.v1'')"
    "json_text (JString ''staged_child_bound_v1'') (lit ''staged_child_bound_v1'')"
    by (rule json_lit, rule plain_keys)+
  ultimately show ?thesis by (simp add: members_ok_def journal_members_def Let_def plain_text_def json_quote)
qed

lemma json_journal: "json_text (journal_document s) (journal_text s)"
  unfolding journal_text_members journal_document_def by (rule json_members_value) (rule members_ok_journal)

lemma parse_journal:
  "decides (parse (journal_text s) journal_limits) (fits journal_limits (length (journal_text s)) (journal_document s))
     (journal_document s)"
  using parse_decides [OF json_journal, of s journal_limits] by (simp add: fits_def)

section \<open>Members of the document\<close>

lemma members_jat:
  assumes "members_ok ms"
  shows "jat (members_value ms) k = (case map_of ms k of
      None \<Rightarrow> throwE (''required JSON member is missing: '' @ k) | Some (v, t) \<Rightarrow> Inr v)"
    and "jcontains (members_value ms) k \<longleftrightarrow> map_of ms k \<noteq> None"
proof -
  have "map_of (map (\<lambda>(k, v, t). (k, v)) ms) k = map_option fst (map_of ms k)" by (induction ms) auto
  moreover have "distinct (map fst (map (\<lambda>(k, v, t). (k, v)) ms))"
    using assms by (simp add: members_ok_def o_def case_prod_unfold)
  ultimately show "jat (members_value ms) k = (case map_of ms k of
      None \<Rightarrow> throwE (''required JSON member is missing: '' @ k) | Some (v, t) \<Rightarrow> Inr v)"
    "jcontains (members_value ms) k \<longleftrightarrow> map_of ms k \<noteq> None"
    by (auto simp: members_value_def object_jat object_contains split: option.splits)
qed

lemma journal_jat:
  "jat (journal_document s) ''schema'' = Inr (JString ''usk.transaction_journal.v1'')"
  "jat (journal_document s) ''transaction_id'' = Inr (JString (ts_transaction_id (ss_spec s)))"
  "jat (journal_document s) ''plan_id'' = Inr (JString (ts_plan_id (ss_spec s)))"
  "jat (journal_document s) ''plan_digest'' = Inr (JString (ts_plan_digest (ss_spec s)))"
  "jat (journal_document s) ''operation'' = Inr (JString (ts_operation (ss_spec s)))"
  "jat (journal_document s) ''current_state'' = Inr (JString (ss_current_state s))"
  "jat (journal_document s) ''created_at'' = Inr (JString (ss_created_at s))"
  "jat (journal_document s) ''updated_at'' = Inr (JString (tr_recorded_at (last (ss_transitions s))))"
  "jat (journal_document s) ''journal_digest'' = Inr (JString (sha256_hex (chain_text (ss_transitions s))))"
  "jat (journal_document s) ''roots'' =
    Inr (JArray (map (\<lambda>(role, root, c). members_value (root_members role root c)) (journal_roots s)))"
  "jat (journal_document s) ''transitions'' =
    Inr (JArray (map (\<lambda>t. members_value (transition_members (ts_transaction_id (ss_spec s)) t)) (ss_transitions s)))"
  "jat (journal_document s) ''recovery_metadata'' = Inr (members_value (metadata_members s))"
  "jat (journal_document s) ''recovery'' = Inr (members_value (recovery_members s))"
  "jcontains (journal_document s) ''required_commit_authority'' \<longleftrightarrow>
    ts_required_commit_authority (ss_spec s) = Staged_child_bound_v1"
  "ts_required_commit_authority (ss_spec s) = Staged_child_bound_v1 \<Longrightarrow>
    jat (journal_document s) ''required_commit_authority'' = Inr (JString ''staged_child_bound_v1'')"
  unfolding journal_document_def
  by (simp_all add: members_jat members_ok_journal) (simp_all add: journal_members_def Let_def)

lemma metadata_jat:
  "jat (members_value (metadata_members s)) ''staging_identity'' =
    Inr (nullable (if ss_retain_stream_cleanup s \<or> ss_retain_commit_cleanup s then [] else ss_staging_identity s))"
  "jat (members_value (metadata_members s)) ''staged_files'' =
    Inr (JArray (map (\<lambda>f. members_value (staged_members f)) (ss_staged_files s)))"
  "jcontains (members_value (metadata_members s)) ''stream_cleanup_policy'' \<longleftrightarrow> ss_retain_stream_cleanup s"
  "ss_retain_stream_cleanup s \<Longrightarrow>
    jat (members_value (metadata_members s)) ''stream_cleanup_policy'' = Inr (JString ''retain_only'')"
  "jcontains (members_value (metadata_members s)) ''commit_cleanup_policy'' \<longleftrightarrow> ss_retain_commit_cleanup s"
  "ss_retain_commit_cleanup s \<Longrightarrow>
    jat (members_value (metadata_members s)) ''commit_cleanup_policy'' = Inr (JString ''retain_only'')"
  "jcontains (members_value (metadata_members s)) ''stream_journal'' \<longleftrightarrow> sj_present (ss_stream_journal s)"
  "sj_present (ss_stream_journal s) \<Longrightarrow>
    jat (members_value (metadata_members s)) ''stream_journal'' = Inr (render_stream_journal (ss_stream_journal s))"
  by (simp_all add: members_jat members_ok_metadata) (simp_all add: metadata_members_def Let_def)

lemma transition_jat:
  "jat (members_value (transition_members tid t)) ''from'' = Inr (nullable (tr_from t))"
  "string_at (members_value (transition_members tid t)) ''to'' = Inr (tr_to t)"
  "string_at (members_value (transition_members tid t)) ''recorded_at'' = Inr (tr_recorded_at t)"
  "jat (members_value (transition_members tid t)) ''sequence'' = Inr (JUnsigned (tr_sequence t))"
  "string_at (members_value (transition_members tid t)) ''transition_id'' = Inr (tid @ ''.'' @ dec (unat (tr_sequence t)))"
  "jat (members_value (transition_members tid t)) ''durable_before_external_visibility'' = Inr (JBool True)"
  by (simp_all add: members_jat members_ok_transition string_at_def) (simp_all add: transition_members_def)

lemma transition_from: "from_member (members_value (transition_members tid t)) = Inr (tr_from t)"
  by (simp add: from_member_def string_at_def transition_jat nullable_def)

lemma staged_members_value:
  "members_value (staged_members f) = staged_value (path_string (sf_relative_path f), sf_sha256 f, sf_size_bytes f)"
  by (simp add: members_value_def staged_members_def staged_value_def)

section \<open>The chain of transitions\<close>

fun state_chain :: "string \<Rightarrow> 64 word \<Rightarrow> transition list \<Rightarrow> bool" where
  "state_chain prior n [] = True"
| "state_chain prior n (t # ts) =
    (tr_sequence t = n \<and> tr_from t = prior \<and> valid_transition prior (tr_to t) \<and> state_chain (tr_to t) (n + 1) ts)"

lemma transition_eta:
  "\<lparr>tr_sequence = tr_sequence t, tr_from = tr_from t, tr_to = tr_to t, tr_recorded_at = tr_recorded_at t\<rparr> = t"
  by simp

lemma decode_rendered_transitions:
  "state_chain prior n ts \<Longrightarrow>
    decode_transitions tid prior n (map (\<lambda>t. members_value (transition_members tid t)) ts) = Inr ts"
  by (induction ts arbitrary: prior n) (auto simp: transition_jat transition_from)

lemma decode_transitions_chain:
  "decode_transitions tid prior n items = Inr ts \<Longrightarrow> state_chain prior n ts \<and> length ts = length items"
proof (induction items arbitrary: prior n ts)
  case (Cons item items)
  from Cons.prems obtain t ts' where "ts = t # ts'" "tr_sequence t = n" "tr_from t = prior"
    "valid_transition prior (tr_to t)" "decode_transitions tid (tr_to t) (n + 1) items = Inr ts'"
    by (auto simp: bindE_eq_Inr split: if_splits)
  with Cons.IH show ?case by simp
qed simp

lemma state_chain_append:
  "state_chain prior n (ts @ us) \<longleftrightarrow> state_chain prior n ts \<and>
    state_chain (if ts = [] then prior else tr_to (last ts)) (n + of_nat (length ts)) us"
  by (induction ts arbitrary: prior n) (auto simp: ac_simps)

lemma state_chain_snoc:
  assumes "state_chain [] 0 ts" "valid_transition (last_state ts) to_state"
  shows "state_chain [] 0 (ts @ [\<lparr>tr_sequence = of_nat (length ts), tr_from = last_state ts, tr_to = to_state, tr_recorded_at = at\<rparr>])"
  using assms by (simp add: state_chain_append last_state_def)

section \<open>Reading the journal back\<close>

lemma read_roots_rendered:
  assumes "distinct (map fst rs @ map fst m)" "sorted_keys m" "list_all (\<lambda>(role, root, c). plain_text role \<and> plain_text c) rs"
  shows "read_roots m (map (\<lambda>(role, root, c). members_value (root_members role root c)) rs) =
    Inr (fold (\<lambda>(k, v) m. fst (obj_emplace k v m)) (map (\<lambda>(role, root, c). (role, path_string root)) rs) m)"
  using assms
proof (induction rs arbitrary: m)
  case (Cons r rs)
  obtain role root c where r: "r = (role, root, c)" by (cases r)
  obtain m' b where em: "obj_emplace role (path_string root) m = (m', b)" by fastforce
  have "role \<notin> fst ` set m" using Cons.prems(1) r by auto
  then have b: "b" using obj_emplace_inserted [OF Cons.prems(2), of role "path_string root"] em by simp
  have sorted: "sorted_keys m'" using obj_emplace_sorted [OF Cons.prems(2), of role "path_string root"] em by simp
  have "set (map fst m') = insert role (set (map fst m))" using obj_emplace_keys [of role "path_string root" m] em by simp
  with Cons.prems r sorted_keys_distinct [OF sorted]
  have "read_roots m' (map (\<lambda>(role, root, c). members_value (root_members role root c)) rs) =
    Inr (fold (\<lambda>(k, v) m. fst (obj_emplace k v m)) (map (\<lambda>(role, root, c). (role, path_string root)) rs) m')"
    by (intro Cons.IH [OF _ sorted]) auto
  moreover have "members_ok (root_members role root c)" using Cons.prems(3) r by (simp add: members_ok_root)
  then have "string_at (members_value (root_members role root c)) ''role'' = Inr role"
    "string_at (members_value (root_members role root c)) ''root'' = Inr (path_string root)"
    by (simp_all add: string_at_def members_jat) (simp_all add: root_members_def)
  ultimately show ?case using em b r by simp
qed simp

lemma length_obj_of: "distinct (map fst kvs) \<Longrightarrow> length (obj_of kvs) = length kvs"
  using mset_obj_of [of kvs] by (metis size_mset)

lemma check_rendered_roots:
  assumes "ss_staging_root s = staging" "ss_spec s = spec"
  shows "check_roots spec staging (journal_document s) msg = Inr ()"
proof -
  let ?kvs = "map (\<lambda>(role, root, c). (role, path_string root)) (journal_roots s)"
  have "read_roots [] (map (\<lambda>(role, root, c). members_value (root_members role root c)) (journal_roots s)) = Inr (obj_of ?kvs)"
    using read_roots_rendered [of "journal_roots s" "[]"] by (simp add: journal_roots_def plain_keys obj_of_def)
  moreover have distinct: "distinct (map fst ?kvs)" by (simp add: journal_roots_def)
  have "root_text (obj_of ?kvs) r = (case map_of ?kvs r of None \<Rightarrow> [] | Some t \<Rightarrow> t)" for r
    unfolding root_text_def map_of_obj_of [OF distinct] ..
  moreover have "length (obj_of ?kvs) = 4" using length_obj_of [OF distinct] by (simp add: journal_roots_def)
  ultimately show ?thesis
    using assms by (simp add: check_roots_def journal_jat) (simp add: journal_roots_def)
qed

text \<open>Every value takes a byte and a separator, so the value budget of the reader follows from its byte budget.\<close>

lemma length_commas_ge: "ts \<noteq> [] \<Longrightarrow> Suc (length (commas ts)) = sum_list (map (\<lambda>t. Suc (length t)) ts)"
  by (induction ts rule: commas.induct) auto

lemma sum_list_all2:
  "list_all2 (\<lambda>x y. (f x :: nat) \<le> g y) xs ys \<Longrightarrow> sum_list (map f xs) \<le> sum_list (map g ys)"
  by (induction rule: list_all2_induct) auto

lemma json_text_count: "json_text v t \<Longrightarrow> 2 * value_count v \<le> Suc (length t)"
proof (induction rule: json_text.induct)
  case (unsigned w)
  then show ?case using dec_nonempty [of "unat w"] by (cases "dec (unat w)") auto
next
  case (array vs ts)
  then have "list_all2 (\<lambda>v t. 2 * value_count v \<le> Suc (length t)) vs ts" by (auto elim: list.rel_mono_strong)
  then have "sum_list (map (\<lambda>v. 2 * value_count v) vs) \<le> sum_list (map (\<lambda>t. Suc (length t)) ts)"
    by (rule sum_list_all2)
  moreover have "ts = [] \<Longrightarrow> vs = []" using array by auto
  ultimately show ?case by (cases "ts = []") (simp_all add: length_commas_ge sum_list_const_mult)
next
  case (object kvs ts)
  then have "list_all2 (\<lambda>kv t. 2 * value_count (snd kv) \<le> Suc (length t)) kvs ts"
    by (auto elim!: list.rel_mono_strong)
  then have "sum_list (map (\<lambda>kv. 2 * value_count (snd kv)) kvs) \<le> sum_list (map (\<lambda>t. Suc (length t)) ts)"
    by (rule sum_list_all2)
  moreover have "value_count (JObject (obj_of kvs)) = Suc (sum_list (map (\<lambda>kv. value_count (snd kv)) kvs))"
    using object_count object.hyps by (simp add: object_def del: value_count.simps)
  moreover have "ts = [] \<Longrightarrow> kvs = []" using object by auto
  ultimately show ?case
    by (cases "ts = []") (simp_all add: length_commas_ge sum_list_const_mult del: value_count.simps)
qed auto

lemma journal_fits:
  assumes "length (journal_text s) \<le> journal_bound"
  shows "fits journal_limits (length (journal_text s)) (journal_document s) \<longleftrightarrow> shape_ok journal_limits 0 (journal_document s)"
  using json_text_count [OF json_journal [of s]] assms by (auto simp: fits_def journal_limits_def journal_bound_def)

definition staged_triples :: "transaction_session \<Rightarrow> (string \<times> string \<times> 64 word) list" where
  "staged_triples s = map (\<lambda>f. (path_string (sf_relative_path f), sf_sha256 f, sf_size_bytes f)) (ss_staged_files s)"

definition stream_part_ok :: "transaction_session \<Rightarrow> bool" where
  "stream_part_ok s \<longleftrightarrow>
    (if sj_present (ss_stream_journal s)
     then ss_retain_stream_cleanup s \<and> distinct (map fst (staged_triples s)) \<and>
       stream_ok (ts_transaction_id (ss_spec s)) safe_relative_path (staged_map (staged_triples s)) (ss_stream_journal s)
     else ss_stream_journal s = empty_stream_journal)"

definition journal_ok :: "transaction_session \<Rightarrow> bool" where
  "journal_ok s \<longleftrightarrow> ss_transitions s \<noteq> [] \<and> length (ss_transitions s) < 2 ^ 64 \<and> state_chain [] 0 (ss_transitions s) \<and>
    ss_current_state s = last_state (ss_transitions s) \<and> ss_staging_root s = staging_root_of (ss_spec s) \<and>
    (ts_required_commit_authority (ss_spec s) = Staged_child_bound_v1 \<longrightarrow> ss_retain_commit_cleanup s) \<and> stream_part_ok s"

definition journal_metadata :: "transaction_session \<Rightarrow> transaction_journal_metadata" where
  "journal_metadata s = (let ts = ss_transitions s; stream = ss_stream_journal s in
    \<lparr>tm_inspection = \<lparr>ri_current_state = ss_current_state s, ri_journal_digest = sha256_hex (chain_text ts),
       ri_recorded_at = tr_recorded_at (last ts), ri_snapshot_sha256 = sha256_hex (journal_text s),
       ri_stream_source_digest = sj_source_digest stream, ri_stream_source_context = sj_source_context stream,
       ri_publication_root_identity = sj_publication_root_identity stream,
       ri_restart_origin_transaction_id = sj_origin_transaction_id stream,
       ri_restart_origin_snapshot_sha256 = sj_origin_snapshot_sha256 stream,
       ri_staging_exists = False, ri_target_exists = False,
       ri_commit_started = list_ex (\<lambda>t. tr_to t = ''committing'' \<or> tr_to t = ''committed'' \<or> tr_to t = ''completed'') ts,
       ri_commit_confirmed = list_ex (\<lambda>t. tr_to t = ''committed'' \<or> tr_to t = ''completed'') ts,
       ri_available_actions = []\<rparr>,
     tm_stream = stream, tm_retained_stream = ss_retain_stream_cleanup s, tm_retained_commit = ss_retain_commit_cleanup s\<rparr>)"

lemma read_rendered_retention:
  "retain_commit_cleanup (journal_document s) = Inr (ss_retain_commit_cleanup s)"
  "retain_stream_cleanup (journal_document s) = Inr (ss_retain_stream_cleanup s)"
proof -
  have contains: "jcontains (journal_document s) ''recovery_metadata''"
    by (rule jat_contains) (rule journal_jat)
  show "retain_commit_cleanup (journal_document s) = Inr (ss_retain_commit_cleanup s)"
    using contains by (simp add: retain_commit_cleanup_def journal_jat metadata_jat string_at_def)
  have test: "bindE (as_object (members_value ms)) (\<lambda>m. if map_of m k = None then x else y) =
      (if jcontains (members_value ms) k then y else x)" for ms k and x y :: "'a res"
    by (simp add: members_value_def object_def jcontains_object)
  have "retain_stream_cleanup (journal_document s) = bindE (jat (journal_document s) ''recovery_metadata'') (\<lambda>metadata.
      bindE (as_object metadata) (\<lambda>fields.
      if map_of fields ''stream_cleanup_policy'' = None then Inr False
      else bindE (string_at metadata ''stream_cleanup_policy'') (\<lambda>policy.
        if policy \<noteq> ''retain_only'' then throwE ''stream cleanup policy or rollback authority is invalid''
        else bindE (jat metadata ''staging_identity'') (\<lambda>identity.
          if identity \<noteq> JNull then throwE ''stream cleanup policy or rollback authority is invalid'' else Inr True))))"
    using contains unfolding retain_stream_cleanup_def journal_document_def test by simp
  also have "\<dots> = Inr (ss_retain_stream_cleanup s)"
    by (simp add: journal_jat test metadata_jat string_at_def)
  finally show "retain_stream_cleanup (journal_document s) = Inr (ss_retain_stream_cleanup s)" .
qed

lemma check_rendered_requirement:
  "ts_required_commit_authority (ss_spec s) = Staged_child_bound_v1 \<longrightarrow> ss_retain_commit_cleanup s \<Longrightarrow>
    validate_commit_requirement (journal_document s) (ts_required_commit_authority (ss_spec s)) = Inr ()"
  by (cases "ts_required_commit_authority (ss_spec s)")
    (simp_all add: validate_commit_requirement_def journal_jat read_rendered_retention string_at_def Let_def)

lemma staged_files_value: "JArray (map (\<lambda>f. members_value (staged_members f)) (ss_staged_files s)) = JArray (map staged_value (staged_triples s))"
  by (simp add: staged_triples_def staged_members_value)

lemma read_rendered_stream:
  assumes "stream_part_ok s"
  shows "read_stream_journal (journal_document s) safe_relative_path = Inr (ss_stream_journal s)"
proof (cases "sj_present (ss_stream_journal s)")
  case True
  show ?thesis
  proof (rule stream_round_trip [where fs = "staged_triples s" and own = "ts_transaction_id (ss_spec s)"
        and metadata = "members_value (metadata_members s)"])
    show "stream_journal_authority (members_value (metadata_members s)) = Inr ()"
      using assms True by (simp add: stream_journal_authority_def metadata_jat string_at_def stream_part_ok_def)
  qed (use assms True in \<open>simp_all add: journal_jat metadata_jat string_at_def stream_part_ok_def staged_files_value\<close>)
next
  case False
  with assms show ?thesis
    by (simp add: read_stream_journal_def journal_jat metadata_jat stream_part_ok_def)
qed

lemma word_length_zero: "length xs < 2 ^ 64 \<Longrightarrow> (of_nat (length xs) :: 64 word) = 0 \<longleftrightarrow> xs = []"
  using nat_dvd_not_less [of "length xs" "2 ^ 64"] by (auto simp: word_of_nat_eq_0_iff)

lemma decode_journal_document:
  assumes "journal_ok s" "parse text journal_limits = Inr (journal_document s)" "text = journal_text s"
  shows "decode_transaction_metadata (ss_spec s) text = Inr (journal_metadata s)"
proof -
  have ok: "ss_transitions s \<noteq> []" "(of_nat (length (ss_transitions s)) :: 64 word) \<noteq> 0" "state_chain [] 0 (ss_transitions s)"
    "ss_current_state s = last_state (ss_transitions s)" "ss_staging_root s = staging_root_of (ss_spec s)"
    "ts_required_commit_authority (ss_spec s) = Staged_child_bound_v1 \<longrightarrow> ss_retain_commit_cleanup s" "stream_part_ok s"
    using assms(1) by (simp_all add: journal_ok_def word_length_zero)
  have "binds_members (journal_document s) (binding_members (ss_spec s)) msg = Inr ()" for msg
    by (simp add: binding_members_def string_at_def journal_jat)
  with ok assms(2,3) show ?thesis
    by (simp add: decode_transaction_metadata_def check_rendered_roots journal_jat decode_rendered_transitions
        string_at_def check_rendered_requirement read_rendered_retention read_rendered_stream journal_metadata_def Let_def)
qed

lemma decode_rendered_journal:
  assumes "journal_ok s"
  shows "decides (decode_transaction_metadata (ss_spec s) (journal_text s))
    (fits journal_limits (length (journal_text s)) (journal_document s)) (journal_metadata s)"
proof (cases "fits journal_limits (length (journal_text s)) (journal_document s)")
  case True
  then have "parse (journal_text s) journal_limits = Inr (journal_document s)" using parse_journal [of s] by (simp add: decides_def)
  with decode_journal_document [OF assms] True show ?thesis by (simp add: decides_def)
next
  case False
  then show ?thesis using parse_journal [of s]
    by (cases "parse (journal_text s) journal_limits") (simp_all add: decides_def decode_transaction_metadata_def)
qed

text \<open>
  C7. A journal that a session in a well-formed state writes is decoded to exactly the recorded
  state, digest, retention policy and stream observations of that session, provided every
  recorded string is valid UTF-8 of at most 1 MiB; otherwise the decoder refuses it. No size is
  left out: the value budget of the reader cannot be exceeded within the byte budget of the
  writer.
\<close>

theorem journal_round_trip:
  assumes "journal_ok s" "render_journal s = Inr text"
  shows "decides (decode_transaction_metadata (ss_spec s) text) (shape_ok journal_limits 0 (journal_document s)) (journal_metadata s)"
  using decode_rendered_journal [OF assms(1)] journal_fits [of s] assms(2)
  by (simp add: render_journal_def split: if_splits)

end
