(* ===== verification/Usk_Journal_Properties.thy ===== *)
theory Usk_Journal_Properties
  imports Usk_Transaction_Laws
begin

text \<open>
  What an accepted transaction journal guarantees: the recorded history is a run of the state
  table, and a journal that is accepted as the extension of another keeps its history and every
  other member.
\<close>

section \<open>Runs of the state table\<close>

inductive tx_run :: "string \<Rightarrow> string list \<Rightarrow> string \<Rightarrow> bool" where
  tx_stop: "tx_run a [] a"
| tx_step: "valid_transition a b \<Longrightarrow> tx_run b states c \<Longrightarrow> tx_run a (b # states) c"

inductive_cases tx_run_NilE [elim!]: "tx_run a [] c"
inductive_cases tx_run_ConsE [elim!]: "tx_run a (b # states) c"

inductive_simps tx_run_simps [simp]: "tx_run a [] c" "tx_run a (b # states) c"

lemma tx_run_append: "tx_run a (xs @ ys) c \<longleftrightarrow> (\<exists>b. tx_run a xs b \<and> tx_run b ys c)"
  by (induction xs arbitrary: a) auto

lemma state_chain_run: "state_chain prior n ts \<Longrightarrow> tx_run prior (map tr_to ts) (if ts = [] then prior else tr_to (last ts))"
  by (induction ts arbitrary: prior n) auto

definition commit_states :: "string list" where
  "commit_states = [''committing'', ''committed'', ''completed'']"

definition final_states :: "string list" where
  "final_states = [''completed'', ''rolled_back'', ''refused'', ''abandoned_by_operator'']"

definition early_states :: "string list" where
  "early_states = [''created'', ''validated'', ''planned'', ''staging'', ''staged'', ''verified'', ''refused'']"

text \<open>The state table as a list of its edges.\<close>

definition tx_edges :: "(string \<times> string) list" where
  "tx_edges = [([], ''created''), (''created'', ''validated''), (''validated'', ''planned''), (''planned'', ''staging''),
    (''staging'', ''staged''), (''staging'', ''recovery_required''), (''staging'', ''refused''),
    (''staged'', ''verified''), (''staged'', ''recovery_required''), (''staged'', ''refused''),
    (''verified'', ''committing''), (''verified'', ''recovery_required''), (''verified'', ''refused''),
    (''committing'', ''committed''), (''committing'', ''recovery_required''),
    (''committed'', ''completed''), (''committed'', ''recovery_required''),
    (''recovery_required'', ''committing''), (''recovery_required'', ''rolled_back''),
    (''recovery_required'', ''abandoned_by_operator'')]"

lemma valid_transition_edge: "valid_transition a b \<Longrightarrow> (a, b) \<in> set tx_edges"
  by (simp add: valid_transition_def tx_edges_def split: if_split_asm)

lemma edges_facts:
  "list_all (\<lambda>(a, b). b \<in> set early_states \<longrightarrow> a = [] \<or> a \<in> set early_states) tx_edges"
  "list_all (\<lambda>(a, b). b = ''committed'' \<longrightarrow> a = ''committing'') tx_edges"
  "list_all (\<lambda>(a, b). b = ''completed'' \<longrightarrow> a = ''committed'') tx_edges"
  "list_all (\<lambda>(a, b). a \<notin> set final_states \<and> b \<noteq> []) tx_edges"
  "list_all (\<lambda>b. b \<notin> set early_states) commit_states"
  by code_simp+

lemma into_early: "valid_transition a b \<Longrightarrow> b \<in> set early_states \<Longrightarrow> a = [] \<or> a \<in> set early_states"
  using edges_facts(1) by (auto simp: list_all_iff dest!: valid_transition_edge)

lemma into_committed: "valid_transition a ''committed'' \<Longrightarrow> a = ''committing''"
  using edges_facts(2) by (auto simp: list_all_iff dest!: valid_transition_edge)

lemma into_completed: "valid_transition a ''completed'' \<Longrightarrow> a = ''committed''"
  using edges_facts(3) by (auto simp: list_all_iff dest!: valid_transition_edge)

lemma final_stuck: "a \<in> set final_states \<Longrightarrow> \<not> valid_transition a b"
  using edges_facts(4) by (auto simp: list_all_iff dest!: valid_transition_edge)

lemma into_nonempty: "valid_transition a b \<Longrightarrow> b \<noteq> []"
  using edges_facts(4) by (auto simp: list_all_iff dest!: valid_transition_edge)

lemma commit_not_early: "b \<in> set commit_states \<Longrightarrow> b \<notin> set early_states"
  using edges_facts(5) by (simp add: list_all_iff)

lemma run_early:
  assumes "tx_run a states c" "c = [] \<or> c \<in> set early_states"
  shows "\<forall>b \<in> set states. b \<notin> set commit_states"
  using assms
proof (induction states arbitrary: c rule: rev_induct)
  case (snoc b states)
  from snoc.prems(1) obtain a' where run: "tx_run a states a'" "valid_transition a' b" "c = b"
    by (auto simp: tx_run_append)
  with snoc.prems(2) into_nonempty have "b \<in> set early_states" by blast
  with run(2) have "a' = [] \<or> a' \<in> set early_states" by (rule into_early)
  with snoc.IH [OF run(1)] commit_not_early \<open>b \<in> set early_states\<close> show ?case by auto
qed simp

lemma run_completed:
  assumes "tx_run [] states ''completed''"
  shows "\<exists>us. states = us @ [''committing'', ''committed'', ''completed'']"
proof -
  have split: "\<exists>us a'. states = us @ [c] \<and> tx_run [] us a' \<and> valid_transition a' c"
    if "tx_run [] states c" "c \<noteq> []" for states c
    using that by (cases states rule: rev_cases) (auto simp: tx_run_append)
  from split [OF assms] obtain us where us: "states = us @ [''completed'']" "tx_run [] us ''committed''"
    using into_completed by auto
  moreover from split [OF us(2)] obtain vs where vs: "us = vs @ [''committed'']" "tx_run [] vs ''committing''"
    using into_committed by auto
  moreover from split [OF vs(2)] obtain ws where "vs = ws @ [''committing'']" by auto
  ultimately show ?thesis by simp
qed

lemma run_final:
  assumes "tx_run a (us @ b # vs) c" "b \<in> set final_states"
  shows "vs = []"
  using assms final_stuck [OF assms(2)] by (cases vs) (auto simp: tx_run_append)

section \<open>Decoded journals\<close>

lemma decode_metadata_Inr:
  assumes "decode_transaction_metadata spec text = Inr m"
  obtains ts where "state_chain [] 0 ts" "ts \<noteq> []" "ri_current_state (tm_inspection m) = tr_to (last ts)"
    "ri_journal_digest (tm_inspection m) = sha256_hex (chain_text ts)"
    "ri_commit_started (tm_inspection m) \<longleftrightarrow> (\<exists>t \<in> set ts. tr_to t \<in> set commit_states)"
    "ri_commit_confirmed (tm_inspection m) \<longleftrightarrow> (\<exists>t \<in> set ts. tr_to t \<in> {''committed'', ''completed''})"
proof -
  from assms obtain document items ts where doc: "decode_transitions (ts_transaction_id spec) [] 0 items = Inr ts"
    "(of_nat (length items) :: 64 word) \<noteq> 0" "ri_current_state (tm_inspection m) = last_state ts"
    "ri_journal_digest (tm_inspection m) = sha256_hex (chain_text ts)"
    "ri_commit_started (tm_inspection m) = list_ex (\<lambda>t. tr_to t = ''committing'' \<or> tr_to t = ''committed'' \<or> tr_to t = ''completed'') ts"
    "ri_commit_confirmed (tm_inspection m) = list_ex (\<lambda>t. tr_to t = ''committed'' \<or> tr_to t = ''completed'') ts"
    unfolding decode_transaction_metadata_def by (auto elim!: bindE_InrE split: if_splits)
  note chain = decode_transitions_chain [OF doc(1)]
  have "ts \<noteq> []" using chain doc(2) by auto
  then show thesis
    using that [of ts] chain doc(3-6) by (simp add: last_state_def list_ex_iff commit_states_def)
qed


section \<open>Extended journals\<close>

definition finalization_states :: "string list" where
  "finalization_states = [''recovery_required'', ''committing'', ''committed'', ''completed'']"

lemma compare_transitions_Inr:
  assumes "compare_transitions i items ts = Inr chain" "length items \<le> length ts"
  shows "\<exists>rest. ts = items @ rest \<and> list_all (\<lambda>t. \<exists>state \<in> set finalization_states. string_at t ''to'' = Inr state) rest"
  using assms
proof (induction i items ts arbitrary: chain rule: compare_transitions.induct)
  case (2 i item items t ts)
  from 2(2) have "t = item" by (auto simp: canonical_inj split: if_splits)
  moreover from 2(2) obtain chain' where "compare_transitions (Suc i) items ts = Inr chain'"
    by (auto simp: canonical_inj elim!: bindE_InrE split: if_splits)
  ultimately show ?case using 2(1) [OF _ _ _ _ \<open>compare_transitions (Suc i) items ts = Inr chain'\<close>] 2(2,3)
    by (auto simp: canonical_inj elim!: bindE_InrE split: if_splits)
next
  case (3 i t ts)
  from 3(2) obtain state where state: "string_at t ''to'' = Inr state" "state \<in> set finalization_states"
    "compare_transitions (Suc i) [] ts = Inr chain"
    by (auto simp: finalization_states_def elim!: bindE_InrE split: if_splits)
  with 3(1) [OF state(1)] show ?case by (auto simp: finalization_states_def)
qed auto

lemma map_of_obj_erase: "map_of (obj_erase k m) j = (if j = k then None else map_of m j)"
  by (simp add: obj_erase_def map_of_filter_key)

lemma map_of_erased: "map_of (fold obj_erase ks m) j = (if j \<in> set ks then None else map_of m j)"
  by (induction ks arbitrary: m) (auto simp: map_of_obj_erase)

lemma immutable_part_Inr:
  assumes "immutable_part a = Inr a'" "immutable_part b = Inr b'" "canonical a' = canonical b'" "k \<notin> set changing_keys"
  shows "jat a k = jat b k"
proof -
  from assms(1,2) obtain m m' where docs: "a = JObject m" "a' = JObject (fold obj_erase changing_keys m)"
    "b = JObject m'" "b' = JObject (fold obj_erase changing_keys m')"
    by (cases a; cases b) (auto simp: immutable_part_def throwE_def)
  with assms(3) have "fold obj_erase changing_keys m = fold obj_erase changing_keys m'" by (simp add: canonical_inj)
  then have "map_of (fold obj_erase changing_keys m) k = map_of (fold obj_erase changing_keys m') k" by (rule arg_cong)
  with assms(4) docs show ?thesis by (simp add: map_of_erased jat_object)
qed


end
