(* ===== verification/Usk_Journal_Samples.thy ===== *)
theory Usk_Journal_Samples
  imports Usk_Journal_Properties
begin

text \<open>
  When a journal fits the limits of the reader, which extensions of a journal the comparison
  accepts, and concrete sessions to which the properties of the journal apply.
\<close>

section \<open>Journals within the limits\<close>

lemma members_shape:
  assumes "members_ok ms"
  shows "shape_ok L d (members_value ms) \<longleftrightarrow>
    d \<le> max_depth L \<and> list_all (\<lambda>(k, v, t). string_ok L k \<and> shape_ok L (Suc d) v) ms"
proof -
  have "distinct (map fst (map (\<lambda>(k, v, t). (k, v)) ms))"
    using assms by (simp add: members_ok_def o_def case_prod_unfold)
  then show ?thesis by (simp add: members_value_def object_shape list.pred_map o_def case_prod_unfold)
qed

lemma journal_depth [simp]: "max_depth journal_limits = 64"
  by (simp add: journal_limits_def)

lemma journal_string_ok: "string_ok journal_limits s \<longleftrightarrow> string_ok default_limits s"
  by (simp add: string_ok_def journal_limits_def default_limits_def)

definition short_ascii :: "string \<Rightarrow> bool" where
  "short_ascii s \<longleftrightarrow> length s \<le> 40 \<and> list_all (\<lambda>c. byte c \<le> 0x7f) s"

lemma short_ascii_ok: "short_ascii s \<Longrightarrow> string_ok journal_limits s"
  by (simp add: journal_string_ok short_ascii_def string_ok_lit)

lemma state_names_short: "list_all (\<lambda>(a, b). short_ascii a \<and> short_ascii b) tx_edges"
  by code_simp

lemma valid_transition_ok: "valid_transition a b \<Longrightarrow> string_ok journal_limits a \<and> string_ok journal_limits b"
  using state_names_short by (auto simp: list_all_iff dest!: valid_transition_edge intro: short_ascii_ok)

lemma nullable_shape: "d \<le> 64 \<Longrightarrow> string_ok journal_limits s \<Longrightarrow> shape_ok journal_limits d (nullable s)"
  by (simp add: nullable_def)

lemma transition_shape:
  assumes "valid_identifier tid" "valid_transition (tr_from t) (tr_to t)" "string_ok journal_limits (tr_recorded_at t)"
  shows "shape_ok journal_limits 2 (members_value (transition_members tid t))"
proof -
  have "list_all (\<lambda>c. byte c \<le> 0x7f) (tid @ ''.'' @ dec (unat (tr_sequence t)))"
    using assms(1) dec_ascii [of "unat (tr_sequence t)"]
    by (auto simp: valid_identifier_def list_all_iff intro: identifier_char_ascii)
  moreover have "length (tid @ ''.'' @ dec (unat (tr_sequence t))) \<le> 1024"
    using assms(1) length_dec [OF word_lt_pow, of "tr_sequence t"] by (simp add: valid_identifier_def)
  ultimately have "string_ok journal_limits (tid @ ''.'' @ dec (unat (tr_sequence t)))"
    unfolding journal_string_ok by (rule string_ok_lit)
  moreover have "list_all (\<lambda>(k, v, t). short_ascii k) (transition_members tid t)"
    by (simp add: transition_members_def short_ascii_def)
  ultimately show ?thesis
    using valid_transition_ok [OF assms(2)] assms(3)
    by (simp add: members_shape members_ok_transition nullable_shape)
      (simp add: transition_members_def nullable_shape short_ascii_ok)
qed

lemma state_chain_all:
  "state_chain prior n ts \<Longrightarrow> t \<in> set ts \<Longrightarrow> valid_transition (tr_from t) (tr_to t)"
  by (induction ts arbitrary: prior n) auto

definition texts_ok :: "transaction_session \<Rightarrow> bool" where
  "texts_ok s \<longleftrightarrow> valid_identifier (ts_transaction_id (ss_spec s)) \<and>
    list_all (string_ok journal_limits)
      ([ts_plan_id (ss_spec s), ts_plan_digest (ss_spec s), ts_operation (ss_spec s), ss_created_at s, ss_staging_identity s] @
       map (\<lambda>(role, root, c). path_string root) (journal_roots s) @ map tr_recorded_at (ss_transitions s) @
       map (\<lambda>f. path_string (sf_relative_path f)) (ss_staged_files s) @ map sf_sha256 (ss_staged_files s)) \<and>
    (sj_present (ss_stream_journal s) \<longrightarrow> shape_ok journal_limits 2 (render_stream_journal (ss_stream_journal s)))"

lemma root_shape:
  assumes "(role, root, c) \<in> set (journal_roots s)" "string_ok journal_limits (path_string root)"
  shows "shape_ok journal_limits 2 (members_value (root_members role root c))"
proof -
  have "list_all (\<lambda>(role, root, c). short_ascii role \<and> short_ascii c \<and> plain_text role \<and> plain_text c) (journal_roots s)"
    by (simp add: journal_roots_def plain_keys) (simp add: short_ascii_def)
  then have "short_ascii role" "short_ascii c" "plain_text role" "plain_text c" using assms(1) by (auto simp: list_all_iff)
  moreover have "list_all (\<lambda>(k, v, t). short_ascii k) (root_members role root c)"
    by (simp add: root_members_def short_ascii_def)
  ultimately show ?thesis
    using assms(2) by (simp add: members_shape members_ok_root) (simp add: root_members_def short_ascii_ok)
qed

lemma staged_shape:
  assumes "string_ok journal_limits (path_string (sf_relative_path f))" "string_ok journal_limits (sf_sha256 f)"
  shows "shape_ok journal_limits 3 (members_value (staged_members f))"
proof -
  have "list_all (\<lambda>(k, v, t). short_ascii k) (staged_members f)" by (simp add: staged_members_def short_ascii_def)
  with assms show ?thesis by (simp add: members_shape members_ok_staged) (simp add: staged_members_def short_ascii_ok)
qed

lemma metadata_shape:
  assumes "texts_ok s"
  shows "shape_ok journal_limits 1 (members_value (metadata_members s))"
proof -
  have keys: "list_all (\<lambda>(k, v, t). short_ascii k) (metadata_members s)"
    by (simp add: metadata_members_def Let_def short_ascii_def)
  have "list_all (\<lambda>f. shape_ok journal_limits 3 (members_value (staged_members f))) (ss_staged_files s)"
    using assms by (simp add: texts_ok_def list_all_iff staged_shape)
  moreover have "string_ok journal_limits (ss_staging_identity s)" "short_ascii ''retain_only''"
    using assms by (simp_all add: texts_ok_def short_ascii_def)
  ultimately have "list_all (\<lambda>(k, v, t). shape_ok journal_limits 2 v) (metadata_members s)"
    using assms by (auto simp: metadata_members_def Let_def nullable_def list.pred_map o_def numeral_3_eq_3 short_ascii_ok
        texts_ok_def numeral_2_eq_2)
  with keys show ?thesis
    by (auto simp: members_shape members_ok_metadata list_all_iff short_ascii_ok numeral_2_eq_2)
qed

lemma recovery_shape: "shape_ok journal_limits 1 (members_value (recovery_members s))"
proof -
  have "list_all short_ascii (recorded_actions retained state)" for retained state
    by (simp add: recorded_actions_def journal_actions_def short_ascii_def)
  then have "list_all (string_ok journal_limits) (recorded_actions retained state)" for retained state
    by (auto simp: list_all_iff intro: short_ascii_ok)
  moreover have "list_all (\<lambda>(k, v, t). short_ascii k) (recovery_members s)"
    by (simp add: recovery_members_def Let_def short_ascii_def)
  ultimately show ?thesis
    by (simp add: members_shape members_ok_recovery)
      (simp add: recovery_members_def Let_def list.pred_map o_def short_ascii_ok list_all_iff)
qed

lemma journal_shape:
  assumes "texts_ok s" "journal_ok s"
  shows "shape_ok journal_limits 0 (journal_document s)"
proof -
  have keys: "list_all (\<lambda>(k, v, t). short_ascii k) (journal_members s)"
    by (simp add: journal_members_def Let_def short_ascii_def)
  have chain: "state_chain [] 0 (ss_transitions s)" "ss_transitions s \<noteq> []" "ss_current_state s = tr_to (last (ss_transitions s))"
    using assms(2) by (simp_all add: journal_ok_def last_state_def)
  have texts: "string_ok journal_limits (ts_plan_id (ss_spec s))" "string_ok journal_limits (ts_plan_digest (ss_spec s))"
    "string_ok journal_limits (ts_operation (ss_spec s))" "string_ok journal_limits (ss_created_at s)"
    "\<And>t. t \<in> set (ss_transitions s) \<Longrightarrow> string_ok journal_limits (tr_recorded_at t)"
    "\<And>role root c. (role, root, c) \<in> set (journal_roots s) \<Longrightarrow> string_ok journal_limits (path_string root)"
    and tid: "valid_identifier (ts_transaction_id (ss_spec s))"
    using assms(1) unfolding texts_ok_def list_all_append list.pred_map o_def by (auto simp: list_all_iff)
  have "string_ok journal_limits (''journal.'' @ ts_transaction_id (ss_spec s))"
    unfolding journal_string_ok using tid
    by (intro string_ok_lit) (auto simp: valid_identifier_def list_all_iff intro: identifier_char_ascii)
  moreover have "string_ok journal_limits (ts_transaction_id (ss_spec s))" using tid by (simp add: journal_string_ok)
  moreover have "string_ok journal_limits (ss_current_state s)"
    using valid_transition_ok [OF state_chain_all [OF chain(1), of "last (ss_transitions s)"]] chain(2,3) by simp
  moreover have "string_ok journal_limits (sha256_hex x)" for x by (simp add: journal_string_ok)
  moreover have "list_all (\<lambda>t. shape_ok journal_limits 2 (members_value (transition_members (ts_transaction_id (ss_spec s)) t)))
      (ss_transitions s)"
    using state_chain_all [OF chain(1)] texts(5) tid by (auto simp: list_all_iff intro: transition_shape)
  moreover have "list_all (\<lambda>(role, root, c). shape_ok journal_limits 2 (members_value (root_members role root c))) (journal_roots s)"
    using texts(6) by (auto simp: list_all_iff intro: root_shape)
  moreover have "string_ok journal_limits (tr_recorded_at (last (ss_transitions s)))" using texts(5) chain(2) by simp
  moreover have "short_ascii ''usk.transaction_journal.v1''" "short_ascii ''staged_child_bound_v1''" by (simp_all add: short_ascii_def)
  ultimately have "list_all (\<lambda>(k, v, t). shape_ok journal_limits 1 v) (journal_members s)"
    using texts(1-4) metadata_shape [OF assms(1)] recovery_shape [of s]
    by (simp add: journal_members_def Let_def list.pred_map o_def case_prod_unfold short_ascii_ok numeral_2_eq_2)
  with keys show ?thesis
    unfolding journal_document_def by (auto simp: members_shape members_ok_journal list_all_iff short_ascii_ok)
qed

section \<open>Accepted extensions\<close>

lemma parse_written_journal:
  assumes "journal_ok s" "texts_ok s" "length (journal_text s) \<le> journal_bound"
  shows "parse (journal_text s) journal_limits = Inr (journal_document s)"
  using parse_journal [of s] journal_shape [OF assms(2,1)] journal_fits [OF assms(3)] by (simp add: decides_def)

lemma compare_rendered:
  assumes "state_chain prior (of_nat i) ts" "list_all (\<lambda>t. tr_to t \<in> set finalization_states) us"
  shows "compare_transitions i (map (\<lambda>t. members_value (transition_members tid t)) ts)
    (map (\<lambda>t. members_value (transition_members tid t)) (ts @ us)) = Inr (chain_text ts)"
  using assms
proof (induction ts arbitrary: prior i)
  case Nil
  then show ?case
  proof (induction us arbitrary: i)
    case (Cons u us)
    then show ?case by (auto simp: transition_jat finalization_states_def chain_text_def)
  qed (simp add: chain_text_def)
next
  case (Cons t ts)
  then have "compare_transitions (Suc i) (map (\<lambda>t. members_value (transition_members tid t)) ts)
      (map (\<lambda>t. members_value (transition_members tid t)) (ts @ us)) = Inr (chain_text ts)"
    by (intro Cons.IH [of "tr_to t"]) (simp_all add: add.commute)
  with Cons.prems show ?case by (simp add: transition_jat transition_from chain_text_def)
qed

lemma check_rendered_derived:
  assumes "ss_current_state s \<noteq> ''failed''" "ss_transitions s \<noteq> []"
  shows "check_derived_fields (journal_document s) = Inr ()"
proof -
  have "members_value (recovery_members s) = derived_recovery (ss_current_state s)
      (recorded_actions (ss_retain_stream_cleanup s \<or> ss_retain_commit_cleanup s) (ss_current_state s))"
    using assms by (simp add: members_value_def recovery_members_def derived_recovery_def Let_def)
  moreover have "string_at (last (map (\<lambda>t. members_value (transition_members tid t)) (ss_transitions s))) ''recorded_at'' =
      Inr (tr_recorded_at (last (ss_transitions s)))" for tid
    using assms(2) by (simp add: last_map transition_jat)
  ultimately show ?thesis
    by (cases "ss_retain_stream_cleanup s")
      (simp_all add: check_derived_fields_def journal_jat read_rendered_retention string_at_def)
qed

lemma immutable_rendered:
  "immutable_part (journal_document (s\<lparr>ss_transitions := ts, ss_current_state := c\<rparr>)) = immutable_part (journal_document s)"
proof -
  let ?s = "s\<lparr>ss_transitions := ts, ss_current_state := c\<rparr>"
  let ?kvs = "\<lambda>s. map (\<lambda>(k, v, t). (k, v)) (journal_members s)"
  have distinct: "distinct (map fst (?kvs s))" for s
    using members_ok_journal [of s] by (simp add: members_ok_def o_def case_prod_unfold)
  have "metadata_members ?s = metadata_members s" "journal_roots ?s = journal_roots s"
    by (simp_all add: metadata_members_def journal_roots_def)
  then have same: "map_of (?kvs ?s) k = map_of (?kvs s) k" if "k \<notin> set changing_keys" for k
    using that by (simp add: journal_members_def Let_def changing_keys_def)
  have sorted: "sorted_keys (fold obj_erase ks m)" if "sorted_keys m" for ks and m :: "(string \<times> jvalue) list"
    using that by (induction ks arbitrary: m)
      (auto simp: obj_erase_def sorted_keys_def sorted_wrt_map intro: sorted_wrt_filter)
  have "fold obj_erase changing_keys (obj_of (?kvs ?s)) = fold obj_erase changing_keys (obj_of (?kvs s))"
    by (rule sorted_maps_eq)
      (auto intro!: sorted sorted_keys_obj_of simp: map_of_erased map_of_obj_of [OF distinct] same fun_eq_iff)
  then show ?thesis by (simp add: immutable_part_def journal_document_def members_value_def object_def)
qed

definition advanced :: "transaction_session \<Rightarrow> transition list \<Rightarrow> transaction_session" where
  "advanced s us = s\<lparr>ss_transitions := ss_transitions s @ us, ss_current_state := tr_to (last (ss_transitions s @ us))\<rparr>"

lemma extension_accepts:
  assumes "journal_ok s" "texts_ok s" "length (journal_text s) \<le> journal_bound"
    and "journal_ok (advanced s us)" "texts_ok (advanced s us)" "length (journal_text (advanced s us)) \<le> journal_bound"
    and "ss_current_state s \<in> {''committing'', ''committed'', ''recovery_required''}"
    and "list_all (\<lambda>t. tr_to t \<in> set finalization_states) us"
  shows "require_transition_extension_documents (journal_text s) (journal_text (advanced s us)) = Inr ()"
proof -
  let ?tid = "ts_transaction_id (ss_spec s)"
  have ts: "ss_transitions s \<noteq> []" "state_chain [] 0 (ss_transitions s)" "ss_current_state s = tr_to (last (ss_transitions s))"
    using assms(1) by (auto simp: journal_ok_def last_state_def)
  have "tr_to (last (ss_transitions s @ us)) \<in> set finalization_states"
    using assms(7,8) ts(3) by (cases "us = []") (auto simp: list_all_iff finalization_states_def)
  then have "ss_current_state (advanced s us) \<noteq> ''failed''" "ss_transitions (advanced s us) \<noteq> []"
    using ts(1) by (auto simp: advanced_def finalization_states_def)
  then have "check_derived_fields (journal_document (advanced s us)) = Inr ()" by (rule check_rendered_derived)
  moreover have "check_derived_fields (journal_document s) = Inr ()"
    using assms(7) ts(1) by (intro check_rendered_derived) auto
  moreover have "immutable_part (journal_document (advanced s us)) = immutable_part (journal_document s)"
    unfolding advanced_def by (rule immutable_rendered)
  moreover have "\<exists>x. immutable_part (journal_document s) = Inr x"
    by (simp add: immutable_part_def journal_document_def members_value_def object_def)
  moreover have "string_at (last (map (\<lambda>t. members_value (transition_members ?tid t)) (ss_transitions s))) ''to'' = Inr (ss_current_state s)"
    using ts by (simp add: last_map transition_jat)
  moreover have "bindE (jat (journal_document (advanced s us)) ''transitions'') as_array =
      Inr (map (\<lambda>t. members_value (transition_members ?tid t)) (ss_transitions s @ us))"
    by (simp add: journal_jat advanced_def)
  moreover have "bindE (jat (journal_document s) ''transitions'') as_array =
      Inr (map (\<lambda>t. members_value (transition_members ?tid t)) (ss_transitions s))"
    "string_at (journal_document s) ''current_state'' = Inr (ss_current_state s)"
    "string_at (journal_document s) ''journal_digest'' = Inr (sha256_hex (chain_text (ss_transitions s)))"
    by (simp_all add: journal_jat string_at_def)
  moreover have "compare_transitions 0 (map (\<lambda>t. members_value (transition_members ?tid t)) (ss_transitions s))
      (map (\<lambda>t. members_value (transition_members ?tid t)) (ss_transitions s @ us)) = Inr (chain_text (ss_transitions s))"
    using ts(2) assms(8) by (intro compare_rendered [of "[]"]) simp_all
  ultimately show ?thesis
    using assms(7) ts(1) unfolding require_transition_extension_documents_def parse_written_journal [OF assms(1-3)]
      parse_written_journal [OF assms(4-6)]
    by auto
qed

section \<open>The size of a journal\<close>

lemma length_json_escape: "length (json_escape s) \<le> 6 * length s"
proof (induction s)
  case (Cons c s)
  then show ?case by (auto simp: hex_pad_two numeral_2_eq_2)
qed simp

lemma length_quote: "length (quote s) \<le> 6 * length s + 2"
  using length_json_escape [of s] by (simp add: quote_def)

lemma length_word: "length (dec (unat (n :: 64 word))) \<le> 20"
  by (rule length_dec [OF word_lt_pow]) simp

lemma length_sha256_hex: "length (sha256_hex x) = 64"
  using valid_sha256_hex [of x] by (simp add: valid_sha256_def)

lemma length_render_transition:
  "length (render_transition tid t) \<le> 500 + 6 * (length tid + length (tr_from t) + length (tr_to t) + length (tr_recorded_at t))"
  using length_quote [of "tid @ ''.'' @ dec (unat (tr_sequence t))"] length_quote [of "tr_from t"] length_quote [of "tr_to t"]
    length_quote [of "tr_recorded_at t"] length_word [of "tr_sequence t"]
  by (auto simp: render_transition_def lit_def)

lemma length_render_root: "length (render_root role root c) \<le> 60 + length role + length c + 6 * length (path_string root)"
  using length_quote [of "path_string root"] by (simp add: render_root_def lit_def)

lemma length_journal_text:
  assumes "length (render_metadata s) \<le> 1500"
  shows "length (journal_text s) \<le> 5000 + 6 * (2 * length (ts_transaction_id (ss_spec s)) + length (ts_plan_id (ss_spec s)) +
      length (ts_plan_digest (ss_spec s)) + length (ts_operation (ss_spec s)) + length (ss_current_state s) +
      length (ss_created_at s) + length (tr_recorded_at (last (ss_transitions s))) +
      length (path_string (ts_target_root (ss_spec s))) + length (path_string (ss_staging_root s)) +
      length (path_string (ts_state_root (ss_spec s))) + length (path_string (ts_audit_root (ss_spec s)))) +
    sum_list (map (\<lambda>t. Suc (500 + 6 * (length (ts_transaction_id (ss_spec s)) + length (tr_from t) + length (tr_to t) +
      length (tr_recorded_at t)))) (ss_transitions s))"
proof -
  have "length (render_recovery s) \<le> 500"
    by (auto simp: render_recovery_def lit_def recorded_actions_def journal_actions_def quote_def)
  moreover have "sum_list (map (\<lambda>t. Suc (length (render_transition (ts_transaction_id (ss_spec s)) t))) (ss_transitions s)) \<le>
      sum_list (map (\<lambda>t. Suc (500 + 6 * (length (ts_transaction_id (ss_spec s)) + length (tr_from t) + length (tr_to t) +
        length (tr_recorded_at t)))) (ss_transitions s))"
    by (rule sum_list_mono) (rule Suc_le_mono [THEN iffD2, OF length_render_transition])
  ultimately show ?thesis
    using assms length_commas_bound [of "map (render_transition (ts_transaction_id (ss_spec s))) (ss_transitions s)"]
      length_quote [of "''journal.'' @ ts_transaction_id (ss_spec s)"] length_quote [of "ts_transaction_id (ss_spec s)"]
      length_quote [of "ts_plan_id (ss_spec s)"] length_quote [of "ts_plan_digest (ss_spec s)"]
      length_quote [of "ts_operation (ss_spec s)"] length_quote [of "ss_current_state s"] length_quote [of "ss_created_at s"]
      length_quote [of "tr_recorded_at (last (ss_transitions s))"] length_quote [of "sha256_hex (chain_text (ss_transitions s))"]
      length_render_root [of "''target''" "ts_target_root (ss_spec s)" "''operator_selected_owned_target''"]
      length_render_root [of "''staging''" "ss_staging_root s" "''setup_owned''"]
      length_render_root [of "''setup_state''" "ts_state_root (ss_spec s)" "''setup_owned''"]
      length_render_root [of "''audit''" "ts_audit_root (ss_spec s)" "''audit_owned''"]
    by (auto simp: journal_text_def Let_def lit_def length_sha256_hex o_def)
qed

section \<open>Concrete sessions\<close>

definition sample_spec :: transaction_spec where
  "sample_spec = \<lparr>ts_transaction_id = ''tx1'', ts_plan_id = ''p1'', ts_plan_digest = replicate 64 (CHR ''a''),
     ts_operation = ''install_local'', ts_staging_parent = Path True [''srv''], ts_target_root = Path True [''srv'', ''app''],
     ts_state_root = Path True [''st''], ts_audit_root = Path True [''au''],
     ts_required_commit_authority = Legacy_observed\<rparr>"

definition sample_transitions :: "transition list" where
  "sample_transitions = map (\<lambda>(n, a, b). \<lparr>tr_sequence = n, tr_from = a, tr_to = b, tr_recorded_at = ''2026-01-01T00:00:00Z''\<rparr>)
     [(0, [], ''created''), (1, ''created'', ''validated''), (2, ''validated'', ''planned''), (3, ''planned'', ''staging''),
      (4, ''staging'', ''staged''), (5, ''staged'', ''verified''), (6, ''verified'', ''committing'')]"

definition committed_step :: transition where
  "committed_step = \<lparr>tr_sequence = 7, tr_from = ''committing'', tr_to = ''committed'', tr_recorded_at = ''2026-01-01T00:00:01Z''\<rparr>"

definition sample_session :: transaction_session where
  "sample_session = \<lparr>ss_spec = sample_spec, ss_staging_root = staging_root_of sample_spec, ss_journal_path = journal_path_of sample_spec,
     ss_created_at = ''2026-01-01T00:00:00Z'', ss_current_state = ''committing'', ss_staging_identity = [],
     ss_retain_stream_cleanup = False, ss_retain_commit_cleanup = True, ss_maintenance_finalization = False,
     ss_verified_closure = [], ss_stream_journal = empty_stream_journal, ss_staging_parent_identity = [],
     ss_target_parent_identity = [], ss_journal_directory_identity = [], ss_transitions = sample_transitions, ss_staged_files = []\<rparr>"

lemma sample_journal_ok: "journal_ok sample_session" "journal_ok (advanced sample_session [committed_step])"
  by (simp_all add: journal_ok_def sample_session_def advanced_def sample_transitions_def committed_step_def last_state_def
      stream_part_ok_def empty_stream_journal_def valid_transition_def sample_spec_def)

lemma sample_roots:
  "path_string (staging_root_of sample_spec) = ''/srv/.usk-stage-tx1''" "path_string (Path True [''srv'', ''app'']) = ''/srv/app''"
  "path_string (Path True [''st'']) = ''/st''" "path_string (Path True [''au'']) = ''/au''"
  by code_simp+

lemma sample_texts_ok: "texts_ok sample_session" "texts_ok (advanced sample_session [committed_step])"
proof -
  have "valid_identifier ''tx1''" by code_simp
  moreover have "string_ok journal_limits (replicate 64 (CHR ''a''))"
    unfolding journal_string_ok by (rule string_ok_lit) (simp_all add: list_all_iff)
  moreover have "list_all short_ascii [''p1'', ''install_local'', ''2026-01-01T00:00:00Z'', ''2026-01-01T00:00:01Z'', [],
      ''/srv/.usk-stage-tx1'', ''/srv/app'', ''/st'', ''/au'']"
    by code_simp
  ultimately show "texts_ok sample_session" "texts_ok (advanced sample_session [committed_step])"
    using sample_roots by (simp_all add: texts_ok_def sample_session_def advanced_def journal_roots_def short_ascii_ok
        sample_transitions_def committed_step_def empty_stream_journal_def sample_spec_def)
qed

lemma sample_metadata_size:
  "length (render_metadata sample_session) \<le> 1500" "length (render_metadata (advanced sample_session [committed_step])) \<le> 1500"
  by (simp_all add: render_metadata_def sample_session_def advanced_def empty_stream_journal_def lit_def)

lemma sample_journal_size:
  "length (journal_text sample_session) \<le> journal_bound"
  "length (journal_text (advanced sample_session [committed_step])) \<le> journal_bound"
  using length_journal_text [OF sample_metadata_size(1)] length_journal_text [OF sample_metadata_size(2)] sample_roots
  by (simp_all add: sample_session_def advanced_def empty_stream_journal_def sample_transitions_def committed_step_def
      journal_bound_def sample_spec_def)

theorem journal_round_trip_witness:
  "\<exists>text. render_journal sample_session = Inr text \<and>
     decode_transaction_metadata sample_spec text = Inr (journal_metadata sample_session)"
proof -
  have render: "render_journal sample_session = Inr (journal_text sample_session)"
    using sample_journal_size(1) by (simp add: render_journal_def)
  have spec: "ss_spec sample_session = sample_spec" by (simp add: sample_session_def)
  show ?thesis
    using journal_round_trip [OF sample_journal_ok(1) render] journal_shape [OF sample_texts_ok(1) sample_journal_ok(1)] render spec
    by (auto simp: decides_def)
qed

lemma sample_decoded: "decode_transaction_metadata sample_spec (journal_text sample_session) = Inr (journal_metadata sample_session)"
  using decode_journal_document [OF sample_journal_ok(1)]
    parse_written_journal [OF sample_journal_ok(1) sample_texts_ok(1) sample_journal_size(1)]
  by (simp add: sample_session_def)



end
