(* ===== verification/Usk_Session_Laws.thy ===== *)
theory Usk_Session_Laws
  imports Usk_Recovery Usk_Journal_Samples
begin

text \<open>
  Laws of the file operations of a session. \<open>seen w p\<close> is what a path shows apart from the number of
  its names, which linking and unlinking another name of the same inode changes. The journal
  of a session is replaced as a whole: whatever fails, its path shows the old text or the new.
\<close>

section \<open>What a path shows\<close>

fun forget_links :: "entry \<Rightarrow> entry" where
  "forget_links (File ino content links mtime) = File ino content 0 mtime"
| "forget_links e = e"

definition seen :: "world \<Rightarrow> string list \<Rightarrow> entry option" where
  "seen w p = map_option forget_links (entry_at w p)"

named_theorems seen_simps \<open>what the paths show after a step\<close>

lemma map_of_map_entries: "map_of (map (\<lambda>(q, e). (q, f e)) xs) p = map_option f (map_of xs p)"
  by (induction xs) auto

lemma entry_at_adjust:
  "entry_at (adjust_links ino f w) p = map_option (\<lambda>e. case e of
     File i content links mtime \<Rightarrow> if i = ino then File i content (f links) mtime else e | _ \<Rightarrow> e) (entry_at w p)"
  by (simp add: entry_at_def adjust_links_def map_of_map_entries)

lemma seen_adjust [seen_simps]: "seen (adjust_links ino f w) = seen w"
proof
  fix p
  show "seen (adjust_links ino f w) p = seen w p"
    by (cases "entry_at w p") (auto simp: seen_def entry_at_adjust split: entry.splits)
qed

lemma seen_put [seen_simps]: "p \<noteq> [] \<Longrightarrow> seen (put_entry p e w) q = (if q = p then Some (forget_links e) else seen w q)"
  by (simp add: seen_def entry_at_put)

lemma seen_del [seen_simps]: "p \<noteq> [] \<Longrightarrow> seen (del_entry p w) q = (if q = p then None else seen w q)"
  by (simp add: seen_def entry_at_del)

lemma seen_unlink [seen_simps]: "p \<noteq> [] \<Longrightarrow> seen (unlink_entry p w) q = (if q = p then None else seen w q)"
  by (simp add: unlink_entry_def seen_simps split: option.splits entry.splits)

lemma seen_fields [seen_simps]:
  "seen (w\<lparr>w_next_ino := i\<rparr>) = seen w" "seen (w\<lparr>w_clock := c\<rparr>) = seen w" "seen (w\<lparr>w_now := n\<rparr>) = seen w"
  by (simp_all add: seen_def fun_eq_iff entry_at_def)

lemma seen_dir_iff: "is_dir_entry (entry_at w p) \<longleftrightarrow> is_dir_entry (seen w p)"
  unfolding seen_def by (cases "entry_at w p"; cases "the (entry_at w p)") auto

lemma seen_None_iff [simp]: "seen w p = None \<longleftrightarrow> entry_at w p = None"
  by (simp add: seen_def)

lemma seen_Link_iff: "seen w p = Some (Link t) \<longleftrightarrow> entry_at w p = Some (Link t)"
  unfolding seen_def by (cases "entry_at w p"; cases "the (entry_at w p)") auto

lemma safe_dir_seen:
  assumes "safe_dir w d" "\<And>k. k \<le> length d \<Longrightarrow> seen w' (take k d) = seen w (take k d)"
  shows "safe_dir w' d"
  using assms by (simp add: safe_dir_def seen_dir_iff)

section \<open>Safe directories\<close>

lemma tx_safe_components_iff:
  "tx_safe_components w p current cs = Inr () \<longleftrightarrow> safe_components w current cs = Inr ()"
  by (induction cs arbitrary: current) (auto simp: Let_def linked_def reparse_or_symlink_def)

lemma tx_safe_plain:
  assumes "list_all plain_name d"
  shows "tx_require_safe_directory w (Path True d) = Inr () \<longleftrightarrow> safe_dir w d"
proof -
  have "require_safe_directory w (Path True d) = Inr () \<longleftrightarrow> tx_require_safe_directory w (Path True d) = Inr ()"
    using assms
    by (auto simp: require_safe_directory_def tx_require_safe_directory_def path_empty_def absolute_def Let_def
        normal_names_plain tx_safe_components_iff linked_def reparse_or_symlink_def)
  with require_safe_plain [OF assms] show ?thesis by simp
qed

lemma directory_identity_plain:
  assumes "list_all plain_name d"
  shows "directory_identity w (Path True d) = Inr identity \<longleftrightarrow>
    safe_dir w d \<and> (\<exists>ino. entry_at w d = Some (Dir ino) \<and> identity = tx_hex_id (w_dev w) @ '':'' @ tx_hex_id ino)"
proof (cases "safe_dir w d")
  case True
  then have "lstat w (Path True d) = entry_at w d"
    using resolve_safe [OF True, of "[]" False] by (simp add: lstat_def path_empty_def)
  moreover obtain ino where "entry_at w d = Some (Dir ino)" using safe_dir_entry [OF True] by (elim is_dir_entryE)
  moreover have "tx_require_safe_directory w (Path True d) = Inr ()" using True assms by (simp add: tx_safe_plain)
  ultimately show ?thesis using True by (auto simp: directory_identity_def)
next
  case False
  with tx_safe_plain [OF assms, of w] show ?thesis by (auto simp: directory_identity_def bindE_eq_Inr)
qed

lemma list_all_takeD: "list_all P xs \<Longrightarrow> list_all P (take k xs)"
  by (metis append_take_drop_id list_all_append)

section \<open>Publishing a journal\<close>

definition same_system :: "world \<Rightarrow> world \<Rightarrow> bool" where
  "same_system w w' \<longleftrightarrow> w_dev w' = w_dev w \<and> w_cwd w' = w_cwd w \<and> w_order w' = w_order w \<and>
     w_refuses w' = w_refuses w \<and> w_writes w' = w_writes w"

lemma same_system_refl [simp]: "same_system w w"
  by (simp add: same_system_def)

lemma same_system_trans [trans]: "same_system w w' \<Longrightarrow> same_system w' w'' \<Longrightarrow> same_system w w''"
  by (simp add: same_system_def)

lemma same_system_steps [simp]:
  "same_system w (put_entry p e w') = same_system w w'" "same_system w (del_entry p w') = same_system w w'"
  "same_system w (adjust_links ino f w') = same_system w w'" "same_system w (unlink_entry p w') = same_system w w'"
  "same_system w (new_file p content w') = same_system w w'" "same_system w (w'\<lparr>w_next_ino := i\<rparr>) = same_system w w'"
  "same_system w (w'\<lparr>w_clock := k, w_now := n\<rparr>) = same_system w w'"
  by (simp_all add: same_system_def put_entry_def del_entry_def adjust_links_def unlink_entry_def new_file_def
      split: option.splits entry.splits)

text \<open>A step that leaves every path outside \<open>ps\<close> as it is.\<close>

definition only_changes :: "string list set \<Rightarrow> world \<Rightarrow> world \<Rightarrow> bool" where
  "only_changes ps w w' \<longleftrightarrow> same_system w w' \<and> (\<forall>q. q \<notin> ps \<longrightarrow> seen w' q = seen w q)"

lemma only_changes_refl [simp]: "only_changes ps w w"
  by (simp add: only_changes_def)

lemma only_changes_trans: "only_changes ps w w' \<Longrightarrow> only_changes qs w' w'' \<Longrightarrow> only_changes (ps \<union> qs) w w''"
  unfolding only_changes_def by (auto intro: same_system_trans)

lemma only_changes_mono: "only_changes ps w w' \<Longrightarrow> ps \<subseteq> qs \<Longrightarrow> only_changes qs w w'"
  unfolding only_changes_def by blast

lemma only_changes_step: "only_changes ps w w' \<Longrightarrow> only_changes ps w' w'' \<Longrightarrow> only_changes ps w w''"
  using only_changes_trans [of ps w w' ps w''] by simp

lemma only_changes_system: "only_changes ps w w' \<Longrightarrow> same_system w w'"
  by (simp add: only_changes_def)

lemma only_changes_seen: "only_changes ps w w' \<Longrightarrow> q \<notin> ps \<Longrightarrow> seen w' q = seen w q"
  by (simp add: only_changes_def)

lemma safe_dir_only_changes:
  assumes "safe_dir w d" "only_changes ps w w'" "\<And>p. p \<in> ps \<Longrightarrow> \<not> prefix p d"
  shows "safe_dir w' d"
  using assms(1)
proof (rule safe_dir_seen)
  fix k assume "k \<le> length d"
  have "prefix (take k d) d" by (rule take_is_prefix)
  with assms(2,3) show "seen w' (take k d) = seen w (take k d)" by (blast intro: only_changes_seen)
qed

lemma not_prefix_child [simp]: "\<not> prefix (d @ [c]) d" "\<not> prefix (d @ c # e) d"
  by (auto simp: prefix_def)

lemma write_new_file_cases:
  assumes "safe_dir w d" "plain_name c" "write_new_durable_file (Path True (d @ [c])) content w = (r, w')"
  shows "only_changes {d @ [c]} w w'"
    and "w' \<noteq> w \<Longrightarrow> entry_at w (d @ [c]) = None"
    and "r = Inr () \<Longrightarrow> entry_at w (d @ [c]) = None \<and> w' = new_file (d @ [c]) content w"
proof -
  obtain written complete where loop: "write_loop (w_writes w (d @ [c])) content [] = (written, complete)" by force
  have written: "written = content" if complete using that loop write_loop_complete by fastforce
  have run: "write_new_durable_file (Path True (d @ [c])) content w =
    (if entry_at w (d @ [c]) \<noteq> None \<or> w_refuses w Sys_create (d @ [c])
     then (throwE ''cannot exclusively create durable transaction file'', w)
     else if \<not> complete then (throwE ''cannot write durable transaction file'', new_file (d @ [c]) written w)
     else if w_refuses w Sys_fsync (d @ [c]) then (throwE ''cannot flush durable transaction file'', new_file (d @ [c]) written w)
     else (Inr (), new_file (d @ [c]) written w))"
    using assms(1,2) safe_dir_entry [OF assms(1)] loop
    by (simp add: write_new_durable_file_def resolve_child new_file_def Let_def)
  then show "only_changes {d @ [c]} w w'" "w' \<noteq> w \<Longrightarrow> entry_at w (d @ [c]) = None"
    using assms(3) by (auto simp: only_changes_def new_file_def seen_simps split: if_splits)
  show "r = Inr () \<Longrightarrow> entry_at w (d @ [c]) = None \<and> w' = new_file (d @ [c]) content w"
    using assms(3) run written by (auto split: if_splits)
qed

lemma link_child:
  assumes "safe_dir w d" "plain_name s" "plain_name t" "entry_at w (d @ [s]) = Some (File ino content links mtime)"
  shows "link_file (Path True (d @ [s])) (Path True (d @ [t])) w =
    (if entry_at w (d @ [t]) = None \<and> \<not> w_refuses w Sys_link (d @ [t])
     then (Inr True, adjust_links ino Suc (put_entry (d @ [t]) (File ino content links mtime) w)) else (Inr False, w))"
  using assms safe_dir_entry [OF assms(1)] by (simp add: link_file_def resolve_child)

lemma unlink_child:
  assumes "safe_dir w d" "plain_name c"
  shows "unlink_file (Path True (d @ [c])) w =
    (if entry_at w (d @ [c]) \<noteq> None \<and> \<not> is_dir_entry (entry_at w (d @ [c])) \<and> \<not> w_refuses w Sys_unlink (d @ [c])
     then (Inr True, unlink_entry (d @ [c]) w) else (Inr False, w))"
  using assms by (simp add: unlink_file_def resolve_child)

lemma remove_child:
  assumes "safe_dir w d" "plain_name c" "remove_path (Path True (d @ [c])) w = (r, w')"
  shows "only_changes {d @ [c]} w w'" and "r = Inr True \<Longrightarrow> entry_at w' (d @ [c]) = None"
    and "r = Inr True \<or> r = Inr False" and "r = Inr False \<Longrightarrow> w' = w"
  using assms
  by (auto simp: remove_path_def resolve_child unlink_child only_changes_def seen_simps
      simp flip: seen_None_iff split: if_splits)

lemma rename_child:
  assumes "safe_dir w d" "plain_name s" "plain_name t" "s \<noteq> t" "entry_at w (d @ [s]) = Some (File ino content links mtime)"
  shows "rename_file (Path True (d @ [s])) (Path True (d @ [t])) w =
    (if \<not> is_dir_entry (entry_at w (d @ [t])) \<and> \<not> w_refuses w Sys_rename (d @ [s])
     then (Inr True, put_entry (d @ [t]) (File ino content links mtime)
       (del_entry (d @ [s]) (if entry_at w (d @ [t]) = None then w else unlink_entry (d @ [t]) w)))
     else (Inr False, w))"
  using assms safe_dir_entry [OF assms(1)] by (simp add: rename_file_def resolve_child)

lemma fsync_world: "snd (fsync_directory p w) = w"
  by (simp add: fsync_directory_def split: option.splits)

text \<open>
  \<open>published\<close>: the journal shows the new text, with the temporary name gone or not; a run that returns
  leaves one name.
\<close>

definition published :: "string list \<Rightarrow> string list \<Rightarrow> entry \<Rightarrow> world \<Rightarrow> bool" where
  "published tmp journal e w \<longleftrightarrow> entry_at w journal = Some e \<and> entry_at w tmp = None"

lemma publish_first:
  assumes "safe_dir w d" "plain_name t" "plain_name c" "t \<noteq> c"
    and "entry_at w (d @ [t]) = Some (File ino content 1 mtime)"
    and "publish_journal (Path True (d @ [t])) (Path True (d @ [c])) True w = (r, w')"
  shows "only_changes {d @ [t], d @ [c]} w w'"
    and "seen w' (d @ [c]) = seen w (d @ [c]) \<or> seen w' (d @ [c]) = Some (File ino content 0 mtime)"
    and "r = Inr () \<Longrightarrow> published (d @ [t]) (d @ [c]) (File ino content 1 mtime) w'"
proof -
  define w1 where "w1 = adjust_links ino Suc (put_entry (d @ [c]) (File ino content 1 mtime) w)"
  define w2 where "w2 = unlink_entry (d @ [t]) w1"
  have w1: "only_changes {d @ [c]} w w1" "seen w1 (d @ [c]) = Some (File ino content 0 mtime)"
    "entry_at w1 (d @ [t]) = Some (File ino content 2 mtime)"
    using assms(4,5) by (auto simp: w1_def only_changes_def seen_simps entry_at_adjust entry_at_put)
  have safe: "safe_dir w1 d" by (rule safe_dir_only_changes [OF assms(1) w1(1)]) auto
  have w2: "only_changes {d @ [t], d @ [c]} w w2" "seen w2 (d @ [c]) = Some (File ino content 0 mtime)"
    "published (d @ [t]) (d @ [c]) (File ino content 1 mtime) w2"
    using w1 assms(4,5)
    by (auto simp: w1_def w2_def only_changes_def seen_simps published_def unlink_entry_def entry_at_adjust entry_at_put entry_at_del)
  have links: "link_file (Path True (d @ [t])) (Path True (d @ [c])) w =
      (if entry_at w (d @ [c]) = None \<and> \<not> w_refuses w Sys_link (d @ [c]) then (Inr True, w1) else (Inr False, w))"
    "unlink_file (Path True (d @ [t])) w1 = (if \<not> w_refuses w1 Sys_unlink (d @ [t]) then (Inr True, w2) else (Inr False, w1))"
    using link_child [OF assms(1-3,5)] unlink_child [OF safe assms(2)] w1(3) by (simp_all add: w1_def w2_def)
  have "w' = w \<and> r \<noteq> Inr () \<or> w' = w1 \<and> r \<noteq> Inr () \<or> w' = w2"
    using assms(6) fsync_world [of "Path True d" w2]
    by (auto simp: publish_journal_def bindS_def links throwS_def
        guardS_def requireE_def throwE_def split: if_splits prod.splits sum.splits)
  then show "only_changes {d @ [t], d @ [c]} w w'"
    "seen w' (d @ [c]) = seen w (d @ [c]) \<or> seen w' (d @ [c]) = Some (File ino content 0 mtime)"
    "r = Inr () \<Longrightarrow> published (d @ [t]) (d @ [c]) (File ino content 1 mtime) w'"
    using w1 w2 by (auto intro: only_changes_mono)
qed

lemma publish_next:
  assumes "safe_dir w d" "plain_name t" "plain_name c" "t \<noteq> c"
    and "entry_at w (d @ [t]) = Some (File ino content 1 mtime)"
    and "publish_journal (Path True (d @ [t])) (Path True (d @ [c])) False w = (r, w')"
  shows "only_changes {d @ [t], d @ [c]} w w'"
    and "seen w' (d @ [c]) = seen w (d @ [c]) \<or> seen w' (d @ [c]) = Some (File ino content 0 mtime)"
    and "r = Inr () \<Longrightarrow> published (d @ [t]) (d @ [c]) (File ino content 1 mtime) w'"
proof -
  define w1 where "w1 = put_entry (d @ [c]) (File ino content 1 mtime)
    (del_entry (d @ [t]) (if entry_at w (d @ [c]) = None then w else unlink_entry (d @ [c]) w))"
  have w1: "only_changes {d @ [t], d @ [c]} w w1" "seen w1 (d @ [c]) = Some (File ino content 0 mtime)"
    "published (d @ [t]) (d @ [c]) (File ino content 1 mtime) w1"
    using assms(4) by (auto simp: w1_def only_changes_def seen_simps published_def entry_at_put entry_at_del)
  have rename: "rename_file (Path True (d @ [t])) (Path True (d @ [c])) w =
      (if \<not> is_dir_entry (entry_at w (d @ [c])) \<and> \<not> w_refuses w Sys_rename (d @ [t]) then (Inr True, w1) else (Inr False, w))"
    using rename_child [OF assms(1-5)] by (simp add: w1_def)
  have "w' = w \<and> r \<noteq> Inr () \<or> w' = w1"
  proof (cases "\<exists>i content' m. entry_at w (d @ [c]) = Some (File i content' 1 m)")
    case True
    then have "publish_journal (Path True (d @ [t])) (Path True (d @ [c])) False w =
        (if w_refuses w Sys_rename (d @ [t]) then (throwE ''cannot atomically replace transaction journal'', w)
         else fsync_directory (Path True d) w1)"
      by (auto simp: publish_journal_def rename lstat_child [OF assms(1,3)] bindS_def liftS_def guardS_def requireE_def throwE_def)
    with assms(6) fsync_world [of "Path True d" w1] show ?thesis by (auto split: if_splits)
  next
    case False
    then have "publish_journal (Path True (d @ [t])) (Path True (d @ [c])) False w =
        (throwE ''existing transaction journal identity is unsafe'', w)"
      by (auto simp: publish_journal_def lstat_child [OF assms(1,3)] bindS_def liftS_def requireE_def throwE_def
          split: option.splits entry.splits)
    with assms(6) show ?thesis by auto
  qed
  then show "only_changes {d @ [t], d @ [c]} w w'"
    "seen w' (d @ [c]) = seen w (d @ [c]) \<or> seen w' (d @ [c]) = Some (File ino content 0 mtime)"
    "r = Inr () \<Longrightarrow> published (d @ [t]) (d @ [c]) (File ino content 1 mtime) w'"
    using w1 by auto
qed

lemmas publish_laws = publish_first publish_next

section \<open>Replacing a journal\<close>

definition file_name :: "string \<Rightarrow> bool" where
  "file_name c \<longleftrightarrow> plain_name c \<and> slash \<notin> set c"

definition temporary_name :: "string \<Rightarrow> 64 word \<Rightarrow> string" where
  "temporary_name c sequence = c @ ''.tmp.'' @ dec (unat sequence)"

lemma temporary_name_differs [simp]: "temporary_name c n \<noteq> c" "c \<noteq> temporary_name c n"
  by (simp_all add: temporary_name_def)

lemma slash_notin_dec: "slash \<notin> set (dec n)"
  using dec_isdigit [of slash n] by (auto simp: isdigit_def)

lemma file_name_temporary: "file_name c \<Longrightarrow> file_name (temporary_name c n)"
  by (auto simp: file_name_def plain_name_def temporary_name_def slash_notin_dec append_eq_Cons_conv)

lemma append_file_name: "list_all plain_name d \<Longrightarrow> file_name c \<Longrightarrow> path_append (Path True d) (path_of c) = Path True (d @ [c])"
  by (auto simp: file_name_def path_of_name plain_name_def path_append_def path_empty_def plain_last)

lemma journal_temporary_child:
  assumes "list_all plain_name d" "file_name c"
  shows "journal_temporary_path (Path True (d @ [c])) n = Path True (d @ [temporary_name c n])"
  using append_file_name [OF assms(1) file_name_temporary [OF assms(2)]] assms
  by (simp add: journal_temporary_path_def filename_def temporary_name_def)

lemma atomic_write_cases:
  assumes "safe_dir w d" "file_name c" "atomic_write_journal (Path True (d @ [c])) content n first w = (r, w')"
  shows "only_changes {d @ [temporary_name c n], d @ [c]} w w'"
    and "seen w' (d @ [c]) = seen w (d @ [c]) \<or> (\<exists>ino mtime. seen w' (d @ [c]) = Some (File ino content 0 mtime))"
    and "r = Inr () \<Longrightarrow> \<exists>ino mtime. entry_at w' (d @ [c]) = Some (File ino content 1 mtime)"
    and "r = Inr () \<Longrightarrow> entry_at w' (d @ [temporary_name c n]) = None"
proof -
  let ?t = "temporary_name c n"
  let ?goal = "only_changes {d @ [?t], d @ [c]} w w' \<and>
    (seen w' (d @ [c]) = seen w (d @ [c]) \<or> (\<exists>ino mtime. seen w' (d @ [c]) = Some (File ino content 0 mtime))) \<and>
    (r = Inr () \<longrightarrow> (\<exists>ino mtime. published (d @ [?t]) (d @ [c]) (File ino content 1 mtime) w'))"
  have plain: "list_all plain_name d" "plain_name c" "plain_name ?t"
    using assms file_name_temporary [OF assms(2)] by (auto simp: safe_dir_def file_name_def)
  note path = journal_temporary_child [OF plain(1) assms(2)]
  obtain r1 w1 where wr: "write_new_durable_file (Path True (d @ [?t])) content w = (r1, w1)" by force
  note w1 = write_new_file_cases [OF assms(1) plain(3) wr]
  have ?goal
  proof (cases r1)
    case (Inl e)
    then have "r = Inl e" "w' = w1"
      using assms(3) wr by (simp_all add: atomic_write_journal_def path Let_def bindS_def)
    with w1(1) show ?thesis by (auto simp: only_changes_seen intro: only_changes_mono)
  next
    case (Inr u)
    with w1(3) have new: "w1 = new_file (d @ [?t]) content w" by simp
    have safe: "safe_dir w1 d" by (rule safe_dir_only_changes [OF assms(1) w1(1)]) auto
    have entry: "entry_at w1 (d @ [?t]) = Some (File (w_next_ino w) content 1 (w_now w))" by (simp add: new)
    obtain r2 w2 where publish: "publish_journal (Path True (d @ [?t])) (Path True (d @ [c])) first w1 = (r2, w2)" by force
    have w2: "only_changes {d @ [?t], d @ [c]} w1 w2"
      "seen w2 (d @ [c]) = seen w1 (d @ [c]) \<or> seen w2 (d @ [c]) = Some (File (w_next_ino w) content 0 (w_now w))"
      "r2 = Inr () \<Longrightarrow> published (d @ [?t]) (d @ [c]) (File (w_next_ino w) content 1 (w_now w)) w2"
      using publish publish_laws [OF safe plain(3,2) _ entry] by (cases first; simp; blast)+
    have step: "only_changes {d @ [?t], d @ [c]} w w2"
      by (rule only_changes_step [OF only_changes_mono [OF w1(1)] w2(1)]) auto
    have shown: "seen w2 (d @ [c]) = seen w (d @ [c]) \<or> seen w2 (d @ [c]) = Some (File (w_next_ino w) content 0 (w_now w))"
      using w2(2) only_changes_seen [OF w1(1), of "d @ [c]"] by auto
    show ?thesis
    proof (cases r2)
      case (Inr u2)
      then have "r = Inr ()" "w' = w2"
        using assms(3) wr publish \<open>r1 = Inr u\<close> by (simp_all add: atomic_write_journal_def path Let_def bindS_def catchS_def)
      with step shown w2(3) Inr show ?thesis by auto
    next
      case (Inl e)
      obtain r3 w3 where remove: "remove_path (Path True (d @ [?t])) w2 = (r3, w3)" by force
      have "safe_dir w2 d" by (rule safe_dir_only_changes [OF safe w2(1)]) auto
      note w3 = remove_child [OF this plain(3) remove]
      from Inl have "r = Inl e" "w' = w3"
        using assms(3) wr publish remove \<open>r1 = Inr u\<close> w3(3)
        by (auto simp: atomic_write_journal_def path Let_def bindS_def catchS_def)
      moreover have "only_changes {d @ [?t], d @ [c]} w w3"
        by (rule only_changes_step [OF step only_changes_mono [OF w3(1)]]) auto
      moreover have "seen w3 (d @ [c]) = seen w2 (d @ [c])" using w3(1) by (simp add: only_changes_seen)
      ultimately show ?thesis using shown by auto
    qed
  qed
  then show "only_changes {d @ [?t], d @ [c]} w w'"
    "seen w' (d @ [c]) = seen w (d @ [c]) \<or> (\<exists>ino mtime. seen w' (d @ [c]) = Some (File ino content 0 mtime))"
    "r = Inr () \<Longrightarrow> \<exists>ino mtime. entry_at w' (d @ [c]) = Some (File ino content 1 mtime)"
    "r = Inr () \<Longrightarrow> entry_at w' (d @ [?t]) = None"
    by (auto simp: published_def)
qed

section \<open>Recording a transition\<close>

definition journal_at :: "transaction_session \<Rightarrow> string list \<Rightarrow> string \<Rightarrow> bool" where
  "journal_at s d c \<longleftrightarrow> ss_journal_path s = Path True (d @ [c]) \<and> file_name c"

text \<open>A path shows a text, or what it showed before.\<close>

definition shows_text :: "world \<Rightarrow> string list \<Rightarrow> string \<Rightarrow> bool" where
  "shows_text w p text \<longleftrightarrow> (\<exists>ino mtime. seen w p = Some (File ino text 0 mtime))"

definition holds_text :: "world \<Rightarrow> string list \<Rightarrow> string \<Rightarrow> bool" where
  "holds_text w p text \<longleftrightarrow> (\<exists>ino mtime. entry_at w p = Some (File ino text 1 mtime))"

lemma holds_shows: "holds_text w p text \<Longrightarrow> shows_text w p text"
  by (auto simp: holds_text_def shows_text_def seen_def)

lemmas obj_simps = onW_def readW_def withS_def modS_def inject_def

lemma render_journal_Inr: "render_journal s = Inr text \<Longrightarrow> text = journal_text s \<and> length text \<le> journal_bound"
  by (auto simp: render_journal_def Let_def requireE_def throwE_def split: if_splits)

text \<open>The names that journal writes touch.\<close>

definition journal_area :: "string list \<Rightarrow> string \<Rightarrow> string list set" where
  "journal_area d c = insert (d @ [c]) (range (\<lambda>n. d @ [temporary_name c n]))"

lemma journal_area_child: "p \<in> journal_area d c \<Longrightarrow> \<exists>x. p = d @ [x]"
  by (auto simp: journal_area_def)

lemma journal_area_names [simp]: "{d @ [temporary_name c n], d @ [c]} \<subseteq> journal_area d c"
  by (auto simp: journal_area_def)

lemma safe_dir_journal: "safe_dir w d \<Longrightarrow> only_changes (journal_area d c) w w' \<Longrightarrow> safe_dir w' d"
  by (rule safe_dir_only_changes) (auto dest: journal_area_child)

lemma persist_journal_cases:
  assumes "journal_at s d c" "safe_dir w d" "persist_journal n first (s, w) = (r, x)"
  obtains w' where "x = (s, w')" "only_changes (journal_area d c) w w'"
    "seen w' (d @ [c]) = seen w (d @ [c]) \<or> shows_text w' (d @ [c]) (journal_text s)"
    "r = Inr () \<Longrightarrow> holds_text w' (d @ [c]) (journal_text s)"
proof (cases "render_journal s")
  case (Inl e)
  with assms that show thesis by (auto simp: persist_journal_def bindS_def obj_simps)
next
  case (Inr content)
  obtain w' where w': "atomic_write_journal (ss_journal_path s) content n first w = (r, w')" "x = (s, w')"
    using assms(3) Inr by (auto simp: persist_journal_def bindS_def obj_simps split: prod.splits)
  from Inr have "content = journal_text s" by (simp add: render_journal_Inr)
  with w' assms(1) atomic_write_cases [OF assms(2), of c content n first r w'] that [of w'] show thesis
    by (auto simp: journal_at_def shows_text_def holds_text_def intro: only_changes_mono [OF _ journal_area_names])
qed

lemma iso8601_now_cases:
  obtains recorded_at w' where "iso8601_now w = (Inr recorded_at, w')" "only_changes {} w w'"
proof (cases "w_clock w")
  case (Cons t ts)
  then show thesis using that [of "iso8601 (unat t div 1000000000)"]
    by (simp add: iso8601_now_def bindS_def read_clock_def only_changes_def seen_simps)
next
  case Nil
  then show thesis using that by (simp add: iso8601_now_def bindS_def read_clock_def)
qed

lemma safe_dir_same: "safe_dir w d \<Longrightarrow> only_changes {} w w' \<Longrightarrow> safe_dir w' d"
  by (rule safe_dir_only_changes) auto

lemma push_restore:
  "(push_transition next_state t s)\<lparr>ss_current_state := ss_current_state s,
     ss_transitions := butlast (ss_transitions (push_transition next_state t s))\<rparr> = s"
  by (simp add: push_transition_def)

lemma push_fields [simp]:
  "ss_journal_path (push_transition next_state t s) = ss_journal_path s"
  "ss_spec (push_transition next_state t s) = ss_spec s"
  "ss_current_state (push_transition next_state t s) = next_state"
  "ss_staging_root (push_transition next_state t s) = ss_staging_root s"
  "ss_staging_identity (push_transition next_state t s) = ss_staging_identity s"
  "ss_staged_files (push_transition next_state t s) = ss_staged_files s"
  "ss_stream_journal (push_transition next_state t s) = ss_stream_journal s"
  "ss_retain_stream_cleanup (push_transition next_state t s) = ss_retain_stream_cleanup s"
  "ss_retain_commit_cleanup (push_transition next_state t s) = ss_retain_commit_cleanup s"
  "ss_verified_closure (push_transition next_state t s) = ss_verified_closure s"
  "ss_staging_parent_identity (push_transition next_state t s) = ss_staging_parent_identity s"
  "ss_target_parent_identity (push_transition next_state t s) = ss_target_parent_identity s"
  "ss_journal_directory_identity (push_transition next_state t s) = ss_journal_directory_identity s"
  "tr_sequence (last (ss_transitions (push_transition next_state t s))) = of_nat (length (ss_transitions s))"
  by (simp_all add: push_transition_def)

lemma journal_at_push [simp]: "journal_at (push_transition next_state t s) d c = journal_at s d c"
  by (simp add: journal_at_def)

lemma persist_transition_cases:
  assumes "journal_at s d c" "safe_dir w d" "persist_transition None next_state (s, w) = (r, x)"
  obtains w' t where "only_changes (journal_area d c) w w'"
    "r = Inr () \<Longrightarrow> valid_transition (ss_current_state s) next_state \<and> x = (push_transition next_state t s, w') \<and>
      holds_text w' (d @ [c]) (journal_text (push_transition next_state t s))"
    "r \<noteq> Inr () \<Longrightarrow> x = (s, w') \<and>
      (seen w' (d @ [c]) = seen w (d @ [c]) \<or> shows_text w' (d @ [c]) (journal_text (push_transition next_state t s)))"
proof (cases "valid_transition (ss_current_state s) next_state")
  case False
  with assms(3) that [of w] show thesis by (auto simp: persist_transition_def obj_simps rethrowS_def)
next
  case True
  obtain t w1 where now: "iso8601_now w = (Inr t, w1)" and w1: "only_changes {} w w1" by (rule iso8601_now_cases)
  define s1 where "s1 = push_transition next_state t s"
  define first where "first \<longleftrightarrow> length (ss_transitions s1) = 1"
  define body :: "unit tx" where "body = bindS (if first then returnS () else readW require_journal_directory)
    (\<lambda>_. persist_journal (of_nat (length (ss_transitions s))) first)"
  have run: "persist_transition None next_state (s, w) =
    (case body (s1, w1) of (Inl e, (s2, w2)) \<Rightarrow> (Inl e, (s2\<lparr>ss_current_state := ss_current_state s,
        ss_transitions := butlast (ss_transitions s2)\<rparr>, w2)) | (Inr u, x) \<Rightarrow> (Inr (), x))"
    using True now
    by (auto simp: persist_transition_def bindS_def catchS_def rethrowS_def returnS_def obj_simps s1_def first_def body_def Let_def
        split: prod.splits sum.splits)
  obtain rb xb where body: "body (s1, w1) = (rb, xb)" by (cases "body (s1, w1)")
  have at: "journal_at s1 d c" using assms(1) by (simp add: s1_def)
  have "\<exists>w2. xb = (s1, w2) \<and> only_changes (journal_area d c) w1 w2 \<and>
    (seen w2 (d @ [c]) = seen w1 (d @ [c]) \<or> shows_text w2 (d @ [c]) (journal_text s1)) \<and>
    (rb = Inr () \<longrightarrow> holds_text w2 (d @ [c]) (journal_text s1))"
  proof (cases "first \<or> require_journal_directory s1 w1 = Inr ()")
    case True
    then have "persist_journal (of_nat (length (ss_transitions s))) first (s1, w1) = (rb, xb)"
      using body by (cases first) (auto simp: body_def bindS_def returnS_def readW_def)
    from persist_journal_cases [OF at safe_dir_same [OF assms(2) w1] this] show ?thesis
      by metis
  next
    case False
    with body have "xb = (s1, w1)" "rb \<noteq> Inr ()" by (auto simp: body_def bindS_def readW_def split: sum.splits)
    then show ?thesis by simp
  qed
  then obtain w2 where w2: "xb = (s1, w2)" "only_changes (journal_area d c) w1 w2"
    "seen w2 (d @ [c]) = seen w1 (d @ [c]) \<or> shows_text w2 (d @ [c]) (journal_text s1)"
    "rb = Inr () \<Longrightarrow> holds_text w2 (d @ [c]) (journal_text s1)" by blast
  have "only_changes (journal_area d c) w w2" using only_changes_trans [OF w1 w2(2)] by simp
  moreover have "seen w1 (d @ [c]) = seen w (d @ [c])" using w1 by (simp add: only_changes_seen)
  ultimately show thesis
    using that [of w2 t] w2 body run assms(3) True push_restore [of next_state t s]
    by (cases rb) (auto simp: s1_def)
qed

lemma persist_snapshot_cases:
  assumes "journal_at s d c" "safe_dir w d" "persist_snapshot (s, w) = (r, x)"
  obtains w' where "x = (s, w')" "only_changes (journal_area d c) w w'"
    "seen w' (d @ [c]) = seen w (d @ [c]) \<or> shows_text w' (d @ [c]) (journal_text s)"
    "r = Inr () \<Longrightarrow> holds_text w' (d @ [c]) (journal_text s)"
proof (cases "ss_transitions s \<noteq> [] \<and> require_journal_directory s w = Inr ()")
  case True
  then have "persist_journal (tr_sequence (last (ss_transitions s)) + 1) False (s, w) = (r, x)"
    using assms(3) by (simp add: persist_snapshot_def bindS_def obj_simps)
  from persist_journal_cases [OF assms(1,2) this] that show thesis by metis
next
  case False
  with assms(3) have "x = (s, w)" "r \<noteq> Inr ()"
    by (auto simp: persist_snapshot_def bindS_def obj_simps throwE_def split: if_splits sum.splits)
  with that [of w] show thesis by simp
qed

text \<open>
  C4. Recording a transition is atomic. If \<^verbatim>\<open>persist_transition\<close> returns, the transition was allowed, the
  session has it as its last one, and the journal on disk holds exactly the text of the new
  session under one name. If it throws, the session is as before, and the journal shows what it
  showed before or the complete new text, never a part of it. No path but the journal and its
  temporary names changes.
\<close>

theorem persist_transition_atomic:
  assumes "journal_at s d c" "safe_dir w d" "persist_transition None next_state (s, w) = (r, (s', w'))"
  shows "(\<forall>q. q \<notin> journal_area d c \<longrightarrow> seen w' q = seen w q) \<and>
    (case r of
       Inr _ \<Rightarrow> valid_transition (ss_current_state s) next_state \<and> (\<exists>t. s' = push_transition next_state t s) \<and>
         holds_text w' (d @ [c]) (journal_text s')
     | Inl _ \<Rightarrow> s' = s \<and> (seen w' (d @ [c]) = seen w (d @ [c]) \<or>
         (\<exists>t. shows_text w' (d @ [c]) (journal_text (push_transition next_state t s)))))"
  by (rule persist_transition_cases [OF assms]) (cases r; auto simp: only_changes_seen)

end
