(* ===== verification/Usk_Closure_Laws.thy ===== *)
theory Usk_Closure_Laws
  imports Usk_Session_Laws "HOL-Library.While_Combinator"
begin

text \<open>
  What an accepted observation of a commit closure says about the tree: the loop over the
  directories ends within the entry budget, and the entries below the root are exactly the
  recorded files, with their recorded sizes and digests, and the directories above them.
\<close>

section \<open>Relative paths and their texts\<close>

lemma split_slash_name: "slash \<notin> set p \<Longrightarrow> split_slash acc (p @ slash # r) = (acc @ p) # split_slash [] r"
  by (induction p arbitrary: acc) auto

lemma split_join: "ps \<noteq> [] \<Longrightarrow> list_all (\<lambda>p. slash \<notin> set p) ps \<Longrightarrow> split_slash [] (join_slash ps) = ps"
proof (induction ps rule: join_slash.induct)
  case (2 p)
  then show ?case by (simp add: split_no_slash)
next
  case (3 p q ps)
  then show ?case by (simp add: split_slash_name)
qed simp

lemma file_name_slash: "list_all file_name ps \<Longrightarrow> list_all (\<lambda>p. slash \<notin> set p) ps"
  and file_name_plain: "list_all file_name ps \<Longrightarrow> list_all plain_name ps"
  by (simp_all add: list_all_iff file_name_def)

lemma relative_text_inj:
  assumes "path_string (Path False ps) = path_string (Path False qs)" "list_all file_name ps" "list_all file_name qs"
    "ps \<noteq> []" "qs \<noteq> []"
  shows "ps = qs"
proof -
  have "join_slash ps = join_slash qs" using assms(1) by (simp add: path_string_def)
  with split_join [OF assms(4) file_name_slash [OF assms(2)]] split_join [OF assms(5) file_name_slash [OF assms(3)]]
  show ?thesis by metis
qed

lemma lexically_relative_below:
  assumes "rel \<noteq> []" "list_all plain_name rel"
  shows "lexically_relative (Path True (root @ rel)) (Path True root) = Path False rel"
  using assms mismatch_append [of root rel "[]"]
  by (cases rel) (auto simp: lexically_relative_def depth_of_def plain_name_def)

section \<open>Trees below a directory\<close>

text \<open>
  The part of the tree below a directory is a tree: what has an entry is in a directory, has a
  file name, and a file is shorter than \<open>2 ^ 64\<close> bytes.
\<close>

definition tree_below :: "world \<Rightarrow> string list \<Rightarrow> bool" where
  "tree_below w root \<longleftrightarrow> (\<forall>rel c. entry_at w (root @ rel @ [c]) \<noteq> None \<longrightarrow>
     file_name c \<and> is_dir_entry (entry_at w (root @ rel)) \<and>
     (\<forall>ino content links mtime. entry_at w (root @ rel @ [c]) = Some (File ino content links mtime) \<longrightarrow> length content < 2 ^ 64))"

definition lists_all :: "world \<Rightarrow> bool" where
  "lists_all w \<longleftrightarrow> (\<forall>xs. set (w_order w xs) = set xs)"

lemma children_iff: "c \<in> set (children w d) \<longleftrightarrow> entry_at w (d @ [c]) \<noteq> None"
proof -
  have "c \<in> set (children w d) \<longleftrightarrow> d @ [c] \<in> fst ` set (w_tree w)"
    unfolding children_def by (force simp: image_iff snoc_eq_iff_butlast)
  then show ?thesis by (simp add: entry_at_def map_of_eq_None_iff)
qed

lemma tree_below_names:
  assumes "tree_below w root" "entry_at w (root @ rel) \<noteq> None"
  shows "list_all file_name rel"
  using assms(2)
proof (induction rel rule: rev_induct)
  case (snoc c rel)
  with assms(1) have "file_name c" "is_dir_entry (entry_at w (root @ rel))" unfolding tree_below_def by blast+
  with snoc.IH show ?case by (cases "entry_at w (root @ rel)") auto
qed simp

lemma tree_below_prefix:
  assumes "tree_below w root" "entry_at w (root @ rel @ rest) \<noteq> None" "rest \<noteq> []"
  shows "is_dir_entry (entry_at w (root @ rel))"
  using assms(2,3)
proof (induction rest rule: rev_induct)
  case (snoc c rest)
  with assms(1) have dir: "is_dir_entry (entry_at w (root @ rel @ rest))"
    unfolding tree_below_def by (metis append.assoc)
  with snoc.IH show ?case by (cases "rest = []") (auto elim: is_dir_entryE)
qed simp

text \<open>Without links below a safe directory a path below it resolves to itself.\<close>

lemma walk_below:
  assumes "safe_dir w b" "list_all plain_name cs" "walk w False fuel b cs = Some q" "cs \<noteq> []"
    and "\<And>p t. prefix p cs \<Longrightarrow> p \<noteq> [] \<Longrightarrow> entry_at w (b @ p) \<noteq> Some (Link t)"
  shows "q = b @ cs \<and> safe_dir w (b @ butlast cs)"
  using assms
proof (induction cs arbitrary: b)
  case (Cons c cs)
  have plain: "plain_name c" using Cons.prems by simp
  show ?case
  proof (cases "cs = []")
    case True
    with Cons.prems walk_last [OF plain, of w b False fuel] show ?thesis by simp
  next
    case False
    have "entry_at w (b @ [c]) \<noteq> Some (Link t)" for t using Cons.prems(5) [of "[c]"] by simp
    then have "is_dir_entry (entry_at w (b @ [c]))"
      using Cons.prems(3) plain False by (subst (asm) walk.simps) (auto simp: plain_name_def split: option.splits entry.splits)
    then have dir: "safe_dir w (b @ [c])" "walk w False fuel (b @ [c]) cs = Some q"
      using Cons.prems plain by (auto simp: safe_dir_snoc walk_dir)
    moreover have "entry_at w ((b @ [c]) @ p) \<noteq> Some (Link t)" if "prefix p cs" "p \<noteq> []" for p t
      using Cons.prems(5) [of "c # p" t] that by simp
    ultimately have "q = (b @ [c]) @ cs \<and> safe_dir w ((b @ [c]) @ butlast cs)"
      using Cons.IH [of "b @ [c]"] Cons.prems(2) False by simp
    with False show ?thesis by simp
  qed
qed simp

section \<open>The expected paths\<close>

lemma closure_parents_set:
  "closure_parents n directories parent = Inr directories' \<Longrightarrow>
    set directories' = set directories \<union> {path_string (Path False p) | p. prefix p parent \<and> p \<noteq> []}"
proof (induction n directories parent rule: closure_parents.induct)
  case (1 n directories parent)
  show ?case
  proof (cases "parent = []")
    case True
    with "1.prems" show ?thesis by (simp add: closure_parents.simps)
  next
    case False
    let ?ds = "List.insert (path_string (Path False parent)) directories"
    from "1.prems" False have "\<not> n + length ?ds > maximum_commit_closure_entries"
      "closure_parents n ?ds (butlast parent) = Inr directories'"
      by (auto simp: closure_parents.simps [of n directories parent] Let_def split: if_splits)
    with "1.IH" False have "set directories' = set ?ds \<union> {path_string (Path False p) | p. prefix p (butlast parent) \<and> p \<noteq> []}"
      by simp
    moreover have "prefix p parent \<longleftrightarrow> p = parent \<or> prefix p (butlast parent)" for p
      using False prefix_snoc [of p "butlast parent" "last parent"] by simp
    ultimately show ?thesis using False by auto
  qed
qed

definition relative_names :: "commit_closure_file \<Rightarrow> string list" where
  "relative_names f = elements (cf_relative_path f)"

lemma closure_expected_sets:
  "closure_expected fs ds files = Inr (fs', ds') \<Longrightarrow>
    set fs' = set fs \<union> (\<lambda>f. path_string (cf_relative_path f)) ` set files \<and>
    set ds' = set ds \<union> {path_string (Path False p) | p f. f \<in> set files \<and> prefix p (butlast (relative_names f)) \<and> p \<noteq> []} \<and>
    (\<forall>f \<in> set files. cf_relative_path f = Path False (relative_names f) \<and> relative_names f \<noteq> [])"
proof (induction files arbitrary: fs ds)
  case (Cons f files)
  from Cons.prems obtain ds1 where step:
    "closure_parents (Suc (length fs)) ds (butlast (relative_names f)) = Inr ds1"
    "closure_expected (path_string (cf_relative_path f) # fs) ds1 files = Inr (fs', ds')"
    "\<not> path_empty (cf_relative_path f)" "\<not> is_absolute (cf_relative_path f)"
    by (auto simp: Let_def bindE_eq_Inr relative_names_def split: if_splits)
  have "cf_relative_path f = Path False (relative_names f)" "relative_names f \<noteq> []"
    using step(3,4) by (cases "cf_relative_path f"; simp add: path_empty_def relative_names_def)+
  with Cons.IH [OF step(2)] closure_parents_set [OF step(1)] show ?case by auto
qed simp

section \<open>The scan\<close>

definition recorded :: "string list \<Rightarrow> string list \<Rightarrow> string list \<Rightarrow> entry \<Rightarrow> bool" where
  "recorded fs ds rel e = (case e of
     File _ _ _ _ \<Rightarrow> path_string (Path False rel) \<in> set fs
   | Dir _ \<Rightarrow> path_string (Path False rel) \<in> set ds
   | Link _ \<Rightarrow> False)"

lemma closure_entries_recorded:
  assumes "safe_dir w (root @ rel)"
  shows "list_all plain_name names \<Longrightarrow>
    closure_entries w (Path True root) fs ds (Path True (root @ rel)) names (pending, observed, result) =
      Inr (pending', observed', result') \<Longrightarrow>
    set pending \<subseteq> set pending' \<and>
    (\<forall>c \<in> set names. \<exists>e. entry_at w (root @ rel @ [c]) = Some e \<and> recorded fs ds (rel @ [c]) e \<and>
      (is_dir_entry (Some e) \<longrightarrow> Path True (root @ rel @ [c]) \<in> set pending')) \<and>
    (\<forall>p \<in> set pending'. p \<in> set pending \<or> (\<exists>c. p = Path True (root @ rel @ [c]) \<and> safe_dir w (root @ rel @ [c])))"
proof (induction names arbitrary: pending observed result)
  case (Cons c names)
  have plain: "plain_name c" "list_all plain_name (root @ rel)" using Cons.prems assms by (auto simp: safe_dir_def)
  then have entry: "path_append (Path True (root @ rel)) (element_path c) = Path True (root @ rel @ [c])"
    using append_element [of "root @ rel" c True] by simp
  have relative: "lexically_relative (Path True (root @ rel @ [c])) (Path True root) = Path False (rel @ [c])"
    using lexically_relative_below [of "rel @ [c]" root] plain by simp
  have lstat: "lstat w (Path True (root @ rel @ [c])) = entry_at w (root @ rel @ [c])"
    using lstat_child [OF assms plain(1)] by simp
  note run = Cons.prems(2) [unfolded closure_entries.simps Let_def entry relative lstat]
  have "entry_at w (root @ rel @ [c]) \<noteq> None" using run by (cases "entry_at w (root @ rel @ [c])") (simp_all split: if_splits)
  moreover have "entry_at w (root @ rel @ [c]) \<noteq> Some (Link t)" for t
  proof
    assume "entry_at w (root @ rel @ [c]) = Some (Link t)"
    with run show False by (simp split: if_splits)
  qed
  ultimately obtain e where e: "entry_at w (root @ rel @ [c]) = Some e" "\<And>t. e \<noteq> Link t" by auto
  obtain pending1 observed1 result1 where one: "recorded fs ds (rel @ [c]) e"
    "pending1 = pending \<and> \<not> is_dir_entry (Some e) \<or> pending1 = pending @ [Path True (root @ rel @ [c])] \<and> safe_dir w (root @ rel @ [c])"
    "closure_entries w (Path True root) fs ds (Path True (root @ rel)) names (pending1, observed1, result1) =
      Inr (pending', observed', result')"
  proof (cases e)
    case (Dir ino)
    then have "safe_dir w (root @ rel @ [c])" using safe_dir_snoc [of w "root @ rel" c] assms plain e by simp
    moreover have "recorded fs ds (rel @ [c]) e" using run e(1) Dir by (simp add: recorded_def split: if_splits)
    ultimately show thesis using run e(1) Dir that [of "pending @ [Path True (root @ rel @ [c])]"]
      by (simp add: bindE_eq_Inr split: if_splits) blast
  next
    case (File ino content links mtime)
    with run e(1) that [of pending] show thesis by (simp add: recorded_def split: if_splits)
  next
    case (Link t)
    with e(2) [of t] show thesis by simp
  qed
  have IH: "set pending1 \<subseteq> set pending'"
    "\<forall>c \<in> set names. \<exists>e. entry_at w (root @ rel @ [c]) = Some e \<and> recorded fs ds (rel @ [c]) e \<and>
      (is_dir_entry (Some e) \<longrightarrow> Path True (root @ rel @ [c]) \<in> set pending')"
    "\<forall>p \<in> set pending'. p \<in> set pending1 \<or> (\<exists>c. p = Path True (root @ rel @ [c]) \<and> safe_dir w (root @ rel @ [c]))"
    using Cons.IH [OF _ one(3)] Cons.prems(1) by simp_all
  have "set pending \<subseteq> set pending'" using IH(1) one(2) by auto
  moreover have "is_dir_entry (Some e) \<longrightarrow> Path True (root @ rel @ [c]) \<in> set pending'" using IH(1) one(2) by auto
  moreover have "\<forall>p \<in> set pending'. p \<in> set pending \<or> (\<exists>c. p = Path True (root @ rel @ [c]) \<and> safe_dir w (root @ rel @ [c]))"
    using IH(3) one(2) by fastforce
  ultimately show ?case using e(1) one(1) IH(2) by simp
qed simp

text \<open>Everything below a directory on the stack is recorded when the scan returns.\<close>

definition on_stack :: "world \<Rightarrow> string list \<Rightarrow> path list \<Rightarrow> bool" where
  "on_stack w root pending \<longleftrightarrow> (\<forall>p \<in> set pending. \<exists>rel. p = Path True (root @ rel) \<and> safe_dir w (root @ rel))"

lemma iterate_below:
  assumes "lists_all w" "tree_below w root" "safe_dir w (root @ rel)" "iterate_directory w (Path True (root @ rel)) = Inr names"
  shows "c \<in> set names \<longleftrightarrow> entry_at w (root @ rel @ [c]) \<noteq> None" "list_all plain_name names"
proof -
  have "names = w_order w (children w (root @ rel))"
    using assms(3,4) safe_dir_entry [OF assms(3)] resolve_safe [OF assms(3), of "[]" True]
    by (simp add: iterate_directory_def list_directory_def)
  then have names: "c \<in> set names \<longleftrightarrow> entry_at w (root @ rel @ [c]) \<noteq> None" for c
    using assms(1) by (simp add: lists_all_def children_iff)
  then show "c \<in> set names \<longleftrightarrow> entry_at w (root @ rel @ [c]) \<noteq> None" .
  have "plain_name c" if "c \<in> set names" for c
    using assms(2) names [of c] that unfolding tree_below_def file_name_def by blast
  then show "list_all plain_name names" by (simp add: list_all_iff)
qed

lemma closure_scan_recorded:
  "closure_scan w r fs ds state = Inr out \<Longrightarrow> r = Path True root \<Longrightarrow> state = (pending, observed, result) \<Longrightarrow>
    lists_all w \<Longrightarrow> tree_below w root \<Longrightarrow> on_stack w root pending \<Longrightarrow>
    Path True (root @ rel) \<in> set pending \<Longrightarrow> entry_at w (root @ rel @ below) = Some e \<Longrightarrow> below \<noteq> [] \<Longrightarrow>
    recorded fs ds (rel @ below) e"
proof (induction w r fs ds state arbitrary: pending observed result rel below rule: closure_scan.induct)
  case (1 w r fs ds pending0 observed0 result0)
  note world = "1.prems"(4,5)
  have eq: "pending0 = pending" "observed0 = observed" "result0 = result" using "1.prems"(3) by auto
  have nonempty: "pending \<noteq> []" using "1.prems"(7) by auto
  then obtain lrel where lrel: "last pending = Path True (root @ lrel)" "safe_dir w (root @ lrel)"
    using "1.prems"(6) last_in_set unfolding on_stack_def by metis
  obtain names pending' observed' result' where step: "iterate_directory w (Path True (root @ lrel)) = Inr names"
    "closure_entries w (Path True root) fs ds (Path True (root @ lrel)) names (butlast pending, observed, result) =
      Inr (pending', observed', result')"
    "closure_scan w (Path True root) fs ds (pending', observed', result') = Inr out"
    using "1.prems"(1) nonempty lrel(1)
    by (auto simp: eq "1.prems"(2) closure_scan.simps [of w "Path True root" fs ds pending] bindE_eq_Inr split: if_splits)
  note names = iterate_below [OF world lrel(2) step(1)]
  note entries = closure_entries_recorded [OF lrel(2) names(2) step(2)]
  have stack: "on_stack w root pending'"
    using entries "1.prems"(6) in_set_butlastD [of _ pending] unfolding on_stack_def by (metis append.assoc)
  have IH: "Path True (root @ rel') \<in> set pending' \<Longrightarrow> entry_at w (root @ rel' @ below') = Some e \<Longrightarrow> below' \<noteq> [] \<Longrightarrow>
    recorded fs ds (rel' @ below') e" for rel' below'
    using "1.IH" [of names "(pending', observed', result')" pending' observed' result' rel' below'] nonempty step lrel(1) world stack
    by (simp only: eq "1.prems"(2) simp_thms)
  show ?case
  proof (cases "rel = lrel")
    case False
    then have "Path True (root @ rel) \<in> set (butlast pending)"
      using "1.prems"(7) lrel(1) nonempty by (cases pending rule: rev_cases) auto
    with entries IH "1.prems"(8,9) show ?thesis by blast
  next
    case True
    obtain c rest where below: "below = c # rest" using "1.prems"(9) by (cases below) auto
    have "entry_at w (root @ lrel @ [c]) \<noteq> None"
      using tree_below_prefix [OF world(2), of "lrel @ [c]" rest] "1.prems"(8) True below by (cases "rest = []") (auto elim: is_dir_entryE)
    then have "c \<in> set names" using names(1) [of c] by simp
    then obtain e0 where e0: "entry_at w (root @ lrel @ [c]) = Some e0" "recorded fs ds (lrel @ [c]) e0"
      "is_dir_entry (Some e0) \<Longrightarrow> Path True (root @ lrel @ [c]) \<in> set pending'"
      using bspec [OF conjunct1 [OF conjunct2 [OF entries]], of c] by auto
    show ?thesis
    proof (cases "rest = []")
      case True
      with e0 below \<open>rel = lrel\<close> "1.prems"(8) show ?thesis by simp
    next
      case False
      then have "is_dir_entry (Some e0)"
        using tree_below_prefix [OF world(2), of "lrel @ [c]" rest] "1.prems"(8) \<open>rel = lrel\<close> below e0(1) by simp
      with e0(3) IH [of "lrel @ [c]" rest] "1.prems"(8) False \<open>rel = lrel\<close> below show ?thesis by simp
    qed
  qed
qed

section \<open>The files\<close>

definition no_links_below :: "world \<Rightarrow> string list \<Rightarrow> bool" where
  "no_links_below w root \<longleftrightarrow> (\<forall>rel t. rel \<noteq> [] \<longrightarrow> entry_at w (root @ rel) \<noteq> Some (Link t))"

lemma resolve_below:
  assumes "safe_dir w root" "no_links_below w root" "list_all plain_name names" "names \<noteq> []"
    and "resolve w False (Path True (root @ names)) = Some q"
  shows "q = root @ names \<and> safe_dir w (root @ butlast names)"
proof (rule walk_below [OF assms(1,3) _ assms(4)])
  show "walk w False 40 root names = Some q"
    using assms(5) walk_safe [OF assms(1), of False 40 names] by (simp add: resolve_def)
qed (use assms(2) in \<open>simp add: no_links_below_def\<close>)

lemma stable_identity_below:
  assumes "safe_dir w root" "no_links_below w root" "list_all plain_name names" "names \<noteq> []"
    and "stable_identity w (Path True (root @ names)) = Inr actual"
  obtains ino content mtime where "safe_dir w (root @ butlast names)"
    "entry_at w (root @ names) = Some (File ino content 1 mtime)"
    "actual = \<lparr>si_volume_id = hex_id (w_dev w), si_file_id = hex_id ino, si_size_bytes = of_nat (length content),
      si_modified_time_ns = mtime, si_link_count = 1\<rparr>"
    "rd_portions (quiet_reading w (Path True (root @ names))) = [content]"
proof -
  have plain: "list_all plain_name (root @ names)" using assms(1,3) by (simp add: safe_dir_def)
  then have norm: "lexically_normal (absolute (w_cwd w) (Path True (root @ names))) = Path True (root @ names)"
    by (simp add: absolute_def normal_names_plain)
  from assms(5) obtain e where e: "lstat w (Path True (root @ names)) = Some e" "identity_from_stat (w_dev w) e = Inr actual"
    by (auto simp: stable_identity_def stable_open_def quiet_reading_def norm Let_def bindE_eq_Inr
        split: option.splits entry.splits if_splits)
  then obtain q where q: "resolve w False (Path True (root @ names)) = Some q" "entry_at w q = Some e"
    by (auto simp: lstat_def split: if_splits bind_splits)
  with resolve_below [OF assms(1-4)] have safe: "q = root @ names" "safe_dir w (root @ butlast names)" by auto
  from e(2) obtain ino content mtime where "e = File ino content 1 mtime"
    "actual = \<lparr>si_volume_id = hex_id (w_dev w), si_file_id = hex_id ino, si_size_bytes = of_nat (length content),
      si_modified_time_ns = mtime, si_link_count = 1\<rparr>" by (auto simp: identity_from_stat_Inr)
  moreover have "quiet_reading w (Path True ((root @ butlast names) @ [last names])) = quiet_reading w (Path True (root @ names))"
    using assms(4) by simp
  ultimately show thesis
    using that q(2) safe assms(3,4) quiet_reading_child [OF safe(2), of "last names"]
    by (simp add: Let_def list_all_iff)
qed

definition file_matches :: "world \<Rightarrow> string list \<Rightarrow> commit_closure_file \<Rightarrow> bool" where
  "file_matches w p f \<longleftrightarrow> (\<exists>ino content mtime. entry_at w p = Some (File ino content 1 mtime) \<and>
     of_nat (length content) = cf_size_bytes f \<and> sha256_hex content = cf_sha256 f \<and>
     (cf_stream_output_identity f = [] \<or> cf_stream_output_identity f = hex_id (w_dev w) @ '':'' @ hex_id ino))"

lemma closure_files_match:
  assumes "safe_dir w root" "no_links_below w root" "tree_below w root"
    and "\<forall>f \<in> set files. cf_relative_path f = Path False (relative_names f) \<and> relative_names f \<noteq> [] \<and> list_all plain_name (relative_names f)"
  shows "closure_files w (Path True root) files result = Inr out \<Longrightarrow> f \<in> set files \<Longrightarrow>
    safe_dir w (root @ butlast (relative_names f)) \<and> file_matches w (root @ relative_names f) f"
  using assms(4)
proof (induction files arbitrary: result)
  case (Cons g files)
  have g: "cf_relative_path g = Path False (relative_names g)" "relative_names g \<noteq> []" "list_all plain_name (relative_names g)"
    using Cons.prems(3) by auto
  then have path: "path_append (Path True root) (cf_relative_path g) = Path True (root @ relative_names g)"
    using assms(1) by (simp add: path_append_def path_empty_def plain_last safe_dir_def)
  from Cons.prems(1) obtain actual sha256 result' where run: "stable_identity w (Path True (root @ relative_names g)) = Inr actual"
    "cf_stream_output_identity g = [] \<or> si_volume_id actual @ '':'' @ si_file_id actual = cf_stream_output_identity g"
    "si_size_bytes actual = cf_size_bytes g" "stable_sha256_hex w (Path True (root @ relative_names g)) actual = Inr sha256"
    "sha256 = cf_sha256 g" "closure_files w (Path True root) files result' = Inr out"
    by (auto simp: path Let_def bindE_eq_Inr split: if_splits)
  obtain ino content mtime where found: "safe_dir w (root @ butlast (relative_names g))"
    "entry_at w (root @ relative_names g) = Some (File ino content 1 mtime)"
    "actual = \<lparr>si_volume_id = hex_id (w_dev w), si_file_id = hex_id ino, si_size_bytes = of_nat (length content),
      si_modified_time_ns = mtime, si_link_count = 1\<rparr>"
    "rd_portions (quiet_reading w (Path True (root @ relative_names g))) = [content]"
    by (rule stable_identity_below [OF assms(1,2) g(3,2) run(1)])
  have "length content < 2 ^ 64"
    using assms(3) found(2) g(2) unfolding tree_below_def by (metis append_butlast_last_id option.distinct(1))
  then have "unat (of_nat (length content) :: 64 word) = length content" by (simp add: unat_of_nat)
  with run(4) found have "sha256 = sha256_hex content"
    by (auto simp: stable_sha256_hex_def bindE_eq_Inr read_exact_single)
  with found run have "file_matches w (root @ relative_names g) g" by (auto simp: file_matches_def)
  with found(1) Cons run(6) show ?case by (cases "f = g") auto
qed simp

section \<open>An accepted closure\<close>

definition closure_matches :: "world \<Rightarrow> string list \<Rightarrow> commit_closure_file list \<Rightarrow> bool" where
  "closure_matches w root files \<longleftrightarrow>
    (\<forall>rel. rel \<noteq> [] \<longrightarrow> (entry_at w (root @ rel) \<noteq> None \<longleftrightarrow> (\<exists>f \<in> set files. prefix rel (relative_names f)))) \<and>
    (\<forall>f \<in> set files. file_matches w (root @ relative_names f) f)"

lemma observe_directory_plain:
  assumes "list_all plain_name d" "observe_directory_identity w (Path True d) = Inr identity"
  shows "safe_dir w d"
  using assms by (simp add: observe_directory_identity_def absolute_normal_def path_empty_def absolute_def
      normal_names_plain directory_identity_plain)

lemma prefix_butlast_iff: "names \<noteq> [] \<Longrightarrow> prefix p names \<longleftrightarrow> p = names \<or> prefix p (butlast names)"
  using prefix_snoc [of p "butlast names" "last names"] by simp

lemma list_all_prefix: "list_all P names \<Longrightarrow> prefix p names \<Longrightarrow> list_all P p"
  by (auto simp: prefix_def)

lemma recorded_prefix:
  assumes "closure_expected [] [] files = Inr (fs, ds)" "\<forall>f \<in> set files. list_all file_name (relative_names f)"
    and "recorded fs ds rel e" "list_all file_name rel" "rel \<noteq> []"
  shows "\<exists>f \<in> set files. prefix rel (relative_names f)" and "\<forall>t. e \<noteq> Link t"
proof -
  note sets = closure_expected_sets [OF assms(1)]
  show "\<forall>t. e \<noteq> Link t" using assms(3) by (auto simp: recorded_def)
  have "\<exists>f p. f \<in> set files \<and> p \<noteq> [] \<and> prefix p (relative_names f) \<and> path_string (Path False rel) = path_string (Path False p)"
  proof (cases e)
    case (File ino content links mtime)
    with assms(3) sets obtain f where "f \<in> set files" "path_string (Path False rel) = path_string (cf_relative_path f)"
      by (auto simp: recorded_def)
    with sets show ?thesis by (metis prefix_order.refl)
  next
    case (Dir ino)
    with assms(3) sets obtain f p where f: "f \<in> set files" "prefix p (butlast (relative_names f))" "p \<noteq> []"
      "path_string (Path False rel) = path_string (Path False p)" by (auto simp: recorded_def)
    with sets prefix_butlast_iff show ?thesis by blast
  qed (use \<open>\<forall>t. e \<noteq> Link t\<close> in simp)
  then obtain f p where f: "f \<in> set files" "p \<noteq> []" "prefix p (relative_names f)"
    "path_string (Path False rel) = path_string (Path False p)" by blast
  with assms(2) have "list_all file_name p" using list_all_prefix by blast
  then have "rel = p" using relative_text_inj [OF f(4) assms(4)] assms(5) f(2) by blast
  with f show "\<exists>f \<in> set files. prefix rel (relative_names f)" by blast
qed

lemma closure_exact:
  assumes "list_all plain_name root" "tree_below w root" "lists_all w" "\<forall>f \<in> set files. list_all file_name (relative_names f)"
    and "observe_commit_closure w (Path True root) files = Inr observation"
  shows "safe_dir w root" "no_links_below w root" "closure_matches w root files"
proof -
  obtain fs ds identity observed result where run: "closure_expected [] [] files = Inr (fs, ds)"
    "observe_directory_identity w (Path True root) = Inr identity"
    "closure_scan w (Path True root) fs ds ([Path True root], 0, [(''D:'', identity)]) = Inr (observed, result)"
    "closure_files w (Path True root) files result = Inr observation"
    using assms(5) by (auto simp: observe_commit_closure_def bindE_eq_Inr split: if_splits)
  show safe: "safe_dir w root" using observe_directory_plain [OF assms(1) run(2)] .
  have below: "recorded fs ds rel e" if "entry_at w (root @ rel) = Some e" "rel \<noteq> []" for rel e
    using closure_scan_recorded [OF run(3) refl refl assms(3,2), of "[]" rel e] safe that by (simp add: on_stack_def)
  have known: "\<exists>f \<in> set files. prefix rel (relative_names f)" "\<forall>t. e \<noteq> Link t"
    if "entry_at w (root @ rel) = Some e" "rel \<noteq> []" for rel e
    using recorded_prefix [OF run(1) assms(4) below [OF that] tree_below_names [OF assms(2)] that(2)] that(1) by auto
  then show links: "no_links_below w root" unfolding no_links_below_def by blast
  have names: "\<forall>f \<in> set files. cf_relative_path f = Path False (relative_names f) \<and> relative_names f \<noteq> [] \<and>
      list_all plain_name (relative_names f)"
    using closure_expected_sets [OF run(1)] assms(4) by (auto intro: file_name_plain)
  note found = closure_files_match [OF safe links assms(2) names run(4)]
  have "entry_at w (root @ rel) \<noteq> None" if "f \<in> set files" "prefix rel (relative_names f)" for f rel
  proof (cases "rel = relative_names f")
    case True
    with found [OF that(1)] show ?thesis by (auto simp: file_matches_def)
  next
    case False
    with that names have "prefix rel (butlast (relative_names f))" using prefix_butlast_iff by blast
    then obtain rest where "root @ butlast (relative_names f) = (root @ rel) @ rest" by (auto simp: prefix_def)
    with found [OF that(1)] have "safe_dir w (root @ rel)" using safe_dir_prefix [of w "root @ rel" rest] by metis
    from safe_dir_entry [OF this] show ?thesis by (auto elim: is_dir_entryE)
  qed
  with known(1) found show "closure_matches w root files" unfolding closure_matches_def by blast
qed

text \<open>
  C5. An accepted observation of a commit closure describes the tree below the root exactly: an
  entry is there if and only if it is a recorded file or a directory above one, and every
  recorded file is a regular file with one name, the recorded size, the recorded SHA-256 and,
  where a stream recorded its output, the same inode.
\<close>

theorem observed_closure_exact:
  assumes "list_all plain_name root" "tree_below w root" "lists_all w" "\<forall>f \<in> set files. list_all file_name (relative_names f)"
    and "observe_commit_closure w (Path True root) files = Inr observation"
  shows "(\<forall>rel. rel \<noteq> [] \<longrightarrow> (entry_at w (root @ rel) \<noteq> None \<longleftrightarrow> (\<exists>f \<in> set files. prefix rel (relative_names f)))) \<and>
    (\<forall>f \<in> set files. file_matches w (root @ relative_names f) f)"
  using closure_exact(3) [OF assms] by (simp add: closure_matches_def)

section \<open>The loop ends\<close>

text \<open>The loop as the source writes it: the state of a pass is an exception or the stack, the counter and the map.\<close>

definition closure_pass ::
  "world \<Rightarrow> path \<Rightarrow> string list \<Rightarrow> string list \<Rightarrow> closure_scan_state res \<Rightarrow> closure_scan_state res" where
  "closure_pass w root fs ds state = bindE state (\<lambda>(pending, observed, result).
     bindE (iterate_directory w (last pending)) (\<lambda>names.
     closure_entries w root fs ds (last pending) names (butlast pending, observed, result)))"

fun scanning :: "closure_scan_state res \<Rightarrow> bool" where
  "scanning (Inl e) = False"
| "scanning (Inr (pending, observed, result)) = (pending \<noteq> [])"

definition scan_result :: "closure_scan_state res \<Rightarrow> (nat \<times> commit_closure_observation) res" where
  "scan_result state = bindE state (\<lambda>(pending, observed, result). Inr (observed, result))"

lemma closure_scan_pass:
  "pending \<noteq> [] \<Longrightarrow> closure_scan w root fs ds (pending, observed, result) =
    bindE (closure_pass w root fs ds (Inr (pending, observed, result))) (closure_scan w root fs ds)"
  by (simp add: closure_scan.simps [of w root fs ds pending] closure_pass_def bindE_assoc)

lemma closure_pass_measure:
  assumes "pending \<noteq> []" "closure_pass w root fs ds (Inr (pending, observed, result)) = Inr (pending', observed', result')"
  shows "(maximum_commit_closure_entries - observed') + length pending' < (maximum_commit_closure_entries - observed) + length pending"
proof -
  obtain names where "closure_entries w root fs ds (last pending) names (butlast pending, observed, result) = Inr (pending', observed', result')"
    using assms(2) by (auto simp: closure_pass_def bindE_eq_Inr)
  from closure_entries_measure [OF this] assms(1) show ?thesis by (cases pending rule: rev_cases) auto
qed

lemma closure_loop_from:
  "\<exists>k. k \<le> (maximum_commit_closure_entries - observed) + length pending \<and>
    while_option scanning (closure_pass w root fs ds) (Inr (pending, observed, result)) =
      Some ((closure_pass w root fs ds ^^ k) (Inr (pending, observed, result))) \<and>
    closure_scan w root fs ds (pending, observed, result) =
      scan_result ((closure_pass w root fs ds ^^ k) (Inr (pending, observed, result)))"
proof (induction "(maximum_commit_closure_entries - observed) + length pending" arbitrary: pending observed result rule: less_induct)
  case less
  let ?pass = "closure_pass w root fs ds"
  show ?case
  proof (cases "pending = []")
    case True
    then show ?thesis
      by (intro exI [of _ 0]) (simp add: while_option_unfold scan_result_def closure_scan.simps)
  next
    case False
    show ?thesis
    proof (cases "?pass (Inr (pending, observed, result))")
      case (Inl e)
      moreover have "1 \<le> (maximum_commit_closure_entries - observed) + length pending" using False by (cases pending) auto
      ultimately show ?thesis using False
        by (intro exI [of _ 1])
          (simp add: while_option_unfold [of _ _ "Inr (pending, observed, result)"] while_option_unfold [of _ _ "Inl e"]
            closure_scan_pass scan_result_def)
    next
      case (Inr state)
      obtain pending' observed' result' where state: "state = (pending', observed', result')" by (cases state)
      note smaller = closure_pass_measure [OF False Inr [unfolded state]]
      from less [OF smaller] obtain k where "k \<le> (maximum_commit_closure_entries - observed') + length pending'"
        "while_option scanning ?pass (Inr state) = Some ((?pass ^^ k) (Inr state))"
        "closure_scan w root fs ds state = scan_result ((?pass ^^ k) (Inr state))" unfolding state by blast
      with False Inr smaller show ?thesis
        by (intro exI [of _ "Suc k"])
          (simp add: while_option_unfold [of _ _ "Inr (pending, observed, result)"] closure_scan_pass funpow_swap1)
    qed
  qed
qed

text \<open>
  C25. The loop of the closure scan ends on every file system, whatever it contains: it makes at most
  one pass for the root and one for each unit of the entry budget, 200001 in all, and what it
  then holds is the result of the scan.
\<close>

theorem closure_loop_ends:
  "\<exists>k \<le> 200001. while_option scanning (closure_pass w root fs ds) (Inr ([root], 0, result)) =
      Some ((closure_pass w root fs ds ^^ k) (Inr ([root], 0, result))) \<and>
    closure_scan w root fs ds ([root], 0, result) =
      scan_result ((closure_pass w root fs ds ^^ k) (Inr ([root], 0, result)))"
  using closure_loop_from [of 0 "[root]" w root fs ds result] by (simp add: maximum_commit_closure_entries_def)

end
