(* ===== verification/Usk_Commit_Laws.thy ===== *)
theory Usk_Commit_Laws
  imports Usk_Closure_Laws
begin

text \<open>
  The commit of a verified transaction: before the staged tree is moved to the target, the journal
  on disk already records that the commit has started; the moved tree is exactly the recorded
  closure; nothing else changes.
\<close>

section \<open>Moving a tree\<close>

lemma map_of_move:
  assumes "\<forall>(q, e) \<in> set xs. \<not> prefix t q" "\<not> prefix s t"
  shows "map_of (map (\<lambda>(q, e). if prefix s q then (t @ drop (length s) q, e) else (q, e)) xs) p =
    (if prefix t p then map_of xs (s @ drop (length t) p) else if prefix s p then None else map_of xs p)"
  using assms(1)
proof (induction xs)
  case (Cons x xs)
  obtain q e where x: "x = (q, e)" by force
  show ?case
  proof (cases "prefix s q")
    case True
    then obtain r where "q = s @ r" by (auto simp: prefix_def)
    with Cons x show ?thesis by (auto simp: prefix_def)
  next
    case False
    with Cons x show ?thesis by auto
  qed
qed simp

lemma entry_at_move:
  assumes "s \<noteq> []" "t \<noteq> []" "\<not> prefix s t" "\<And>rel. entry_at w (t @ rel) = None"
  shows "entry_at (move_entries s t w) q =
    (if prefix t q then entry_at w (s @ drop (length t) q) else if prefix s q then None else entry_at w q)"
proof -
  have "\<forall>(q, e) \<in> set (w_tree w). \<not> prefix t q"
  proof clarify
    fix q e assume "(q, e) \<in> set (w_tree w)" "prefix t q"
    then obtain rel where "map_of (w_tree w) (t @ rel) \<noteq> None" by (auto simp: prefix_def map_of_eq_None_iff image_iff) force
    with assms(2,4) show False by (simp add: entry_at_def)
  qed
  from map_of_move [OF this assms(3)] assms(1,2) show ?thesis by (auto simp: entry_at_def move_entries_def)
qed

lemma seen_move:
  assumes "s \<noteq> []" "t \<noteq> []" "\<not> prefix s t" "\<And>rel. entry_at w (t @ rel) = None"
  shows "seen (move_entries s t w) q =
    (if prefix t q then seen w (s @ drop (length t) q) else if prefix s q then None else seen w q)"
  by (simp add: seen_def entry_at_move [OF assms])

lemma rename_directory_Inr:
  assumes "safe_dir w st" "safe_dir w tp" "plain_name tn"
    and "rename_directory_no_replace (Path True st) (Path True (tp @ [tn])) w = (Inr (), w')"
  shows "st \<noteq> []" "entry_at w (tp @ [tn]) = None" "\<not> prefix st (tp @ [tn])" "w' = move_entries st (tp @ [tn]) w"
  using assms resolve_safe [OF assms(1), of "[]" False] resolve_child [OF assms(2,3)]
  by (auto simp: rename_directory_no_replace_def throwE_def split: if_splits)

lemma rename_moves:
  assumes "safe_dir w st" "safe_dir w (butlast tg)" "list_all plain_name tg" "tg \<noteq> []"
    and "entry_at w tg = None \<longrightarrow> (\<forall>rel. entry_at w (tg @ rel) = None)"
    and "rename_directory_no_replace (Path True st) (Path True tg) w = (Inr (), w')"
  shows "seen w' (tg @ rel) = seen w (st @ rel)" "seen w' (st @ rel) = None"
    and "\<not> prefix st q \<Longrightarrow> \<not> prefix tg q \<Longrightarrow> entry_at w' q = entry_at w q"
proof -
  have "plain_name (last tg)" using assms(3,4) by (simp add: list_all_iff)
  with assms have moved: "st \<noteq> []" "entry_at w tg = None" "\<not> prefix st tg" "w' = move_entries st tg w"
    using rename_directory_Inr [of w st "butlast tg" "last tg" w'] by simp_all
  have empty: "entry_at w (tg @ rel) = None" for rel using assms(5) moved(2) by simp
  note move = seen_move [OF moved(1) assms(4) moved(3) empty] and entry = entry_at_move [OF moved(1) assms(4) moved(3) empty]
  have "\<not> prefix tg st"
  proof
    assume "prefix tg st"
    then have "safe_dir w tg" using assms(1) by (auto simp: prefix_def intro: safe_dir_prefix)
    from safe_dir_entry [OF this] moved(2) show False by simp
  qed
  then have "\<not> prefix tg (st @ rel)" using moved(3) prefix_same_cases [of tg "st @ rel" st] by auto
  then show "seen w' (tg @ rel) = seen w (st @ rel)" "seen w' (st @ rel) = None"
    "\<not> prefix st q \<Longrightarrow> \<not> prefix tg q \<Longrightarrow> entry_at w' q = entry_at w q"
    by (simp_all add: moved(4) move entry)
qed

section \<open>Trees that stay\<close>

lemma tree_below_sub: "tree_below w [] \<Longrightarrow> tree_below w root"
  unfolding tree_below_def by (metis append.assoc append_Nil)

lemma seen_File: "seen w p = Some (File ino content links mtime) \<longleftrightarrow>
    links = 0 \<and> (\<exists>n. entry_at w p = Some (File ino content n mtime))"
  unfolding seen_def by (cases "entry_at w p"; cases "the (entry_at w p)") auto

lemma tree_below_seen:
  assumes "tree_below w root" "\<And>rel. seen w' (root @ rel) = seen w (root @ rel)"
  shows "tree_below w' root"
  unfolding tree_below_def
proof (intro allI impI)
  fix rel c
  assume "entry_at w' (root @ rel @ [c]) \<noteq> None"
  then have "entry_at w (root @ rel @ [c]) \<noteq> None" using assms(2) [of "rel @ [c]"] by (simp flip: seen_None_iff)
  with assms(1) have old: "file_name c" "is_dir_entry (entry_at w (root @ rel))"
    "\<And>ino content links mtime. entry_at w (root @ rel @ [c]) = Some (File ino content links mtime) \<Longrightarrow> length content < 2 ^ 64"
    unfolding tree_below_def by blast+
  have "length content < 2 ^ 64" if "entry_at w' (root @ rel @ [c]) = Some (File ino content links mtime)" for ino content links mtime
  proof -
    from that have "seen w (root @ rel @ [c]) = Some (File ino content 0 mtime)"
      using assms(2) [of "rel @ [c]"] by (simp add: seen_def)
    then show ?thesis using old(3) by (auto simp: seen_File)
  qed
  with old assms(2) [of rel] show "file_name c \<and> is_dir_entry (entry_at w' (root @ rel)) \<and>
      (\<forall>ino content links mtime. entry_at w' (root @ rel @ [c]) = Some (File ino content links mtime) \<longrightarrow> length content < 2 ^ 64)"
    by (simp add: seen_dir_iff)
qed

lemma nothing_below:
  assumes "tree_below w []" "entry_at w p = None"
  shows "entry_at w (p @ rel) = None"
proof (rule ccontr)
  assume "entry_at w (p @ rel) \<noteq> None"
  with assms(2) have "rel \<noteq> []" by auto
  with tree_below_prefix [OF assms(1), of p rel] \<open>entry_at w (p @ rel) \<noteq> None\<close> assms(2) show False by simp
qed

section \<open>The recorded files\<close>

definition staged_names :: "staged_file \<Rightarrow> string list" where
  "staged_names f = elements (sf_relative_path f)"

lemma staged_closure_match:
  "staged_closure_files entries files = Inr cfs \<Longrightarrow>
    list_all2 (\<lambda>f cf. cf_relative_path cf = sf_relative_path f \<and> cf_sha256 cf = sf_sha256 f \<and> cf_size_bytes cf = sf_size_bytes f) files cfs"
  by (induction files arbitrary: cfs) (auto simp: Let_def bindE_eq_Inr split: if_splits)

text \<open>The path shows a file with the recorded size and digest.\<close>

definition shows_staged :: "world \<Rightarrow> string list \<Rightarrow> staged_file \<Rightarrow> bool" where
  "shows_staged w p f \<longleftrightarrow> (\<exists>content. shows_text w p content \<and> of_nat (length content) = sf_size_bytes f \<and>
     sha256_hex content = sf_sha256 f)"

definition staged_exactly :: "world \<Rightarrow> string list \<Rightarrow> staged_file list \<Rightarrow> bool" where
  "staged_exactly w root files \<longleftrightarrow>
    (\<forall>rel. rel \<noteq> [] \<longrightarrow> (seen w (root @ rel) \<noteq> None \<longleftrightarrow> (\<exists>f \<in> set files. prefix rel (staged_names f)))) \<and>
    (\<forall>f \<in> set files. shows_staged w (root @ staged_names f) f)"

lemma staged_exactly_seen:
  assumes "\<And>rel. seen w' (root' @ rel) = seen w (root @ rel)" "staged_exactly w root files"
  shows "staged_exactly w' root' files"
  using assms by (simp add: staged_exactly_def shows_staged_def shows_text_def)

lemma observed_staging:
  assumes "ss_staging_root s = Path True st" "list_all plain_name st" "tree_below w st" "lists_all w"
    and "\<forall>f \<in> set (ss_staged_files s). list_all file_name (staged_names f)"
    and "observe_staged_commit_closure s w = Inr closure"
  shows "staged_exactly w st (ss_staged_files s)"
proof -
  obtain cfs where cfs: "staged_closure_files (sj_entries (ss_stream_journal s)) (ss_staged_files s) = Inr cfs"
    "observe_commit_closure w (Path True st) cfs = Inr closure"
    using assms(1,6) by (auto simp: observe_staged_commit_closure_def bindE_eq_Inr)
  note pairs = staged_closure_match [OF cfs(1)]
  have names: "\<exists>f \<in> set (ss_staged_files s). relative_names cf = staged_names f" if "cf \<in> set cfs" for cf
    using list_all2_conv_all_nth [THEN iffD1, OF pairs] that by (force simp: in_set_conv_nth relative_names_def staged_names_def)
  then have "\<forall>cf \<in> set cfs. list_all file_name (relative_names cf)" using assms(5) by metis
  from closure_exact(3) [OF assms(2-4) this cfs(2)] have matches: "closure_matches w st cfs" .
  have paired: "\<exists>cf \<in> set cfs. relative_names cf = staged_names f \<and> cf_sha256 cf = sf_sha256 f \<and> cf_size_bytes cf = sf_size_bytes f"
    if "f \<in> set (ss_staged_files s)" for f
    using list_all2_conv_all_nth [THEN iffD1, OF pairs] that by (force simp: in_set_conv_nth relative_names_def staged_names_def)
  have "shows_staged w (st @ staged_names f) f" if f: "f \<in> set (ss_staged_files s)" for f
  proof -
    obtain cf where "cf \<in> set cfs" "relative_names cf = staged_names f" "cf_sha256 cf = sf_sha256 f" "cf_size_bytes cf = sf_size_bytes f"
      using paired [OF f] by blast
    with matches show ?thesis
      by (fastforce simp: closure_matches_def file_matches_def shows_staged_def shows_text_def seen_def)
  qed
  moreover have "(\<exists>cf \<in> set cfs. prefix rel (relative_names cf)) \<longleftrightarrow> (\<exists>f \<in> set (ss_staged_files s). prefix rel (staged_names f))" for rel
    using names paired by metis
  ultimately show ?thesis using matches by (simp add: closure_matches_def staged_exactly_def)
qed

section \<open>The steps of a commit\<close>

lemma or_recovery_Inr: "or_recovery injector m x = (Inr u, x') \<Longrightarrow> m x = (Inr u, x')"
  by (auto simp: or_recovery_def catchS_eq_Inr bindS_eq_Inr)

lemma persist_journal_session: "persist_journal n first (s, w) = (r, x) \<Longrightarrow> fst x = s"
  by (auto simp: persist_journal_def bindS_def obj_simps split: prod.splits sum.splits)

lemma persist_snapshot_session: "persist_snapshot (s, w) = (r, x) \<Longrightarrow> fst x = s"
  by (auto simp: persist_snapshot_def bindS_def obj_simps split: prod.splits sum.splits dest: persist_journal_session)

lemma commit_effect_steps:
  assumes "commit_effect None (s, w) = (Inr (), (s', w'))"
  obtains w1 w2 where "ss_current_state s = ''verified''"
    "persist_snapshot (s\<lparr>ss_retain_commit_cleanup := True\<rparr>, w) = (Inr (), (s\<lparr>ss_retain_commit_cleanup := True\<rparr>, w1))"
    "prepare_commit (s\<lparr>ss_retain_commit_cleanup := True\<rparr>) w1 = Inr ()"
    "persist_transition None ''committing'' (s\<lparr>ss_retain_commit_cleanup := True\<rparr>, w1) = (Inr (), (s', w2))"
    "verify_staging_identity s' w2 = Inr ()" "target_changed s' w2 = Inr False"
    "rename_directory_no_replace (ss_staging_root s) (ts_target_root (ss_spec s)) w2 = (Inr (), w')"
proof -
  let ?s = "s\<lparr>ss_retain_commit_cleanup := True\<rparr>"
  have run: "ss_current_state s = ''verified'' \<and> (\<exists>s1 w1 s2 w2. persist_snapshot (?s, w) = (Inr (), (s1, w1)) \<and>
      prepare_commit s1 w1 = Inr () \<and> persist_transition None ''committing'' (s1, w1) = (Inr (), (s2, w2)) \<and>
      verify_staging_identity s2 w2 = Inr () \<and> target_changed s2 w2 = Inr False \<and>
      rename_directory_no_replace (ss_staging_root s) (ts_target_root (ss_spec s)) w2 = (Inr (), w') \<and> s' = s2)"
    using assms
    by (auto simp: commit_effect_def obj_simps bindS_eq_Inr returnS_def throwE_def split: if_splits prod.splits dest!: or_recovery_Inr)
  obtain s1 w1 s2 w2 where steps: "persist_snapshot (?s, w) = (Inr (), (s1, w1))" "prepare_commit s1 w1 = Inr ()"
    "persist_transition None ''committing'' (s1, w1) = (Inr (), (s', w2))" "verify_staging_identity s' w2 = Inr ()"
    "target_changed s' w2 = Inr False"
    "rename_directory_no_replace (ss_staging_root s) (ts_target_root (ss_spec s)) w2 = (Inr (), w')"
    using run by blast
  have "s1 = ?s" using persist_snapshot_session [OF steps(1)] by simp
  with that run steps show thesis by blast
qed

definition commit_layout :: "transaction_session \<Rightarrow> string list \<Rightarrow> string \<Rightarrow> string list \<Rightarrow> string list \<Rightarrow> bool" where
  "commit_layout s d c st tg \<longleftrightarrow> journal_at s d c \<and> ss_staging_root s = Path True st \<and> ts_target_root (ss_spec s) = Path True tg \<and>
     list_all plain_name st \<and> list_all plain_name tg \<and> tg \<noteq> [] \<and>
     (\<forall>p \<in> journal_area d c. \<not> prefix st p \<and> \<not> prefix tg p)"

lemma layout_retain [simp]: "commit_layout (s\<lparr>ss_retain_commit_cleanup := b\<rparr>) d c st tg = commit_layout s d c st tg"
  by (simp add: commit_layout_def journal_at_def)

lemma layout_push [simp]: "commit_layout (push_transition n t s) d c st tg = commit_layout s d c st tg"
  by (simp add: commit_layout_def)

lemma area_disjoint:
  assumes "commit_layout s d c st tg" "only_changes (journal_area d c) w w'"
  shows "seen w' (st @ rel) = seen w (st @ rel)" "seen w' (tg @ rel) = seen w (tg @ rel)"
  using assms by (auto simp: commit_layout_def intro!: only_changes_seen)

lemma staging_safe:
  assumes "verify_staging_identity s w = Inr ()" "ss_staging_root s = Path True st" "list_all plain_name st"
  shows "safe_dir w st"
  using assms by (auto simp: verify_staging_identity_def bindE_eq_Inr directory_identity_plain split: if_splits)

lemma target_parent_safe:
  assumes "target_changed s w = Inr changed" "ts_target_root (ss_spec s) = Path True tg" "list_all plain_name tg"
  shows "safe_dir w (butlast tg)"
proof -
  have "list_all plain_name (butlast tg)" using assms(3) by (auto simp: list_all_iff dest: in_set_butlastD)
  with assms show ?thesis
    by (auto simp: target_changed_def bindE_eq_Inr parent_path_def directory_identity_plain)
qed

lemma lists_all_system: "lists_all w \<Longrightarrow> same_system w w' \<Longrightarrow> lists_all w'"
  by (simp add: lists_all_def same_system_def)


end
