(* ===== verification/Usk_Rollback_Laws.thy ===== *)
theory Usk_Rollback_Laws
  imports Usk_Commit_Laws
begin

text \<open>
  Rolling a transaction back removes what the transaction staged and nothing else: every removal is
  of a path below the staging root that was verified first, and a foreign entry or a changed
  file stops the rollback.
\<close>

section \<open>Removing one entry\<close>

definition removes :: "string list \<Rightarrow> world \<Rightarrow> world \<Rightarrow> bool" where
  "removes q w w' \<longleftrightarrow> same_system w w' \<and> (\<forall>p. seen w' p = (if p = q then None else seen w p))"

text \<open>What the rollback keeps of the staging directory while it empties it.\<close>

definition staging_sound :: "string list \<Rightarrow> world \<Rightarrow> bool" where
  "staging_sound st w \<longleftrightarrow> safe_dir w st \<and> no_links_below w st \<and> tree_below w st"

definition shrinks :: "string list \<Rightarrow> world \<Rightarrow> world \<Rightarrow> bool" where
  "shrinks st w w' \<longleftrightarrow> same_system w w' \<and> (\<forall>q. seen w' q = seen w q \<or> prefix st q \<and> seen w' q = None)"

lemma shrinks_refl [simp]: "shrinks st w w"
  by (simp add: shrinks_def)

lemma shrinks_trans: "shrinks st w w' \<Longrightarrow> shrinks st w' w'' \<Longrightarrow> shrinks st w w''"
  unfolding shrinks_def by (metis same_system_trans)

lemma removes_shrinks: "removes (st @ rel) w w' \<Longrightarrow> shrinks st w w'"
  unfolding removes_def shrinks_def by auto

lemma removes_sound:
  assumes "staging_sound st w" "removes (st @ rel) w w'" "rel \<noteq> []" "\<And>c. entry_at w (st @ rel @ [c]) = None"
  shows "staging_sound st w'"
proof -
  have seen: "seen w' p = (if p = st @ rel then None else seen w p)" for p using assms(2) by (simp add: removes_def)
  have "safe_dir w' st"
  proof (rule safe_dir_seen)
    show "safe_dir w st" using assms(1) by (simp add: staging_sound_def)
    fix k
    have "length (take k st) < length (st @ rel)" using assms(3) by (cases rel) auto
    then have "take k st \<noteq> st @ rel" by (metis less_irrefl)
    then show "seen w' (take k st) = seen w (take k st)" by (simp add: seen)
  qed
  moreover have "no_links_below w' st"
    using assms(1) unfolding staging_sound_def no_links_below_def by (simp flip: seen_Link_iff add: seen)
  moreover have "tree_below w' st"
    unfolding tree_below_def
  proof (intro allI impI)
    fix p c
    assume "entry_at w' (st @ p @ [c]) \<noteq> None"
    then have kept: "seen w' (st @ p @ [c]) = seen w (st @ p @ [c])" "entry_at w (st @ p @ [c]) \<noteq> None"
      by (auto simp: seen simp flip: seen_None_iff split: if_splits)
    with assms(4) have "p \<noteq> rel" by auto
    then have "seen w' (st @ p) = seen w (st @ p)" by (simp add: seen)
    moreover have old: "file_name c" "is_dir_entry (entry_at w (st @ p))"
      "\<And>ino content links mtime. entry_at w (st @ p @ [c]) = Some (File ino content links mtime) \<Longrightarrow> length content < 2 ^ 64"
      using assms(1) kept(2) unfolding staging_sound_def tree_below_def by blast+
    moreover have "length content < 2 ^ 64" if "entry_at w' (st @ p @ [c]) = Some (File ino content links mtime)" for ino content links mtime
    proof -
      have "seen w (st @ p @ [c]) = Some (File ino content 0 mtime)" using that kept(1) by (simp add: seen_def)
      then show ?thesis using old(3) by (auto simp: seen_File)
    qed
    ultimately show "file_name c \<and> is_dir_entry (entry_at w' (st @ p)) \<and>
        (\<forall>ino content links mtime. entry_at w' (st @ p @ [c]) = Some (File ino content links mtime) \<longrightarrow> length content < 2 ^ 64)"
      by (simp add: seen_dir_iff)
  qed
  ultimately show ?thesis by (simp add: staging_sound_def)
qed

lemma remove_file:
  assumes "safe_dir w d" "plain_name c" "entry_at w (d @ [c]) = Some (File ino content links mtime)"
    and "remove_path (Path True (d @ [c])) w = (r, w')"
  shows "r = Inr True \<and> removes (d @ [c]) w w' \<or> r = Inr False \<and> w' = w"
  using assms(3,4) resolve_child [OF assms(1,2)]
  by (auto simp: remove_path_def unlink_child [OF assms(1,2)] removes_def seen_simps simp del: seen_None_iff split: if_splits)

lemma remove_directory:
  assumes "safe_dir w d" "d \<noteq> []" "remove_path (Path True d) w = (r, w')"
  shows "r = Inr True \<and> removes d w w' \<and> (\<forall>c. entry_at w (d @ [c]) = None) \<or> r = Inr False \<and> w' = w"
proof -
  have "remove_path (Path True d) w =
      (if children w d = [] \<and> \<not> w_refuses w Sys_rmdir d then (Inr True, del_entry d w) else (Inr False, w))"
    using assms(2) resolve_safe [OF assms(1), of "[]" False] safe_dir_entry [OF assms(1)] by (simp add: remove_path_def)
  moreover have "entry_at w (d @ [c]) = None" if "children w d = []" for c using children_iff [of c w d] that by simp
  ultimately show ?thesis using assms(2,3) by (auto simp: removes_def seen_simps simp del: seen_None_iff split: if_splits)
qed

section \<open>Emptying the staging directory\<close>

definition staged_relative :: "staged_file \<Rightarrow> bool" where
  "staged_relative f \<longleftrightarrow> sf_relative_path f = Path False (staged_names f) \<and> staged_names f \<noteq> [] \<and> list_all file_name (staged_names f)"

lemma staged_path:
  assumes "staged_relative f" "list_all plain_name st"
  shows "path_append (Path True st) (sf_relative_path f) = Path True (st @ staged_names f)"
  using assms by (auto simp: staged_relative_def path_append_def path_empty_def plain_last)

lemma check_staged_file_found:
  assumes "staging_sound st w" "staged_relative f" "check_staged_file w (Path True (st @ staged_names f)) f = Inr ()"
  obtains ino content mtime where "safe_dir w (st @ butlast (staged_names f))"
    "entry_at w (st @ staged_names f) = Some (File ino content 1 mtime)"
proof -
  obtain actual where "stable_identity w (Path True (st @ staged_names f)) = Inr actual"
    using assms(3) by (auto simp: check_staged_file_def bindE_eq_Inr)
  moreover have "safe_dir w st" "no_links_below w st" "list_all plain_name (staged_names f)" "staged_names f \<noteq> []"
    using assms(1,2) by (simp_all add: staging_sound_def staged_relative_def file_name_plain)
  ultimately show thesis using stable_identity_below [of w st "staged_names f" actual thesis] that by blast
qed

lemma file_no_children:
  assumes "tree_below w st" "entry_at w (st @ rel) = Some (File ino content links mtime)"
  shows "entry_at w (st @ rel @ [c]) = None"
proof (rule ccontr)
  assume "entry_at w (st @ rel @ [c]) \<noteq> None"
  with assms(1) have "is_dir_entry (entry_at w (st @ rel))" unfolding tree_below_def by blast
  with assms(2) show False by simp
qed

lemma remove_staged_files_cases:
  assumes "list_all plain_name st"
  shows "staging_sound st w \<Longrightarrow> \<forall>f \<in> set files. staged_relative f \<Longrightarrow>
    remove_staged_files (Path True st) files w = (r, w') \<Longrightarrow> staging_sound st w' \<and> shrinks st w w'"
proof (induction files arbitrary: w)
  case (Cons f files)
  let ?names = "staged_names f"
  have relative: "staged_relative f" using Cons.prems(2) by simp
  note path = staged_path [OF relative assms]
  show ?case
  proof (cases "check_staged_file w (Path True (st @ ?names)) f")
    case (Inl e)
    with Cons.prems show ?thesis by (auto simp: path Let_def)
  next
    case (Inr u)
    obtain ino content mtime where found: "safe_dir w (st @ butlast ?names)" "entry_at w (st @ ?names) = Some (File ino content 1 mtime)"
      using check_staged_file_found [OF Cons.prems(1) relative] Inr by auto
    obtain removed w1 where step: "remove_path (Path True (st @ ?names)) w = (removed, w1)" by force
    have names: "?names \<noteq> []" "plain_name (last ?names)" using relative by (auto simp: staged_relative_def list_all_iff file_name_def)
    then consider (gone) "removed = Inr True" "removes (st @ ?names) w w1" | (kept) "removed = Inr False" "w1 = w"
      using remove_file [OF found(1), of "last ?names"] found(2) step by auto
    then show ?thesis
    proof cases
      case gone
      have "staging_sound st w1" "shrinks st w w1"
        using removes_sound [OF Cons.prems(1) gone(2) names(1)] removes_shrinks [OF gone(2)]
          file_no_children [OF _ found(2)] Cons.prems(1) by (simp_all add: staging_sound_def)
      moreover have "remove_staged_files (Path True st) files w1 = (r, w')"
        using Cons.prems(3) Inr by (simp add: path Let_def bindS_run [where m = "remove_path (Path True (st @ ?names))" and w = w, OF step [unfolded gone(1)]])
      ultimately show ?thesis using Cons.IH [of w1] Cons.prems(2) by (auto intro: shrinks_trans)
    next
      case kept
      with Cons.prems Inr show ?thesis by (simp add: path Let_def bindS_run [where m = "remove_path (Path True (st @ ?names))" and w = w, OF step [unfolded kept(1)]])
    qed
  qed
qed simp

lemma remove_directories_cases:
  shows "staging_sound st w \<Longrightarrow> \<forall>p \<in> set ds. \<exists>rel. p = Path True (st @ rel) \<and> rel \<noteq> [] \<and> list_all plain_name (st @ rel) \<Longrightarrow>
    remove_directories ds w = (r, w') \<Longrightarrow> staging_sound st w' \<and> shrinks st w w'"
proof (induction ds arbitrary: w)
  case (Cons p ds)
  obtain rel where rel: "p = Path True (st @ rel)" "rel \<noteq> []" "list_all plain_name (st @ rel)" using Cons.prems(2) by auto
  show ?case
  proof (cases "tx_require_safe_directory w p")
    case (Inl e)
    with Cons.prems show ?thesis by auto
  next
    case (Inr u)
    then have safe: "safe_dir w (st @ rel)" using rel tx_safe_plain by auto
    obtain removed w1 where step: "remove_path p w = (removed, w1)" by force
    from remove_directory [OF safe _ step [unfolded rel(1)]] rel(2)
    consider (gone) "removed = Inr True" "removes (st @ rel) w w1" "\<And>c. entry_at w (st @ rel @ [c]) = None"
      | (kept) "removed = Inr False" "w1 = w" by fastforce
    then show ?thesis
    proof cases
      case gone
      have "staging_sound st w1" "shrinks st w w1"
        using removes_sound [OF Cons.prems(1) gone(2) rel(2) gone(3)] removes_shrinks [OF gone(2)] by simp_all
      moreover have "remove_directories ds w1 = (r, w')"
        using Cons.prems(3) Inr by (simp add: bindS_run [where m = "remove_path p" and w = w, OF step [unfolded gone(1)]])
      ultimately show ?thesis using Cons.IH [of w1] Cons.prems(2) by (auto intro: shrinks_trans)
    next
      case kept
      with Cons.prems Inr show ?thesis by (simp add: bindS_run [where m = "remove_path p" and w = w, OF step [unfolded kept(1)]])
    qed
  qed
qed simp

lemma check_foreign_links: "check_foreign fs ds es = Inr () \<Longrightarrow> (p, e) \<in> set es \<Longrightarrow> e \<noteq> Link t"
  by (induction es) (auto split: entry.splits if_splits)

lemma verified_staging_sound:
  assumes "verify_recorded_staging_closure s w = Inr ()" "ss_staging_root s = Path True st" "list_all plain_name st" "tree_below w st"
  shows "staging_sound st w"
proof -
  have run: "verify_staging_identity s w = Inr ()" "\<exists>fs ds. check_foreign fs ds (entries_below w (Path True st)) = Inr ()"
    using assms(1,2) by (auto simp: verify_recorded_staging_closure_def bindE_eq_Inr Let_def)
  have safe: "safe_dir w st" by (rule staging_safe [OF run(1) assms(2,3)])
  have "entry_at w (st @ rel) \<noteq> Some (Link t)" if "rel \<noteq> []" for rel t
  proof
    assume "entry_at w (st @ rel) = Some (Link t)"
    then have "(st @ rel, Link t) \<in> set (w_tree w)" using that by (auto simp: entry_at_def dest: map_of_SomeD split: if_splits)
    then have "(path_append (Path True st) (Path False rel), Link t) \<in> set (entries_below w (Path True st))"
      using resolve_safe [OF safe, of "[]" True] that by (force simp: entries_below_def strict_prefix_def)
    with run(2) check_foreign_links show False by blast
  qed
  with safe assms(4) show ?thesis by (simp add: staging_sound_def no_links_below_def)
qed

lemma parents_below_paths:
  assumes "staged_relative f" "list_all plain_name st" "p \<in> set (parents_below (Path True st) (sf_relative_path f))"
  shows "\<exists>rel. p = Path True (st @ rel) \<and> rel \<noteq> [] \<and> list_all plain_name (st @ rel)"
proof -
  obtain k where k: "1 \<le> k" "k < length (staged_names f)" "p = path_append (Path True st) (Path False (take k (staged_names f)))"
    using assms(3) by (auto simp: parents_below_def staged_names_def)
  have "list_all plain_name (take k (staged_names f))" "take k (staged_names f) \<noteq> []"
    using assms(1) k by (auto simp: staged_relative_def intro!: list_all_takeD file_name_plain)
  with k(3) assms(2) show ?thesis by (auto simp: path_append_def path_empty_def plain_last)
qed

lemma directory_order_set: "set (directory_order ds) = set ds"
  by (simp add: directory_order_def)

lemma emptied:
  assumes "staging_sound st w" "removes st w w'" "\<And>c. entry_at w (st @ [c]) = None"
  shows "seen w' (st @ rel) = None"
proof (cases rel)
  case (Cons c rest)
  have "entry_at w (st @ rel) = None"
  proof (rule ccontr)
    assume "entry_at w (st @ rel) \<noteq> None"
    with Cons assms(1) assms(3) [of c] tree_below_prefix [of w st "[c]" rest] show False
      by (cases "rest = []") (auto simp: staging_sound_def)
  qed
  with assms(2) Cons show ?thesis by (auto simp: removes_def simp del: seen_None_iff) (simp add: seen_def)
qed (use assms(2) in \<open>simp add: removes_def del: seen_None_iff\<close>)

lemma remove_closure_cases:
  assumes "ss_staging_root s = Path True st" "list_all plain_name st" "st \<noteq> []" "tree_below w st"
    and "\<forall>f \<in> set (ss_staged_files s). staged_relative f" "remove_recorded_staging_closure (s, w) = (r, x)"
  obtains w' where "x = (s, w')" "shrinks st w w'" "r = Inr () \<Longrightarrow> \<forall>rel. seen w' (st @ rel) = None"
    "ss_retain_stream_cleanup s \<or> ss_retain_commit_cleanup s \<Longrightarrow> r \<noteq> Inr () \<and> w' = w"
proof (cases "(ss_retain_stream_cleanup s \<or> ss_retain_commit_cleanup s) \<or> verify_recorded_staging_closure s w \<noteq> Inr ()")
  case True
  then have "x = (s, w)" "r \<noteq> Inr ()" using assms(6)
    by (auto simp: remove_recorded_staging_closure_def obj_simps throwE_def bindS_def guardS_def requireE_def split: sum.splits if_splits)
  with that show thesis by simp
next
  case False
  let ?ds = "directory_order (concat (map (\<lambda>f. parents_below (ss_staging_root s) (sf_relative_path f)) (ss_staged_files s)))"
  have sound: "staging_sound st w" using False verified_staging_sound [OF _ assms(1,2,4)] by blast
  obtain r1 w1 where one: "remove_staged_files (Path True st) (ss_staged_files s) w = (r1, w1)" by force
  have w1: "staging_sound st w1" "shrinks st w w1" using remove_staged_files_cases [OF assms(2) sound assms(5) one] by auto
  obtain r2 w2 where two: "remove_directories ?ds w1 = (r2, w2)" by force
  have "\<forall>p \<in> set ?ds. \<exists>rel. p = Path True (st @ rel) \<and> rel \<noteq> [] \<and> list_all plain_name (st @ rel)"
    using assms(1,2,5) parents_below_paths by (auto simp: directory_order_set)
  from remove_directories_cases [OF w1(1) this two] have w2: "staging_sound st w2" "shrinks st w w2"
    using w1(2) by (auto intro: shrinks_trans)
  obtain r3 w3 where three: "remove_path (Path True st) w2 = (r3, w3)" by force
  from remove_directory [OF _ assms(3) three] w2(1)
  consider (gone) "r3 = Inr True" "removes st w2 w3" "\<And>c. entry_at w2 (st @ [c]) = None" | (kept) "r3 = Inr False" "w3 = w2"
    by (fastforce simp: staging_sound_def)
  then have w3: "shrinks st w2 w3" "r3 = Inr True \<Longrightarrow> \<forall>rel. seen w3 (st @ rel) = None"
    using emptied [OF w2(1)] removes_shrinks [of st "[]"] by (cases; simp del: seen_None_iff)+
  have "x = (s, w1) \<and> r \<noteq> Inr () \<or> x = (s, w2) \<and> r \<noteq> Inr () \<or> x = (s, w3) \<and> (r = Inr () \<longrightarrow> r3 = Inr True)"
    using assms(1,6) False one two three
    by (auto simp: remove_recorded_staging_closure_def obj_simps bindS_def guardS_def requireE_def throwE_def
        split: sum.splits if_splits)
  with that [of w1] that [of w2] that [of w3] w1(2) w2(2) shrinks_trans [OF w2(2) w3(1)] w3(2) False show thesis by blast
qed

section \<open>The rollback\<close>

text \<open>Outside the staging tree and the journal names nothing changes; in the staging tree entries only go.\<close>

definition contained :: "string list \<Rightarrow> string list set \<Rightarrow> world \<Rightarrow> world \<Rightarrow> bool" where
  "contained st area w w' \<longleftrightarrow> (\<forall>q. \<not> prefix st q \<and> q \<notin> area \<longrightarrow> seen w' q = seen w q) \<and>
     (\<forall>rel. seen w' (st @ rel) = seen w (st @ rel) \<or> seen w' (st @ rel) = None)"

lemma contained_trans: "contained st area w w' \<Longrightarrow> contained st area w' w'' \<Longrightarrow> contained st area w w''"
  unfolding contained_def by metis

lemma contained_shrinks: "shrinks st w w' \<Longrightarrow> contained st area w w'"
  unfolding contained_def shrinks_def by metis

lemma contained_journal:
  "commit_layout s d c st tg \<Longrightarrow> only_changes (journal_area d c) w w' \<Longrightarrow> contained st (journal_area d c) w w'"
  unfolding contained_def using area_disjoint(1) only_changes_seen by metis

lemma layout_root: "commit_layout s d c st tg \<Longrightarrow> st \<noteq> [] \<and> list_all plain_name st \<and> ss_staging_root s = Path True st"
  by (auto simp: commit_layout_def journal_area_def)

lemma safe_dir_shrinks:
  assumes "commit_layout s d c st tg" "safe_dir w d" "shrinks st w w'"
  shows "safe_dir w' d"
proof (rule safe_dir_seen [OF assms(2)])
  fix k assume "k \<le> length d"
  have "\<not> prefix st (d @ [c])" using assms(1) by (simp add: commit_layout_def journal_area_def)
  then have "\<not> prefix st (take k d)" by (metis append_take_drop_id prefixI prefix_prefix)
  with assms(3) show "seen w' (take k d) = seen w (take k d)" unfolding shrinks_def by blast
qed

lemma bindS_readW: "bindS (readW f) g (s, w) = (case f s w of Inl e \<Rightarrow> (Inl e, (s, w)) | Inr x \<Rightarrow> g x (s, w))"
  by (simp add: bindS_def readW_def split: sum.splits)

lemma bindS_quiet: "bindS (inject None state point) g = g ()"
  by (simp add: inject_def)

definition recovery_first :: "transaction_session \<Rightarrow> unit tx" where
  "recovery_first s = (if ss_current_state s \<noteq> ''recovery_required'' then persist_transition None ''recovery_required'' else returnS ())"

lemma rollback_split:
  assumes "rollback None (s, w) = (r, x)"
  obtains (refused) "x = (s, w)" "r \<noteq> Inr ()"
  | (tried) "\<not> path_exists w (ts_target_root (ss_spec s))"
    "bindS (recovery_first s) (\<lambda>_. bindS remove_recorded_staging_closure (\<lambda>_. persist_transition None ''rolled_back'')) (s, w) = (r, x)"
proof (cases "ss_current_state s \<in> {''staging'', ''staged'', ''verified'', ''committing'', ''recovery_required''} \<and>
    \<not> path_exists w (ts_target_root (ss_spec s))")
  case True
  then have "rollback None (s, w) =
      bindS (recovery_first s) (\<lambda>_. bindS remove_recorded_staging_closure (\<lambda>_. persist_transition None ''rolled_back'')) (s, w)"
    by (simp add: rollback_def withS_def bindS_readW bindS_quiet requireE_def recovery_first_def)
  with True assms that show thesis by simp
next
  case False
  then have "x = (s, w)" "r \<noteq> Inr ()"
    using assms by (auto simp: rollback_def withS_def bindS_readW requireE_def throwE_def split: if_splits)
  with that show thesis by blast
qed

text \<open>The first phase records that a recovery is required, unless the journal says so already.\<close>

lemma rollback_first:
  assumes "journal_at s d c" "safe_dir w d"
    and "recovery_first s (s, w) = (r, x)"
  obtains s1 w1 where "x = (s1, w1)" "only_changes (journal_area d c) w w1" "s1 = s \<or> (\<exists>t. s1 = push_transition ''recovery_required'' t s)"
proof (cases "ss_current_state s = ''recovery_required''")
  case True
  with assms(3) that [of s w] show thesis by (simp add: recovery_first_def returnS_def)
next
  case False
  then have "persist_transition None ''recovery_required'' (s, w) = (r, x)" using assms(3) by (simp add: recovery_first_def)
  then obtain w1 t where "only_changes (journal_area d c) w w1" "x = (push_transition ''recovery_required'' t s, w1) \<or> x = (s, w1)"
    by (rule persist_transition_cases [OF assms(1,2)]) blast
  with that show thesis by blast
qed


end
