(* ===== verification/Usk_Recovery_Laws.thy ===== *)
theory Usk_Recovery_Laws
  imports Usk_Rollback_Laws
begin

text \<open>
  Reopening a transaction: a session read back from its journal is the session that wrote it, up
  to what the journal does not record.
\<close>

section \<open>Reading the transitions and files back\<close>

lemma state_chain_from:
  assumes "state_chain prior (of_nat (length prev)) ts"
  shows "resume_transitions tid prev prior (map (\<lambda>t. members_value (transition_members tid t)) ts) = Inr (prev @ ts)"
  using assms
proof (induction ts arbitrary: prev prior)
  case (Cons t ts)
  then show ?case using Cons.IH [where prev = "prev @ [t]" and prior = "tr_to t"]
    by (simp add: transition_jat transition_from add.commute)
qed simp

definition readable_file :: "staged_file \<Rightarrow> bool" where
  "readable_file f \<longleftrightarrow> path_of (path_string (sf_relative_path f)) = sf_relative_path f \<and>
     safe_relative_path (sf_relative_path f) \<and> tx_valid_sha256 (sf_sha256 f)"

lemma staged_jat:
  "string_at (members_value (staged_members f)) ''relative_path'' = Inr (path_string (sf_relative_path f))"
  "string_at (members_value (staged_members f)) ''sha256'' = Inr (sf_sha256 f)"
  "jat (members_value (staged_members f)) ''size_bytes'' = Inr (JUnsigned (sf_size_bytes f))"
  by (simp_all add: members_jat members_ok_staged string_at_def) (simp_all add: staged_members_def)

lemma resume_rendered_files:
  "\<forall>f \<in> set fs. readable_file f \<Longrightarrow> resume_staged_files (map (\<lambda>f. members_value (staged_members f)) fs) = Inr fs"
proof (induction fs)
  case (Cons f fs)
  then have "path_of (path_string (sf_relative_path f)) = sf_relative_path f" "safe_relative_path (sf_relative_path f)"
    "tx_valid_sha256 (sf_sha256 f)" "resume_staged_files (map (\<lambda>f. members_value (staged_members f)) fs) = Inr fs"
    by (simp_all add: readable_file_def)
  then show ?case by (simp add: staged_jat)
qed simp

definition retained :: "transaction_session \<Rightarrow> bool" where
  "retained s \<longleftrightarrow> ss_retain_stream_cleanup s \<or> ss_retain_commit_cleanup s"

text \<open>What the journal does not record: the observed closure, the mode, and the identity of a staging root to be retained.\<close>

definition restored :: "transaction_session \<Rightarrow> transaction_session" where
  "restored s = s\<lparr>ss_staging_identity := (if retained s then [] else ss_staging_identity s),
     ss_maintenance_finalization := False, ss_verified_closure := []\<rparr>"

lemma resume_rendered_metadata:
  assumes "\<forall>f \<in> set (ss_staged_files s). readable_file f" "ss_staged_files s0 = []" "ss_staging_identity s0 = []"
  shows "resume_metadata (journal_document s) s0 =
    Inr (s0\<lparr>ss_staging_identity := (if retained s then [] else ss_staging_identity s), ss_staged_files := ss_staged_files s\<rparr>)"
proof -
  have "jcontains (journal_document s) ''recovery_metadata''" by (rule jat_contains) (rule journal_jat)
  then obtain members where members: "as_object (journal_document s) = Inr members" "map_of members ''recovery_metadata'' \<noteq> None"
    by (cases "journal_document s") (auto simp: jcontains_def)
  let ?identity = "if retained s then [] else ss_staging_identity s"
  have identity: "jat (members_value (metadata_members s)) ''staging_identity'' = Inr (nullable ?identity)"
    by (simp add: metadata_jat retained_def)
  have "bindE (if nullable ?identity \<noteq> JNull then as_string (nullable ?identity) else Inr (ss_staging_identity s0)) f = f ?identity" for f
    by (simp add: nullable_def assms(3))
  with members show ?thesis
    by (simp only: resume_metadata_def journal_jat metadata_jat(2) identity resume_rendered_files [OF assms(1)] bindE_Inr
        as_array.simps assms(2) append_Nil if_False)
qed

section \<open>Reopening\<close>

definition parents_observed :: "transaction_session \<Rightarrow> world \<Rightarrow> bool" where
  "parents_observed s w \<longleftrightarrow>
    directory_identity w (ts_staging_parent (ss_spec s)) = Inr (ss_staging_parent_identity s) \<and>
    directory_identity w (parent_path (ts_target_root (ss_spec s))) = Inr (ss_target_parent_identity s) \<and>
    directory_identity w (path_append (ts_state_root (ss_spec s)) (path_of ''transactions'')) = Inr (ss_journal_directory_identity s)"

lemma resume_document:
  assumes "journal_ok s" "\<forall>f \<in> set (ss_staged_files s). readable_file f" "parents_observed s w"
    and "ss_journal_path s = journal_path_of (ss_spec s)"
    and "parse text journal_limits = Inr (journal_document s)"
  shows "resume_journal text (bare_session empty_stream_journal (ss_spec s) now) w = Inr (restored s)"
proof -
  have ok: "ss_transitions s \<noteq> []" "state_chain [] 0 (ss_transitions s)"
    "ss_current_state s = last_state (ss_transitions s)" "ss_staging_root s = staging_root_of (ss_spec s)"
    "ts_required_commit_authority (ss_spec s) = Staged_child_bound_v1 \<longrightarrow> ss_retain_commit_cleanup s" "stream_part_ok s"
    using assms(1) by (simp_all add: journal_ok_def)
  have "binds_members (journal_document s) (binding_members (ss_spec s)) msg = Inr ()" for msg
    by (simp add: binding_members_def string_at_def journal_jat)
  moreover have "resume_transitions tid [] [] (map (\<lambda>t. members_value (transition_members tid t)) (ss_transitions s)) = Inr (ss_transitions s)" for tid
    using state_chain_from [of "[]" "[]" "ss_transitions s" tid] ok(2) by simp
  ultimately show ?thesis using ok assms
    by (simp add: resume_journal_def bare_session_def check_rendered_roots journal_jat string_at_def check_rendered_requirement
        read_rendered_retention read_rendered_stream observe_parents_def parents_observed_def Let_def
        resume_rendered_metadata restored_def)
qed

end
