(* ===== verification/Usk_Session_Samples.thy ===== *)
theory Usk_Session_Samples
  imports Usk_Recovery_Laws
begin

text \<open>
  When the file operations of a session succeed: on a system that refuses nothing and takes a whole
  journal in one write, an existing journal is replaced and a transition is recorded. With these
  laws concrete sessions run to their end, to which the properties of the session apply.
\<close>

section \<open>Operations that complete\<close>

definition calm :: "world \<Rightarrow> bool" where
  "calm w \<longleftrightarrow> w_refuses w = (\<lambda>_ _. False) \<and> w_writes w = (\<lambda>_. [Wrote journal_bound]) \<and> w_clock w = []"

lemma write_loop_calm: "length content \<le> n \<Longrightarrow> 0 < n \<Longrightarrow> write_loop [Wrote n] content [] = (content, True)"
  by (cases content) simp_all

definition journal_replaced :: "string list \<Rightarrow> string \<Rightarrow> 64 word \<Rightarrow> string \<Rightarrow> world \<Rightarrow> world" where
  "journal_replaced d c n content w =
    put_entry (d @ [c]) (File (w_next_ino w) content 1 (w_now w))
      (del_entry (d @ [temporary_name c n]) (unlink_entry (d @ [c]) (new_file (d @ [temporary_name c n]) content w)))"

lemma atomic_write_completes:
  assumes "safe_dir w d" "file_name c" "calm w" "length content \<le> journal_bound"
    and "entry_at w (d @ [c]) = Some (File i old 1 m)" "entry_at w (d @ [temporary_name c n]) = None"
  shows "atomic_write_journal (Path True (d @ [c])) content n False w = (Inr (), journal_replaced d c n content w)"
proof -
  let ?t = "temporary_name c n"
  let ?w1 = "new_file (d @ [?t]) content w"
  have plain: "list_all plain_name d" "plain_name c" "plain_name ?t"
    using assms file_name_temporary [OF assms(2)] by (auto simp: safe_dir_def file_name_def)
  have calm: "\<not> w_refuses w a q" "w_writes w q = [Wrote journal_bound]" for a q using assms(3) by (simp_all add: calm_def)
  have "write_loop [Wrote journal_bound] content [] = (content, True)"
    using assms(4) by (intro write_loop_calm) (simp_all add: journal_bound_def)
  then have wr: "write_new_durable_file (Path True (d @ [?t])) content w = (Inr (), ?w1)"
    using assms(1,6) plain(3) safe_dir_entry [OF assms(1)] calm
    by (simp add: write_new_durable_file_def resolve_child new_file_def Let_def)
  have safe: "safe_dir ?w1 d" using assms(1,6) by (rule safe_dir_new_file) simp
  have entries: "entry_at ?w1 (d @ [?t]) = Some (File (w_next_ino w) content 1 (w_now w))"
    "entry_at ?w1 (d @ [c]) = Some (File i old 1 m)" using assms(5) by simp_all
  have rename: "rename_file (Path True (d @ [?t])) (Path True (d @ [c])) ?w1 = (Inr True, journal_replaced d c n content w)"
    using rename_child [OF safe plain(3,2) _ entries(1)] entries(2) calm by (simp add: journal_replaced_def)
  have step: "only_changes {d @ [?t], d @ [c]} w (journal_replaced d c n content w)"
    by (auto simp: only_changes_def journal_replaced_def new_file_def seen_simps)
  have after: "safe_dir (journal_replaced d c n content w) d" by (rule safe_dir_only_changes [OF assms(1) step]) auto
  have "fsync_directory (Path True d) (journal_replaced d c n content w) = (Inr (), journal_replaced d c n content w)"
    using resolve_safe [OF after, of "[]" True] safe_dir_entry [OF after] only_changes_system [OF step] calm
    by (simp add: fsync_directory_def same_system_def)
  then have "publish_journal (Path True (d @ [?t])) (Path True (d @ [c])) False ?w1 = (Inr (), journal_replaced d c n content w)"
    using lstat_child [OF safe plain(2)] entries(2) rename by (simp add: publish_journal_def bindS_def liftS_def guardS_def requireE_def)
  with wr show ?thesis
    by (simp add: atomic_write_journal_def journal_temporary_child [OF plain(1) assms(2)] Let_def bindS_def catchS_def)
qed

lemma persist_journal_completes:
  assumes "journal_at s d c" "safe_dir w d" "calm w" "length (journal_text s) \<le> journal_bound"
    and "entry_at w (d @ [c]) = Some (File i old 1 m)" "entry_at w (d @ [temporary_name c n]) = None"
  shows "persist_journal n False (s, w) = (Inr (), (s, journal_replaced d c n (journal_text s) w))"
  using assms atomic_write_completes [OF assms(2) _ assms(3,4,5,6)]
  by (simp add: persist_journal_def render_journal_def bindS_def obj_simps journal_at_def)

lemma persist_snapshot_completes:
  assumes "journal_at s d c" "safe_dir w d" "calm w" "length (journal_text s) \<le> journal_bound"
    and "entry_at w (d @ [c]) = Some (File i old 1 m)" "entry_at w (d @ [temporary_name c (tr_sequence (last (ss_transitions s)) + 1)]) = None"
    and "ss_transitions s \<noteq> []" "require_journal_directory s w = Inr ()"
  shows "persist_snapshot (s, w) =
    (Inr (), (s, journal_replaced d c (tr_sequence (last (ss_transitions s)) + 1) (journal_text s) w))"
  using assms(7,8) persist_journal_completes [OF assms(1-6)] by (simp add: persist_snapshot_def bindS_def obj_simps)

lemma persist_transition_completes:
  assumes "journal_at s d c" "safe_dir w d" "calm w"
    and "length (journal_text (push_transition next_state (iso8601 (unat (w_now w) div 1000000000)) s)) \<le> journal_bound"
    and "entry_at w (d @ [c]) = Some (File i old 1 m)" "entry_at w (d @ [temporary_name c (of_nat (length (ss_transitions s)))]) = None"
    and "ss_transitions s \<noteq> []" "require_journal_directory s w = Inr ()" "valid_transition (ss_current_state s) next_state"
  shows "persist_transition None next_state (s, w) =
    (let s' = push_transition next_state (iso8601 (unat (w_now w) div 1000000000)) s in
     (Inr (), (s', journal_replaced d c (of_nat (length (ss_transitions s))) (journal_text s') w)))"
proof -
  let ?s = "push_transition next_state (iso8601 (unat (w_now w) div 1000000000)) s"
  have now: "iso8601_now w = (Inr (iso8601 (unat (w_now w) div 1000000000)), w)"
    using assms(3) by (simp add: iso8601_now_def bindS_def read_clock_def calm_def)
  have "require_journal_directory ?s w = Inr ()" using assms(8) by (simp add: require_journal_directory_def)
  moreover have "persist_journal (of_nat (length (ss_transitions s))) False (?s, w) =
      (Inr (), (?s, journal_replaced d c (of_nat (length (ss_transitions s))) (journal_text ?s) w))"
    using assms by (intro persist_journal_completes) simp_all
  moreover have "length (ss_transitions ?s) \<noteq> 1" using assms(7) by (simp add: push_transition_def)
  ultimately show ?thesis
    using assms(9) now by (simp add: persist_transition_def bindS_def catchS_def obj_simps returnS_def Let_def)
qed

lemma calm_replaced [simp]: "calm (journal_replaced d c n content w) = calm w"
  by (simp add: calm_def journal_replaced_def put_entry_def del_entry_def unlink_entry_def adjust_links_def new_file_def
      split: option.splits entry.splits)

lemma replaced_changes: "only_changes (journal_area d c) w (journal_replaced d c n content w)"
  by (auto simp: only_changes_def journal_replaced_def new_file_def seen_simps journal_area_def)

lemma replaced_entry: "entry_at (journal_replaced d c n content w) (d @ [c]) = Some (File (w_next_ino w) content 1 (w_now w))"
  by (simp add: journal_replaced_def entry_at_put)

lemma replaced_other:
  assumes "entry_at w (d @ [c]) = Some (File i old 1 m)" "entry_at w q = Some (File j content links mtime)" "j \<noteq> i"
    "q \<noteq> d @ [c]" "q \<noteq> d @ [temporary_name c n]"
  shows "entry_at (journal_replaced d c n text w) q = Some (File j content links mtime)"
  using assms
  by (simp add: journal_replaced_def entry_at_put entry_at_del unlink_entry_def entry_at_adjust)

section \<open>A staged tree of one file\<close>

lemma remdups_single: "set xs = {c} \<Longrightarrow> remdups xs = [c]"
  by (induction xs) (auto simp: subset_singleton_iff split: if_splits)

definition single_file :: "world \<Rightarrow> string list \<Rightarrow> string \<Rightarrow> 64 word \<Rightarrow> 64 word \<Rightarrow> string \<Rightarrow> bool" where
  "single_file w st c ino fino content \<longleftrightarrow> safe_dir w st \<and> file_name c \<and> entry_at w st = Some (Dir ino) \<and>
     entry_at w (st @ [c]) = Some (File fino content 1 0) \<and> (\<forall>x. x \<noteq> c \<longrightarrow> entry_at w (st @ [x]) = None) \<and>
     w_order w = remdups \<and> w_refuses w = (\<lambda>_ _. False) \<and> length content < 2 ^ 64"

definition single_closure :: "world \<Rightarrow> string \<Rightarrow> 64 word \<Rightarrow> 64 word \<Rightarrow> commit_closure_observation" where
  "single_closure w c ino fino =
    [(''D:'', tx_hex_id (w_dev w) @ '':'' @ tx_hex_id ino), (''F:'' @ c, hex_id (w_dev w) @ '':'' @ hex_id fino)]"

definition single_record :: "string \<Rightarrow> string \<Rightarrow> commit_closure_file" where
  "single_record c content = \<lparr>cf_relative_path = Path False [c], cf_sha256 = sha256_hex content,
     cf_size_bytes = of_nat (length content), cf_stream_output_identity = []\<rparr>"

lemma single_scan:
  assumes "single_file w st c ino fino content"
  shows "closure_scan w (Path True st) [c] [] ([Path True st], 0, result) = Inr (1, result)"
proof -
  have safe: "safe_dir w st" and plain: "list_all plain_name st" "plain_name c"
    using assms by (auto simp: single_file_def safe_dir_def file_name_def)
  have "set (children w st) = {c}" using assms children_iff [of _ w st] by (auto simp: single_file_def)
  then have names: "iterate_directory w (Path True st) = Inr [c]"
    using assms resolve_safe [OF safe, of "[]" True] safe_dir_entry [OF safe]
    by (simp add: iterate_directory_def list_directory_def single_file_def remdups_single)
  have "closure_entries w (Path True st) [c] [] (Path True st) [c] ([], 0, result) = Inr ([], 1, result)"
    using assms append_element [OF plain, of True] lexically_relative_below [of "[c]" st] plain lstat_child [OF safe plain(2)]
    by (simp add: single_file_def Let_def maximum_commit_closure_entries_def path_string_def)
  with names show ?thesis
    by (simp add: closure_scan.simps [of w "Path True st" "[c]" "[]" "[Path True st]"] closure_scan.simps [of w "Path True st" "[c]" "[]" "[]"])
qed

lemma single_observed:
  assumes "single_file w st c ino fino content" "''D:'' < ''F:'' @ c"
  shows "observe_commit_closure w (Path True st) [single_record c content] = Inr (single_closure w c ino fino)"
proof -
  have safe: "safe_dir w st" and plain: "list_all plain_name st" "plain_name c"
    using assms by (auto simp: single_file_def safe_dir_def file_name_def)
  have expected: "closure_expected [] [] [single_record c content] = Inr ([c], [])"
    using plain(2) by (simp add: single_record_def path_string_def path_empty_def closure_parents.simps plain_name_def
        maximum_commit_closure_entries_def maximum_commit_closure_depth_def Let_def)
  have root: "observe_directory_identity w (Path True st) = Inr (tx_hex_id (w_dev w) @ '':'' @ tx_hex_id ino)"
    using assms(1) plain(1)
    by (simp add: observe_directory_identity_def absolute_normal_def path_empty_def absolute_def normal_names_plain
        directory_identity_plain single_file_def)
  have path: "path_append (Path True st) (Path False [c]) = Path True (st @ [c])"
    using plain by (simp add: path_append_def path_empty_def plain_last)
  have size: "unat (of_nat (length content) :: 64 word) = length content" using assms(1) by (simp add: single_file_def unat_of_nat)
  have reading: "quiet_reading w (Path True (st @ [c])) = \<lparr>rd_dev = w_dev w, rd_lstat = Some (File fino content 1 0), rd_open = True,
      rd_fstat = Some (File fino content 1 0), rd_portions = [content], rd_fstat_after = Some (File fino content 1 0),
      rd_lstat_after = Some (File fino content 1 0)\<rparr>"
    using quiet_reading_child [OF safe plain(2)] assms(1) by (simp add: single_file_def Let_def)
  have "closure_files w (Path True st) [single_record c content] [(''D:'', tx_hex_id (w_dev w) @ '':'' @ tx_hex_id ino)] =
      Inr (single_closure w c ino fino)"
    using assms(2) size
    by (simp add: single_record_def path reading stable_identity_def path_empty_def stable_open_def stable_sha256_hex_def
        read_exact_single verify_unchanged_def single_closure_def Let_def requireE_def path_string_def)
  with expected root single_scan [OF assms(1)] show ?thesis
    by (simp add: observe_commit_closure_def maximum_commit_closure_entries_def)
qed

section \<open>A verified session\<close>

abbreviation "journal_dir \<equiv> [''st'', ''transactions'']"
abbreviation "journal_file \<equiv> ''tx1.journal.json''"
abbreviation "staging_dir \<equiv> [''srv'', ''.usk-stage-tx1'']"
abbreviation "target_dir \<equiv> [''srv'', ''app'']"

definition sample_world :: world where
  "sample_world = \<lparr>w_tree = [([''srv''], Dir 1), (staging_dir, Dir 2), (staging_dir @ [''f''], File 3 ''data'' 1 0),
      ([''st''], Dir 4), (journal_dir, Dir 5), (journal_dir @ [journal_file], File 6 ''old'' 1 0), ([''au''], Dir 7)],
    w_dev = 1, w_cwd = [], w_next_ino = 9, w_now = 0, w_clock = [], w_order = remdups, w_refuses = (\<lambda>_ _. False),
    w_writes = (\<lambda>_. [Wrote journal_bound])\<rparr>"

definition dir_id :: "64 word \<Rightarrow> string" where "dir_id ino = tx_hex_id 1 @ '':'' @ tx_hex_id ino"

definition sample_file :: staged_file where
  "sample_file = \<lparr>sf_relative_path = Path False [''f''], sf_sha256 = sha256_hex ''data'', sf_size_bytes = 4\<rparr>"

definition session_at :: "string \<Rightarrow> transition list \<Rightarrow> transaction_session" where
  "session_at state ts = \<lparr>ss_spec = sample_spec, ss_staging_root = Path True staging_dir,
     ss_journal_path = Path True (journal_dir @ [journal_file]), ss_created_at = ''2026-01-01T00:00:00Z'', ss_current_state = state,
     ss_staging_identity = dir_id 2, ss_retain_stream_cleanup = False, ss_retain_commit_cleanup = False,
     ss_maintenance_finalization = False, ss_verified_closure = single_closure sample_world ''f'' 2 3,
     ss_stream_journal = empty_stream_journal, ss_staging_parent_identity = dir_id 1, ss_target_parent_identity = dir_id 1,
     ss_journal_directory_identity = dir_id 5, ss_transitions = ts, ss_staged_files = [sample_file]\<rparr>"

definition verified_session :: transaction_session where
  "verified_session = session_at ''verified'' (take 6 sample_transitions)"

lemma sample_paths: "staging_root_of sample_spec = Path True staging_dir"
  "journal_path_of sample_spec = Path True (journal_dir @ [journal_file])"
  by code_simp+

lemma sample_world_safe: "safe_dir sample_world journal_dir" "safe_dir sample_world staging_dir" "safe_dir sample_world [''srv'']"
  by (simp_all add: safe_dir_def sample_world_def entry_at_def plain_name_def le_Suc_eq)

lemma sample_calm: "calm sample_world"
  by (simp add: calm_def sample_world_def)

lemma sample_lists: "lists_all sample_world"
  by (simp add: lists_all_def sample_world_def)

text \<open>A tree is one when each of its keys lies in a directory and names a file.\<close>

definition sound_key :: "world \<Rightarrow> string list \<times> entry \<Rightarrow> bool" where
  "sound_key w x = (fst x \<noteq> [] \<and> file_name (last (fst x)) \<and> is_dir_entry (entry_at w (butlast (fst x))) \<and>
     (case snd x of File _ content _ _ \<Rightarrow> length content < 100 | _ \<Rightarrow> True))"

lemma tree_below_keys:
  assumes "list_all (sound_key w) (w_tree w)"
  shows "tree_below w []"
  unfolding tree_below_def
proof (intro allI impI)
  fix rel c
  assume "entry_at w ([] @ rel @ [c]) \<noteq> None"
  then obtain e where e: "map_of (w_tree w) (rel @ [c]) = Some e" by (auto simp: entry_at_def)
  then have "sound_key w (rel @ [c], e)" using assms by (auto simp: list_all_iff dest: map_of_SomeD)
  with e show "file_name c \<and> is_dir_entry (entry_at w ([] @ rel)) \<and> (\<forall>ino content links mtime.
      entry_at w ([] @ rel @ [c]) = Some (File ino content links mtime) \<longrightarrow> length content < 2 ^ 64)"
    by (auto simp: sound_key_def entry_at_def)
qed

lemma sample_tree_below: "tree_below sample_world []"
  by (rule tree_below_keys) (simp add: sample_world_def sound_key_def entry_at_def file_name_def plain_name_def)

lemma sample_single: "single_file sample_world staging_dir ''f'' 2 3 ''data''"
  using sample_world_safe(2)
  by (simp add: single_file_def sample_world_def entry_at_def file_name_def plain_name_def)

lemma sample_layout:
  "commit_layout (session_at state ts) journal_dir journal_file staging_dir target_dir"
  by (auto simp: commit_layout_def journal_at_def session_at_def sample_spec_def file_name_def plain_name_def dest: journal_area_child)

lemma length_tx_hex: "length (tx_hex_id n) = 16"
  unfolding tx_hex_id_def by (rule length_hex_pad)

lemma civil_zero: "civil_from_days 0 = (1970, 1, 1)"
proof -
  have e: "(719468::nat) div 146097 = 4" "(719468::nat) mod 146097 = 135080" by simp_all
  have y: "((135080::nat) - 135080 div 1460 + 135080 div 36524 - 135080 div 146096) div 365 = 369" by simp
  show ?thesis unfolding civil_from_days_def Let_def add_0 e y by simp
qed

lemma sample_digits: "digit_char 0 = CHR ''0''" "digit_char 1 = CHR ''1''" "digit_char 7 = CHR ''7''" "digit_char 9 = CHR ''9''"
  by code_simp+

lemma iso_zero: "iso8601 0 = ''1970-01-01T00:00:00Z''"
  using civil_zero by (simp add: iso8601_def sample_digits [simplified] dec_small dec_big zero_pad_def)

lemma length_dir_id: "length (dir_id n) = 33"
  by (simp add: dir_id_def length_tx_hex)

lemma session_metadata_size:
  "length (render_metadata (session_at state ts)) \<le> 1500"
  "length (render_metadata ((session_at state ts)\<lparr>ss_retain_commit_cleanup := True\<rparr>)) \<le> 1500"
proof -
  have "length (render_staged_file sample_file) \<le> 700"
    using length_quote [of "''f''"] length_quote [of "sha256_hex ''data''"] length_sha256_hex [of "''data''"]
    by (simp add: render_staged_file_def sample_file_def lit_def path_string_def dec_small)
  then show "length (render_metadata (session_at state ts)) \<le> 1500"
    "length (render_metadata ((session_at state ts)\<lparr>ss_retain_commit_cleanup := True\<rparr>)) \<le> 1500"
    using length_quote [of "dir_id 2"] length_dir_id [of 2]
    by (auto simp: render_metadata_def session_at_def empty_stream_journal_def lit_def)
qed

definition short_transition :: "transition \<Rightarrow> bool" where
  "short_transition t \<longleftrightarrow> length (tr_from t) \<le> 20 \<and> length (tr_to t) \<le> 20 \<and> length (tr_recorded_at t) \<le> 20"

lemma sum_list_bound: "(\<And>x. x \<in> set xs \<Longrightarrow> f x \<le> k) \<Longrightarrow> sum_list (map f xs) \<le> k * length (xs :: 'a list)" for k :: nat
  by (induction xs) (auto intro: add_mono)

lemma session_journal_size:
  assumes "s = session_at state ts \<or> s = (session_at state ts)\<lparr>ss_retain_commit_cleanup := True\<rparr>"
    and "list_all short_transition ts" "ts \<noteq> []" "length ts \<le> 20" "length state \<le> 20"
  shows "length (journal_text s) \<le> journal_bound"
proof -
  have s: "ss_transitions s = ts" "ss_spec s = sample_spec" "ss_staging_root s = Path True staging_dir"
    "ss_created_at s = ''2026-01-01T00:00:00Z''" "ss_current_state s = state"
    using assms(1) by (auto simp: session_at_def)
  have meta: "length (render_metadata s) \<le> 1500" using assms(1) session_metadata_size by auto
  have "sum_list (map (\<lambda>t. Suc (500 + 6 * (length (ts_transaction_id (ss_spec s)) + length (tr_from t) + length (tr_to t) +
      length (tr_recorded_at t)))) ts) \<le> 2000 * length ts"
    using assms(2) by (intro sum_list_bound) (auto simp: list_all_iff short_transition_def s sample_spec_def)
  moreover have "length (tr_recorded_at (last ts)) \<le> 20" using assms(2,3) by (auto simp: list_all_iff short_transition_def)
  moreover have "path_string (Path True staging_dir) = ''/srv/.usk-stage-tx1''" by (simp add: path_string_def)
  ultimately show ?thesis
    using length_journal_text [OF meta] assms(4,5) sample_roots s
    by (simp add: sample_spec_def journal_bound_def)
qed

text \<open>The parents and the staging root are where the session observed them, in every world that shows the same directories.\<close>

lemma dir_identity:
  assumes "safe_dir w p" "seen w p = Some (Dir ino)" "w_dev w = 1"
  shows "directory_identity w (Path True p) = Inr (dir_id ino)"
proof -
  have "entry_at w p = Some (Dir ino)" using assms(2) safe_dir_entry [OF assms(1)] by (auto simp: seen_def elim!: is_dir_entryE)
  with assms(1,3) show ?thesis by (simp add: directory_identity_plain dir_id_def safe_dir_def)
qed

definition like_sample :: "world \<Rightarrow> bool" where
  "like_sample w \<longleftrightarrow> only_changes (journal_area journal_dir journal_file) sample_world w"

lemma sample_shown:
  "seen sample_world journal_dir = Some (Dir 5)" "seen sample_world staging_dir = Some (Dir 2)"
  "seen sample_world [''srv''] = Some (Dir 1)" "seen sample_world target_dir = None"
  by (simp_all add: sample_world_def seen_def entry_at_def)

lemma outside:
  "journal_dir \<notin> journal_area journal_dir journal_file" "staging_dir \<notin> journal_area journal_dir journal_file"
  "[''srv''] \<notin> journal_area journal_dir journal_file" "target_dir \<notin> journal_area journal_dir journal_file"
  by (auto dest!: journal_area_child)

lemma like_sample_dirs:
  assumes "like_sample w"
  shows "safe_dir w journal_dir" "safe_dir w staging_dir" "safe_dir w [''srv'']"
    "directory_identity w (Path True journal_dir) = Inr (dir_id 5)" "directory_identity w (Path True staging_dir) = Inr (dir_id 2)"
    "directory_identity w (Path True [''srv'']) = Inr (dir_id 1)" "seen w target_dir = None"
proof -
  have area: "only_changes (journal_area journal_dir journal_file) sample_world w" using assms by (simp add: like_sample_def)
  have dev: "w_dev w = 1" using only_changes_system [OF area] by (simp add: same_system_def sample_world_def)
  have shown: "seen w journal_dir = Some (Dir 5)" "seen w staging_dir = Some (Dir 2)" "seen w [''srv''] = Some (Dir 1)" "seen w target_dir = None"
    using only_changes_seen [OF area, of journal_dir] only_changes_seen [OF area, of staging_dir]
      only_changes_seen [OF area, of "[''srv'']"] only_changes_seen [OF area, of target_dir] outside sample_shown by simp_all
  have prefixes: "\<not> prefix p journal_dir" "\<not> prefix p staging_dir" "\<not> prefix p [''srv'']"
    if "p \<in> journal_area journal_dir journal_file" for p
    using that by (auto dest!: journal_area_child)
  show safe: "safe_dir w journal_dir" "safe_dir w staging_dir" "safe_dir w [''srv'']"
    by (rule safe_dir_only_changes [OF sample_world_safe(1) area prefixes(1)] safe_dir_only_changes [OF sample_world_safe(2) area prefixes(2)]
        safe_dir_only_changes [OF sample_world_safe(3) area prefixes(3)], assumption)+
  show "directory_identity w (Path True journal_dir) = Inr (dir_id 5)" "directory_identity w (Path True staging_dir) = Inr (dir_id 2)"
    "directory_identity w (Path True [''srv'']) = Inr (dir_id 1)" "seen w target_dir = None"
    using safe shown dev by (simp_all add: dir_identity)
qed

lemma like_sample_guards:
  assumes "like_sample w" "ss_staging_root s = Path True staging_dir" "ss_spec s = sample_spec" "ss_staging_identity s = dir_id 2"
    "ss_staging_parent_identity s = dir_id 1" "ss_target_parent_identity s = dir_id 1" "ss_journal_directory_identity s = dir_id 5"
    "ss_journal_path s = Path True (journal_dir @ [journal_file])"
  shows "verify_staging_identity s w = Inr ()" "target_changed s w = Inr False" "require_journal_directory s w = Inr ()"
    "\<not> path_exists w (Path True target_dir)"
proof -
  note dirs = like_sample_dirs [OF assms(1)]
  have ids: "dir_id 2 \<noteq> []" using length_dir_id [of 2] by auto
  show absent: "\<not> path_exists w (Path True target_dir)"
    using stat_child [OF dirs(3), of "''app''"] dirs(7) by (simp add: path_exists_def plain_name_def)
  show "verify_staging_identity s w = Inr ()" "target_changed s w = Inr False"
    using assms dirs ids absent by (simp_all add: verify_staging_identity_def target_changed_def sample_spec_def parent_path_def requireE_def)
  have "parent_path (ss_journal_path s) = Path True journal_dir" using assms(8) by (simp add: parent_path_def)
  then show "require_journal_directory s w = Inr ()" using assms(7) dirs(4) by (simp add: require_journal_directory_def requireE_def)
qed

lemma session_at_fields [simp]:
  "ss_staging_root (session_at state ts) = Path True staging_dir" "ss_spec (session_at state ts) = sample_spec"
  "ss_staging_identity (session_at state ts) = dir_id 2" "ss_staging_parent_identity (session_at state ts) = dir_id 1"
  "ss_target_parent_identity (session_at state ts) = dir_id 1" "ss_journal_directory_identity (session_at state ts) = dir_id 5"
  "ss_journal_path (session_at state ts) = Path True (journal_dir @ [journal_file])" "ss_current_state (session_at state ts) = state"
  "ss_transitions (session_at state ts) = ts" "ss_staged_files (session_at state ts) = [sample_file]"
  "ss_stream_journal (session_at state ts) = empty_stream_journal"
  "ss_verified_closure (session_at state ts) = single_closure sample_world ''f'' 2 3"
  "ss_retain_stream_cleanup (session_at state ts) = False" "ss_retain_commit_cleanup (session_at state ts) = False"
  by (simp_all add: session_at_def)

lemma push_session_at:
  "push_transition n t (session_at state ts) = session_at n (ts @
     [\<lparr>tr_sequence = of_nat (length ts), tr_from = state, tr_to = n, tr_recorded_at = t\<rparr>])"
  "push_transition n t ((session_at state ts)\<lparr>ss_retain_commit_cleanup := True\<rparr>) = (session_at n (ts @
     [\<lparr>tr_sequence = of_nat (length ts), tr_from = state, tr_to = n, tr_recorded_at = t\<rparr>]))\<lparr>ss_retain_commit_cleanup := True\<rparr>"
  by (simp_all add: push_transition_def session_at_def)

lemma sample_transitions_short: "list_all short_transition sample_transitions" "list_all short_transition (take n sample_transitions)"
  by (simp_all add: sample_transitions_def short_transition_def list_all_takeD)

lemma like_sample_replaced:
  "like_sample w \<Longrightarrow> like_sample (journal_replaced journal_dir journal_file n content w)"
  unfolding like_sample_def by (rule only_changes_step [OF _ replaced_changes])

lemma replaced_temporary:
  "entry_at (journal_replaced d c n content w) (d @ [temporary_name c m]) =
    (if m = n then None else entry_at (journal_replaced d c n content w) (d @ [temporary_name c m]))"
  by (simp flip: seen_None_iff add: journal_replaced_def seen_simps)

lemma temporary_absent:
  "entry_at sample_world (journal_dir @ [temporary_name journal_file n]) = None"
  by (simp add: sample_world_def entry_at_def temporary_name_def)

lemma sample_single_replaced:
  "single_file (journal_replaced journal_dir journal_file n content sample_world) staging_dir ''f'' 2 3 ''data''" (is "single_file ?w _ _ _ _ _")
proof -
  have like: "like_sample ?w" by (rule like_sample_replaced) (simp add: like_sample_def)
  have area: "only_changes (journal_area journal_dir journal_file) sample_world ?w" using like by (simp add: like_sample_def)
  have shown: "seen ?w (staging_dir @ rel) = seen sample_world (staging_dir @ rel)" for rel
    by (rule area_disjoint(1) [OF sample_layout area])
  have inodes: "(3::64 word) \<noteq> 6" by code_simp
  have "entry_at ?w (staging_dir @ [''f'']) = Some (File 3 ''data'' 1 0)"
    using inodes by (intro replaced_other [where i = 6 and old = "''old''" and m = 0]) (simp_all add: sample_world_def entry_at_def)
  moreover have "entry_at ?w staging_dir = Some (Dir 2)"
    using shown [of "[]"] sample_shown(2) like_sample_dirs(2) [OF like] by (auto simp: seen_def dest!: safe_dir_entry elim!: is_dir_entryE)
  moreover have "entry_at ?w (staging_dir @ [x]) = None" if "x \<noteq> ''f''" for x
    using shown [of "[x]"] that sample_single by (simp flip: seen_None_iff add: single_file_def)
  ultimately show ?thesis
    using like_sample_dirs(2) [OF like] sample_single only_changes_system [OF area] by (auto simp: single_file_def same_system_def)
qed

section \<open>Running the session\<close>

lemma sample_journal_entry: "entry_at sample_world (journal_dir @ [journal_file]) = Some (File 6 ''old'' 1 0)"
  by (simp add: sample_world_def entry_at_def)

lemma like_sample_refl: "like_sample sample_world"
  by (simp add: like_sample_def)

abbreviation "replaced_journal \<equiv> journal_replaced journal_dir journal_file"

lemma replaced_now [simp]: "w_now (journal_replaced d c n content w) = w_now w"
  by (simp add: journal_replaced_def put_entry_def del_entry_def unlink_entry_def adjust_links_def new_file_def
      split: option.splits entry.splits)

lemma sample_now [simp]: "w_now sample_world = 0"
  by (simp add: sample_world_def)

lemma session_records:
  assumes "s = session_at state ts \<or> s = (session_at state ts)\<lparr>ss_retain_commit_cleanup := True\<rparr>"
    and "like_sample w" "calm w" "w_now w = 0" "entry_at w (journal_dir @ [journal_file]) = Some (File i old 1 m)"
    and "entry_at w (journal_dir @ [temporary_name journal_file (of_nat (length ts))]) = None"
    and "valid_transition state next_state" "list_all short_transition ts" "ts \<noteq> []" "length ts < 20" "length state \<le> 20" "length next_state \<le> 20"
  shows "persist_transition None next_state (s, w) =
    (let s' = push_transition next_state ''1970-01-01T00:00:00Z'' s in
     (Inr (), (s', replaced_journal (of_nat (length ts)) (journal_text s') w)))"
proof -
  have fields: "ss_transitions s = ts" "ss_current_state s = state" "journal_at s journal_dir journal_file"
    "ss_staging_root s = Path True staging_dir" "ss_spec s = sample_spec" "ss_staging_identity s = dir_id 2"
    "ss_staging_parent_identity s = dir_id 1" "ss_target_parent_identity s = dir_id 1" "ss_journal_directory_identity s = dir_id 5"
    "ss_journal_path s = Path True (journal_dir @ [journal_file])"
    using assms(1) by (auto simp: journal_at_def file_name_def plain_name_def)
  have "length (journal_text (push_transition next_state ''1970-01-01T00:00:00Z'' s)) \<le> journal_bound"
    using assms(1,8-12) by (intro session_journal_size [where state = next_state and ts = "ts @
      [\<lparr>tr_sequence = of_nat (length ts), tr_from = state, tr_to = next_state, tr_recorded_at = ''1970-01-01T00:00:00Z''\<rparr>]"])
      (auto simp: push_session_at short_transition_def)
  with persist_transition_completes [of s journal_dir journal_file w next_state i old m] assms fields iso_zero
    like_sample_dirs(1) [OF assms(2)] like_sample_guards(3) [OF assms(2) fields(4-10)]
  show ?thesis by simp
qed

lemma like_sample_rename:
  assumes "like_sample w"
  shows "\<exists>w'. rename_directory_no_replace (Path True staging_dir) (Path True target_dir) w = (Inr (), w')"
proof -
  note dirs = like_sample_dirs [OF assms]
  have "resolve w False (Path True staging_dir) = Some staging_dir" using resolve_safe [OF dirs(2), of "[]" False] by simp
  moreover have "resolve w False (Path True target_dir) = Some target_dir"
    using resolve_child [OF dirs(3), of "''app''"] by (simp add: plain_name_def)
  moreover have "entry_at w staging_dir \<noteq> None" using safe_dir_entry [OF dirs(2)] by (auto elim: is_dir_entryE)
  moreover have "\<not> w_refuses w Sys_rename staging_dir"
    using assms by (simp add: like_sample_def only_changes_def same_system_def sample_world_def)
  ultimately show ?thesis
    using dirs(7) safe_dir_entry [OF dirs(3)] by (simp add: rename_directory_no_replace_def)
qed

lemma commit_effect_run:
  assumes "ss_current_state s = ''verified''" "verify_staging_identity s w = Inr ()" "target_changed s w = Inr False"
    "persist_snapshot (s\<lparr>ss_retain_commit_cleanup := True\<rparr>, w) = (Inr (), (s\<lparr>ss_retain_commit_cleanup := True\<rparr>, w1))"
    "prepare_commit (s\<lparr>ss_retain_commit_cleanup := True\<rparr>) w1 = Inr ()"
    "persist_transition None ''committing'' (s\<lparr>ss_retain_commit_cleanup := True\<rparr>, w1) = (Inr (), (s', w2))"
    "verify_staging_identity s' w2 = Inr ()" "target_changed s' w2 = Inr False"
    "rename_directory_no_replace (ss_staging_root s) (ts_target_root (ss_spec s)) w2 = (Inr (), w')"
  shows "commit_effect None (s, w) = (Inr (), (s', w'))"
  using assms by (simp add: commit_effect_def bindS_def obj_simps returnS_def or_recovery_def catchS_def guardS_def requireE_def)

lemma commit_runs:
  "\<exists>s' w'. commit_effect None (verified_session, sample_world) = (Inr (), (s', w'))"
proof -
  define s where "s = verified_session\<lparr>ss_retain_commit_cleanup := True\<rparr>"
  define s' where "s' = push_transition ''committing'' ''1970-01-01T00:00:00Z'' s"
  define w1 where "w1 = replaced_journal 6 (journal_text s) sample_world"
  define w2 where "w2 = replaced_journal 6 (journal_text s') w1"
  have ts: "length (take 6 sample_transitions) = 6" "take 6 sample_transitions \<noteq> []"
    "tr_sequence (last (take 6 sample_transitions)) = 5" by (simp_all add: sample_transitions_def)
  have fields: "ss_staging_root s = Path True staging_dir" "ss_spec s = sample_spec" "ss_staging_identity s = dir_id 2"
    "ss_staging_parent_identity s = dir_id 1" "ss_target_parent_identity s = dir_id 1" "ss_journal_directory_identity s = dir_id 5"
    "ss_journal_path s = Path True (journal_dir @ [journal_file])" "ss_transitions s = take 6 sample_transitions"
    and at: "journal_at s journal_dir journal_file"
    by (simp_all add: s_def verified_session_def journal_at_def file_name_def plain_name_def)
  have like: "like_sample w1" "like_sample w2" unfolding w1_def w2_def by (intro like_sample_replaced like_sample_refl)+
  have "length (journal_text s) \<le> journal_bound"
    using sample_transitions_short(2) [of 6] ts
    by (intro session_journal_size [where state = "''verified''" and ts = "take 6 sample_transitions"]) (simp_all add: s_def verified_session_def)
  with persist_snapshot_completes [OF at sample_world_safe(1) sample_calm _ sample_journal_entry temporary_absent]
    like_sample_guards(3) [OF like_sample_refl fields(1-7)] fields(8) ts
  have snapshot: "persist_snapshot (s, sample_world) = (Inr (), (s, w1))" by (simp add: w1_def)
  have "observe_staged_commit_closure s w1 = Inr (single_closure sample_world ''f'' 2 3)"
  proof -
    have "single_closure w1 ''f'' 2 3 = single_closure sample_world ''f'' 2 3"
      using like(1) by (auto simp: single_closure_def like_sample_def only_changes_def same_system_def)
    moreover have "''D:'' < ''F:'' @ ''f''" by code_simp
    ultimately have "observe_commit_closure w1 (Path True staging_dir) [single_record ''f'' ''data''] = Inr (single_closure sample_world ''f'' 2 3)"
      using single_observed [OF sample_single_replaced, of 6 "journal_text s"] by (simp add: w1_def)
    then show ?thesis
      using like_sample_guards(1) [OF like(1) fields(1-7)]
      by (simp add: observe_staged_commit_closure_def s_def verified_session_def empty_stream_journal_def sample_file_def single_record_def Let_def)
  qed
  then have prepare: "prepare_commit s w1 = Inr ()"
    by (simp add: prepare_commit_def require_commit_authority_def s_def verified_session_def sample_spec_def single_closure_def requireE_def)
  have commit: "persist_transition None ''committing'' (s, w1) = (Inr (), (s', w2))"
    using session_records [of s "''verified''" "take 6 sample_transitions" w1 9 "journal_text s" 0 "''committing''"] like(1) ts
      sample_transitions_short(2) [of 6] replaced_entry [of journal_dir journal_file 6 "journal_text s" sample_world]
      replaced_temporary [of journal_dir journal_file 6 "journal_text s" sample_world 6] sample_calm
    by (simp add: s_def verified_session_def w1_def w2_def s'_def valid_transition_def sample_world_def Let_def)
  have fields': "ss_staging_root s' = Path True staging_dir" "ss_spec s' = sample_spec" "ss_staging_identity s' = dir_id 2"
    "ss_staging_parent_identity s' = dir_id 1" "ss_target_parent_identity s' = dir_id 1" "ss_journal_directory_identity s' = dir_id 5"
    "ss_journal_path s' = Path True (journal_dir @ [journal_file])" using fields by (simp_all add: s'_def)
  have verified: "verify_staging_identity verified_session sample_world = Inr ()" "target_changed verified_session sample_world = Inr False"
    using like_sample_guards(1,2) [OF like_sample_refl, of verified_session] by (simp_all add: verified_session_def)
  obtain w' where "rename_directory_no_replace (Path True staging_dir) (Path True target_dir) w2 = (Inr (), w')"
    using like_sample_rename [OF like(2)] by blast
  then show ?thesis
    using commit_effect_run [OF _ verified snapshot [unfolded s_def] prepare [unfolded s_def] commit [unfolded s_def]
        like_sample_guards(1,2) [OF like(2) fields'], of w']
    by (auto simp: verified_session_def sample_spec_def)
qed

theorem persist_transition_atomic_witness:
  "\<exists>s' w' t. persist_transition None ''staged'' (session_at ''staging'' (take 4 sample_transitions), sample_world) = (Inr (), (s', w')) \<and>
    s' = push_transition ''staged'' t (session_at ''staging'' (take 4 sample_transitions)) \<and>
    holds_text w' (journal_dir @ [journal_file]) (journal_text s')"
proof -
  let ?s = "session_at ''staging'' (take 4 sample_transitions)"
  have ts: "length (take 4 sample_transitions) = 4" "take 4 sample_transitions \<noteq> []" by (simp_all add: sample_transitions_def)
  obtain s' w' where run: "persist_transition None ''staged'' (?s, sample_world) = (Inr (), (s', w'))"
    using session_records [OF disjI1 [OF refl] like_sample_refl sample_calm sample_now sample_journal_entry temporary_absent,
        of "''staging''" "''staged''"] sample_transitions_short(2) [of 4] ts
    by (simp add: valid_transition_def Let_def)
  have "journal_at ?s journal_dir journal_file" using sample_layout by (simp add: commit_layout_def)
  from persist_transition_atomic [OF this sample_world_safe(1) run] run show ?thesis by auto
qed

theorem observed_closure_exact_witness:
  "entry_at sample_world (staging_dir @ [''f'']) \<noteq> None \<and> entry_at sample_world (staging_dir @ [''g'']) = None \<and>
    file_matches sample_world (staging_dir @ [''f'']) (single_record ''f'' ''data'')"
proof -
  have "''D:'' < ''F:'' @ ''f''" by code_simp
  note run = single_observed [OF sample_single this]
  have names: "relative_names (single_record ''f'' ''data'') = [''f'']" by (simp add: relative_names_def single_record_def)
  have "list_all plain_name staging_dir" "\<forall>f \<in> set [single_record ''f'' ''data'']. list_all file_name (relative_names f)"
    unfolding names by (simp_all add: plain_name_def file_name_def names)
  note exact = observed_closure_exact [OF this(1) tree_below_sub [OF sample_tree_below] sample_lists this(2) run]
  then have entries: "entry_at sample_world (staging_dir @ rel) \<noteq> None \<longleftrightarrow> prefix rel [''f'']" if "rel \<noteq> []" for rel
    using that names by (metis list.set_intros(1) set_ConsD empty_iff list.set(1))
  from exact have "file_matches sample_world (staging_dir @ [''f'']) (single_record ''f'' ''data'')"
    using names by (metis list.set_intros(1))
  with entries [of "[''f'']"] entries [of "[''g'']"] show ?thesis by simp
qed


section \<open>Rolling a session back\<close>

lemma sample_inodes: "(3::64 word) \<noteq> 6" "(9::64 word) \<noteq> 6" "(6::64 word) \<noteq> 3" "(6::64 word) \<noteq> 9"
  "(9::64 word) \<noteq> 3" "(3::64 word) \<noteq> 9"
  by code_simp+

lemma replaced_tree:
  "w_tree (replaced_journal n content sample_world) =
    [(journal_dir @ [journal_file], File 9 content 1 0), ([''srv''], Dir 1), (staging_dir, Dir 2), (staging_dir @ [''f''], File 3 ''data'' 1 0),
     ([''st''], Dir 4), (journal_dir, Dir 5), ([''au''], Dir 7)]"
  using sample_inodes
  by (simp add: journal_replaced_def put_entry_def del_entry_def unlink_entry_def new_file_def adjust_links_def sample_world_def
      entry_at_def temporary_name_def)

lemma sample_entries_below:
  "entries_below (replaced_journal n content sample_world) (Path True staging_dir) =
    [(Path True (staging_dir @ [''f'']), File 3 ''data'' 1 0)]"
proof -
  have like: "like_sample (replaced_journal n content sample_world)" by (rule like_sample_replaced [OF like_sample_refl])
  show ?thesis
    using resolve_safe [OF like_sample_dirs(2) [OF like], of "[]" True]
    by (simp add: entries_below_def replaced_tree strict_prefix_def path_append_def path_empty_def strip_trailing_def)
qed

lemma single_checked:
  assumes "single_file w st ''f'' ino fino ''data''"
  shows "check_staged_file w (Path True (st @ [''f''])) sample_file = Inr ()"
proof -
  have safe: "safe_dir w st" "plain_name ''f''" using assms by (auto simp: single_file_def plain_name_def)
  have reading: "quiet_reading w (Path True (st @ [''f''])) = \<lparr>rd_dev = w_dev w, rd_lstat = Some (File fino ''data'' 1 0), rd_open = True,
      rd_fstat = Some (File fino ''data'' 1 0), rd_portions = [''data''], rd_fstat_after = Some (File fino ''data'' 1 0),
      rd_lstat_after = Some (File fino ''data'' 1 0)\<rparr>"
    using quiet_reading_child [OF safe] assms by (simp add: single_file_def Let_def)
  then show ?thesis
    by (simp add: check_staged_file_def reading stable_identity_def path_empty_def stable_open_def stable_sha256_hex_def
        read_exact_single verify_unchanged_def sample_file_def requireE_def)
qed

lemma sample_file_path: "path_append (Path True staging_dir) (sf_relative_path sample_file) = Path True (staging_dir @ [''f''])"
  by (simp add: sample_file_def path_append_def path_empty_def strip_trailing_def)

lemma sample_parents: "parents_below (Path True staging_dir) (sf_relative_path sample_file) = []"
  by (simp add: parents_below_def sample_file_def)

lemma sample_closure_verified:
  fixes n content
  defines "w \<equiv> replaced_journal n content sample_world"
  shows "verify_recorded_staging_closure (session_at state ts) w = Inr ()"
proof -
  have like: "like_sample w" unfolding w_def by (rule like_sample_replaced [OF like_sample_refl])
  have "verify_staging_identity (session_at state ts) w = Inr ()" using like_sample_guards(1) [OF like] by simp
  moreover have "check_staged_file w (Path True (staging_dir @ [''f''])) sample_file = Inr ()"
    unfolding w_def by (rule single_checked [OF sample_single_replaced])
  ultimately show ?thesis
    by (simp add: verify_recorded_staging_closure_def Let_def sample_file_path sample_entries_below [of n content, folded w_def])
qed

lemma calm_removed: "calm (del_entry p w) = calm w" "calm (unlink_entry p w) = calm w"
  "w_now (del_entry p w) = w_now w" "w_now (unlink_entry p w) = w_now w"
  by (simp_all add: calm_def del_entry_def unlink_entry_def adjust_links_def split: option.splits entry.splits)

lemma sample_removed:
  fixes n content
  defines "w \<equiv> replaced_journal n content sample_world"
  defines "w' \<equiv> del_entry staging_dir (unlink_entry (staging_dir @ [''f'']) w)"
  shows "remove_recorded_staging_closure (session_at state ts, w) = (Inr (), (session_at state ts, w'))"
    and "safe_dir w' journal_dir" "directory_identity w' (Path True journal_dir) = Inr (dir_id 5)"
proof -
  define u where "u = unlink_entry (staging_dir @ [''f'']) w"
  have like: "like_sample w" unfolding w_def by (rule like_sample_replaced [OF like_sample_refl])
  note dirs = like_sample_dirs [OF like]
  have single: "single_file w staging_dir ''f'' 2 3 ''data''" unfolding w_def by (rule sample_single_replaced)
  have refuse: "w_refuses w = (\<lambda>_ _. False)" "w_dev w = 1"
    using like by (simp_all add: like_sample_def only_changes_def same_system_def sample_world_def)
  have fields: "w_refuses u = w_refuses w" "w_dev u = 1" "w_dev w' = 1"
    using refuse by (simp_all add: u_def w'_def unlink_entry_def adjust_links_def del_entry_def split: option.splits entry.splits)
  have unlinked: "remove_path (Path True (staging_dir @ [''f''])) w = (Inr True, u)"
    using resolve_child [OF dirs(2), of "''f''"] unlink_child [OF dirs(2), of "''f''"] single refuse
    by (simp add: remove_path_def single_file_def plain_name_def u_def)
  have shown: "seen u q = (if q = staging_dir @ [''f''] then None else seen w q)" for q by (simp add: u_def seen_simps)
  have safe: "safe_dir u staging_dir" "safe_dir u [''srv'']"
    by (rule safe_dir_seen [OF dirs(2)], simp add: shown take_Cons' del: seen_None_iff, rule safe_dir_seen [OF dirs(3)], simp add: shown take_Cons')
  have "entry_at u (staging_dir @ [x]) = None" for x
    using shown [of "staging_dir @ [x]"] single by (cases "x = ''f''") (auto simp: single_file_def simp flip: seen_None_iff)
  then have "children u staging_dir = []" using children_iff [of _ u staging_dir] by (simp flip: set_empty add: set_eq_iff)
  then have root: "remove_path (Path True staging_dir) u = (Inr True, w')"
    using resolve_safe [OF safe(1), of "[]" False] safe_dir_entry [OF safe(1)] refuse fields
    by (simp add: remove_path_def w'_def u_def)
  have ids: "directory_identity u (Path True staging_dir) = Inr (dir_id 2)" "directory_identity u (Path True [''srv'']) = Inr (dir_id 1)"
    using safe fields(2) shown only_changes_seen [OF like [unfolded like_sample_def], of staging_dir] outside sample_shown
      only_changes_seen [OF like [unfolded like_sample_def], of "[''srv'']"] by (simp_all add: dir_identity)
  have "dir_id 2 \<noteq> []" using length_dir_id [of 2] by auto
  with ids have verify: "verify_staging_identity (session_at state ts) u = Inr ()"
    by (simp add: verify_staging_identity_def sample_spec_def requireE_def)
  have "check_staged_file w (Path True (staging_dir @ [''f''])) sample_file = Inr ()" by (rule single_checked [OF single])
  with unlinked have "remove_staged_files (Path True staging_dir) [sample_file] w = (Inr (), u)"
    by (simp add: sample_file_path Let_def bindS_def liftS_def guardS_def requireE_def)
  with verify root sample_closure_verified [of state ts n content]
  show "remove_recorded_staging_closure (session_at state ts, w) = (Inr (), (session_at state ts, w'))"
    by (simp add: remove_recorded_staging_closure_def bindS_def obj_simps guardS_def requireE_def sample_parents directory_order_def w_def returnS_def)
  have shown': "seen w' q = (if q = staging_dir then None else seen u q)" for q by (simp add: w'_def u_def seen_simps)
  show safe': "safe_dir w' journal_dir"
    by (rule safe_dir_seen [OF dirs(1)]) (simp add: shown shown' take_Cons')
  show "directory_identity w' (Path True journal_dir) = Inr (dir_id 5)"
    using safe' fields(3) shown' shown only_changes_seen [OF like [unfolded like_sample_def], of journal_dir] outside sample_shown
    by (simp add: dir_identity)
qed


end
