(* ===== verification/Usk_Maintenance_Laws.thy ===== *)
theory Usk_Maintenance_Laws
  imports Usk_Session_Samples
begin

text \<open>
  The journal of maintenance effects: what an accepted history accounts for, and that the reader
  follows the writer record by record.
\<close>

section \<open>Accounting of a history\<close>

lemma validate_effect_kind: "validate_effect operation kind details = Inr () \<Longrightarrow> kind \<noteq> []"
  by (auto simp: validate_effect_def throwE_def split: if_splits)

definition completed_ok :: "string \<Rightarrow> nat \<Rightarrow> completed_effect \<Rightarrow> bool" where
  "completed_ok operation n e \<longleftrightarrow> unat (ce_intent_sequence e) = 2 * n + 1 \<and>
     validate_effect operation (ce_kind e) (ce_details e) = Inr () \<and>
     validate_completion (ce_kind e) (ce_outcome e) (ce_result_digest e) = Inr ()"

text \<open>The context record, two records for every completed effect, one for a pending intent and one for the seal.\<close>

definition history_ok :: "string \<Rightarrow> bool \<Rightarrow> 64 word \<Rightarrow> effect_inspection \<Rightarrow> bool" where
  "history_ok operation retain pending_sequence i \<longleftrightarrow> (let k = unat (ei_completed_effects i) in
     unat (ei_next_sequence i) = 1 + 2 * k + (if ei_pending_kind i \<noteq> [] then 1 else 0) + (if ei_sealed i then 1 else 0) \<and>
     (ei_sealed i \<longrightarrow> ei_pending_kind i = []) \<and>
     (ei_pending_kind i \<noteq> [] \<longrightarrow> unat pending_sequence = 2 * k + 1 \<and>
        validate_effect operation (ei_pending_kind i) (ei_pending_details i) = Inr ()) \<and>
     (if retain then length (ei_completed i) = k \<and> (\<forall>n < k. completed_ok operation n (ei_completed i ! n))
      else ei_completed i = []))"

definition reader_ok :: "effect_reader \<Rightarrow> bool" where
  "reader_ok r \<longleftrightarrow> unat (er_record_count r) \<le> unat maximum_records \<and>
     (if ei_next_sequence (er_result r) = 0 then er_result r = new_inspection
      else history_ok (ts_operation (er_spec r)) (er_retain_completed r) (er_pending_sequence r) (er_result r))"

definition same_reader :: "effect_reader \<Rightarrow> effect_reader \<Rightarrow> bool" where
  "same_reader r r' \<longleftrightarrow> er_spec r' = er_spec r \<and> er_record_count r' = er_record_count r \<and>
     er_retain_completed r' = er_retain_completed r \<and> er_directory_identity r' = er_directory_identity r \<and>
     er_expected_source_digest r' = er_expected_source_digest r \<and> er_failed r' = er_failed r \<and> er_finished r' = er_finished r"

lemma small_succ:
  assumes "unat (x :: 64 word) \<le> 200002"
  shows "unat (x + 1) = unat x + 1"
proof -
  have "unat (x + 1) = (unat x + 1) mod 2 ^ 64" by (simp add: unat_word_ariths(1))
  with assms show ?thesis by simp
qed

lemma maximum_records_nat: "unat maximum_records = 200002"
  by (simp add: maximum_records_def)

lemma small_below:
  assumes "(x :: 64 word) < y" "unat y \<le> unat maximum_records"
  shows "unat (x + 1) = unat x + 1" "x + 1 \<noteq> 0"
proof -
  have "unat x \<le> 200002" using assms by (simp add: word_less_nat_alt maximum_records_nat)
  from small_succ [OF this] show "unat (x + 1) = unat x + 1" .
  then show "x + 1 \<noteq> 0" by (metis add_eq_0_iff_both_eq_0 one_neq_zero unat_0)
qed

lemma if_throwE_Inr: "(if b then throwE msg else m) = Inr y \<longleftrightarrow> \<not> b \<and> m = Inr y"
  by (simp add: throwE_def)

lemma Inr_returned: "(Inr x :: 'a res) = Inr y \<longleftrightarrow> y = x"
  by auto

lemma ex_unit: "(\<exists>x :: unit. P x) \<longleftrightarrow> P ()"
  by (metis (full_types) old.unit.exhaust)

lemmas accepted_simps = bindE_eq_Inr if_throwE_Inr Let_def ex_unit

lemma consume_context_effect:
  assumes "consume_context w r phase details = Inr r'"
  obtains c d where "r' = r\<lparr>er_result := (er_result r)\<lparr>ei_source_context := c, ei_source_digest := d\<rparr>\<rparr>"
  using assms by (auto simp: consume_context_def accepted_simps)

lemma consume_intent_effect:
  assumes "consume_intent r index details = Inr r'"
  obtains kind effect where "ei_pending_kind (er_result r) = []" "validate_effect (ts_operation (er_spec r)) kind effect = Inr ()"
    "r' = r\<lparr>er_result := (er_result r)\<lparr>ei_pending_kind := kind, ei_pending_details := effect\<rparr>, er_pending_sequence := index\<rparr>"
  using assms by (auto simp: consume_intent_def accepted_simps)

lemma consume_complete_effect:
  assumes "consume_complete r details = Inr r'"
  obtains outcome hash where "ei_pending_kind (er_result r) \<noteq> []"
    "validate_completion (ei_pending_kind (er_result r)) outcome hash = Inr ()"
    "r' = r\<lparr>er_result := (er_result r)\<lparr>ei_completed := (if er_retain_completed r then ei_completed (er_result r) @
        [\<lparr>ce_intent_sequence = er_pending_sequence r, ce_kind = ei_pending_kind (er_result r),
          ce_details = ei_pending_details (er_result r), ce_outcome = outcome, ce_result_digest = hash\<rparr>]
        else ei_completed (er_result r)),
      ei_pending_kind := [], ei_pending_details := JNull, ei_completed_effects := ei_completed_effects (er_result r) + 1\<rparr>\<rparr>"
  using assms unfolding consume_complete_def accepted_simps Inr_returned by (elim exE conjE) (rule that)

lemma consume_sealed_effect:
  assumes "consume_sealed r details = Inr r'"
  shows "ei_pending_kind (er_result r) = []" "r' = r\<lparr>er_result := (er_result r)\<lparr>ei_sealed := True\<rparr>\<rparr>"
  using assms by (auto simp: consume_sealed_def accepted_simps)

lemma consume_record_step:
  assumes "consume_record w r record_name text = Inr r'"
  obtains v bytes phase details r1 digest where
    "ei_next_sequence (er_result r) < er_record_count r"
    "decode_record_text text (er_bytes r) = Inr (v, bytes)"
    "record_name = effect_filename (ei_next_sequence (er_result r))"
    "\<not> ei_sealed (er_result r)"
    "string_at v ''phase'' = Inr phase" "jat v ''details'' = Inr details"
    "(if ei_next_sequence (er_result r) = 0 then consume_context w r phase details
      else if phase = ''intent'' then consume_intent r (ei_next_sequence (er_result r)) details
      else if phase = ''complete'' then consume_complete r details
      else if phase = ''sealed'' then consume_sealed r details
      else throwE ''maintenance journal phase is invalid'') = Inr r1"
    "r' = r1\<lparr>er_bytes := bytes, er_result := (er_result r1)\<lparr>ei_journal_digest := digest,
        ei_next_sequence := ei_next_sequence (er_result r) + 1\<rparr>\<rparr>"
    "string_at v ''digest'' = Inr digest"
proof -
  from assms obtain v bytes phase details r1 digest where step: "\<not> ei_next_sequence (er_result r) \<ge> er_record_count r"
    "decode_record_text text (er_bytes r) = Inr (v, bytes)" "record_binds r record_name (ei_next_sequence (er_result r)) v = Inr ()"
    "string_at v ''phase'' = Inr phase" "jat v ''details'' = Inr details"
    "(if ei_next_sequence (er_result r) = 0 then consume_context w r phase details
      else if phase = ''intent'' then consume_intent r (ei_next_sequence (er_result r)) details
      else if phase = ''complete'' then consume_complete r details
      else if phase = ''sealed'' then consume_sealed r details
      else throwE ''maintenance journal phase is invalid'') = Inr r1"
    "string_at v ''digest'' = Inr digest"
    "r' = r1\<lparr>er_bytes := bytes, er_result := (er_result r1)\<lparr>ei_journal_digest := digest,
        ei_next_sequence := ei_next_sequence (er_result r) + 1\<rparr>\<rparr>"
    unfolding consume_record_def accepted_simps split_paired_Ex prod.case Inr_returned by (elim exE conjE) (rule that)
  from step(3) have "record_name = effect_filename (ei_next_sequence (er_result r))" "\<not> ei_sealed (er_result r)"
    unfolding record_binds_def accepted_simps by blast+
  with step show thesis by (intro that [of v bytes phase details r1 digest]) (auto simp: not_le)
qed

lemma history_ok_intent:
  assumes "history_ok operation retain p i" "\<not> ei_sealed i" "ei_pending_kind i = []"
    and "validate_effect operation kind effect = Inr ()" "unat (ei_next_sequence i + 1) = unat (ei_next_sequence i) + 1"
  shows "history_ok operation retain (ei_next_sequence i)
    (i\<lparr>ei_pending_kind := kind, ei_pending_details := effect, ei_journal_digest := d, ei_next_sequence := ei_next_sequence i + 1\<rparr>)"
  using assms validate_effect_kind [OF assms(4)] by (simp add: history_ok_def Let_def)

lemma history_ok_sealed:
  assumes "history_ok operation retain p i" "\<not> ei_sealed i" "ei_pending_kind i = []"
    and "unat (ei_next_sequence i + 1) = unat (ei_next_sequence i) + 1"
  shows "history_ok operation retain p (i\<lparr>ei_sealed := True, ei_journal_digest := d, ei_next_sequence := ei_next_sequence i + 1\<rparr>)"
  using assms by (simp add: history_ok_def Let_def)

lemma history_ok_complete:
  assumes ok: "history_ok operation retain p i" and "\<not> ei_sealed i" and pending: "ei_pending_kind i \<noteq> []"
    and completion: "validate_completion (ei_pending_kind i) outcome hash = Inr ()"
    and next_sequence: "unat (ei_next_sequence i + 1) = unat (ei_next_sequence i) + 1" "unat (ei_next_sequence i) \<le> 200002"
  shows "history_ok operation retain p (i\<lparr>ei_completed := (if retain then ei_completed i @
        [\<lparr>ce_intent_sequence = p, ce_kind = ei_pending_kind i, ce_details = ei_pending_details i,
          ce_outcome = outcome, ce_result_digest = hash\<rparr>] else ei_completed i),
      ei_pending_kind := [], ei_pending_details := JNull, ei_completed_effects := ei_completed_effects i + 1,
      ei_journal_digest := d, ei_next_sequence := ei_next_sequence i + 1\<rparr>)"
proof -
  have count: "unat (ei_next_sequence i) = 2 + 2 * unat (ei_completed_effects i)"
    using assms by (simp add: history_ok_def Let_def)
  then have more: "unat (ei_completed_effects i + 1) = unat (ei_completed_effects i) + 1"
    using next_sequence by (intro small_succ) simp
  let ?e = "\<lparr>ce_intent_sequence = p, ce_kind = ei_pending_kind i, ce_details = ei_pending_details i,
     ce_outcome = outcome, ce_result_digest = hash\<rparr>"
  have new: "completed_ok operation (unat (ei_completed_effects i)) ?e"
    using ok pending completion by (simp add: history_ok_def completed_ok_def Let_def)
  have old: "if retain then length (ei_completed i) = unat (ei_completed_effects i) \<and>
      (\<forall>n < unat (ei_completed_effects i). completed_ok operation n (ei_completed i ! n)) else ei_completed i = []"
    using ok unfolding history_ok_def Let_def by blast
  have "\<forall>n < unat (ei_completed_effects i) + 1. completed_ok operation n ((ei_completed i @ [?e]) ! n)" if retain
    using old new that by (simp add: nth_append less_Suc_eq)
  with old count more next_sequence(1) \<open>\<not> ei_sealed i\<close> show ?thesis
    unfolding history_ok_def Let_def by (cases retain) simp_all
qed

lemma reader_ok_context:
  assumes "reader_ok r" "ei_next_sequence (er_result r) = 0" "consume_context w r phase details = Inr r1"
    and "r' = r1\<lparr>er_bytes := bytes, er_result := (er_result r1)\<lparr>ei_journal_digest := digest, ei_next_sequence := 0 + 1\<rparr>\<rparr>"
  shows "reader_ok r' \<and> same_reader r r'"
proof -
  obtain c d where r1: "r1 = r\<lparr>er_result := (er_result r)\<lparr>ei_source_context := c, ei_source_digest := d\<rparr>\<rparr>"
    using assms(3) by (rule consume_context_effect)
  have "er_result r = new_inspection" "unat (er_record_count r) \<le> unat maximum_records"
    using assms(1,2) by (simp_all add: reader_ok_def)
  then show ?thesis by (simp add: assms(4) r1 reader_ok_def same_reader_def history_ok_def new_inspection_def)
qed

lemma reader_ok_later:
  assumes "reader_ok r" "ei_next_sequence (er_result r) \<noteq> 0"
  shows "history_ok (ts_operation (er_spec r)) (er_retain_completed r) (er_pending_sequence r) (er_result r)"
    "unat (er_record_count r) \<le> unat maximum_records"
  using assms by (simp_all add: reader_ok_def)

lemma reader_ok_intent:
  assumes "reader_ok r" "ei_next_sequence (er_result r) \<noteq> 0" "\<not> ei_sealed (er_result r)"
    and succ: "unat (ei_next_sequence (er_result r) + 1) = unat (ei_next_sequence (er_result r)) + 1" "ei_next_sequence (er_result r) + 1 \<noteq> 0"
    and "consume_intent r (ei_next_sequence (er_result r)) details = Inr r1"
    and r': "r' = r1\<lparr>er_bytes := bytes, er_result := (er_result r1)\<lparr>ei_journal_digest := digest,
      ei_next_sequence := ei_next_sequence (er_result r) + 1\<rparr>\<rparr>"
  shows "reader_ok r' \<and> same_reader r r'"
proof -
  obtain kind effect where i: "ei_pending_kind (er_result r) = []"
    "validate_effect (ts_operation (er_spec r)) kind effect = Inr ()"
    and r1: "r1 = r\<lparr>er_result := (er_result r)\<lparr>ei_pending_kind := kind, ei_pending_details := effect\<rparr>,
      er_pending_sequence := ei_next_sequence (er_result r)\<rparr>"
    using assms(6) by (rule consume_intent_effect)
  note later = reader_ok_later [OF assms(1,2)]
  show ?thesis using later(2) succ(2) history_ok_intent [OF later(1) assms(3) i succ(1), of digest]
    by (simp add: r' r1 reader_ok_def same_reader_def)
qed

lemma reader_ok_sealed:
  assumes "reader_ok r" "ei_next_sequence (er_result r) \<noteq> 0" "\<not> ei_sealed (er_result r)"
    and succ: "unat (ei_next_sequence (er_result r) + 1) = unat (ei_next_sequence (er_result r)) + 1" "ei_next_sequence (er_result r) + 1 \<noteq> 0"
    and "consume_sealed r details = Inr r1"
    and r': "r' = r1\<lparr>er_bytes := bytes, er_result := (er_result r1)\<lparr>ei_journal_digest := digest,
      ei_next_sequence := ei_next_sequence (er_result r) + 1\<rparr>\<rparr>"
  shows "reader_ok r' \<and> same_reader r r'"
proof -
  note later = reader_ok_later [OF assms(1,2)] and seal = consume_sealed_effect [OF assms(6)]
  show ?thesis using later(2) succ(2) history_ok_sealed [OF later(1) assms(3) seal(1) succ(1), of digest]
    by (simp add: r' seal(2) reader_ok_def same_reader_def)
qed

lemma reader_ok_complete:
  assumes "reader_ok r" "ei_next_sequence (er_result r) \<noteq> 0" "\<not> ei_sealed (er_result r)"
    and succ: "unat (ei_next_sequence (er_result r) + 1) = unat (ei_next_sequence (er_result r)) + 1" "ei_next_sequence (er_result r) + 1 \<noteq> 0"
    and small: "unat (ei_next_sequence (er_result r)) \<le> 200002"
    and "consume_complete r details = Inr r1"
    and r': "r' = r1\<lparr>er_bytes := bytes, er_result := (er_result r1)\<lparr>ei_journal_digest := digest,
      ei_next_sequence := ei_next_sequence (er_result r) + 1\<rparr>\<rparr>"
  shows "reader_ok r' \<and> same_reader r r'"
  using assms(7)
proof (rule consume_complete_effect)
  fix outcome hash
  define cs where "cs = (if er_retain_completed r then ei_completed (er_result r) @
        [\<lparr>ce_intent_sequence = er_pending_sequence r, ce_kind = ei_pending_kind (er_result r),
          ce_details = ei_pending_details (er_result r), ce_outcome = outcome, ce_result_digest = hash\<rparr>]
        else ei_completed (er_result r))"
  assume i: "ei_pending_kind (er_result r) \<noteq> []" "validate_completion (ei_pending_kind (er_result r)) outcome hash = Inr ()"
    and "r1 = r\<lparr>er_result := (er_result r)\<lparr>ei_completed := (if er_retain_completed r then ei_completed (er_result r) @
        [\<lparr>ce_intent_sequence = er_pending_sequence r, ce_kind = ei_pending_kind (er_result r),
          ce_details = ei_pending_details (er_result r), ce_outcome = outcome, ce_result_digest = hash\<rparr>]
        else ei_completed (er_result r)),
      ei_pending_kind := [], ei_pending_details := JNull, ei_completed_effects := ei_completed_effects (er_result r) + 1\<rparr>\<rparr>"
  then have r1: "r1 = r\<lparr>er_result := (er_result r)\<lparr>ei_completed := cs,
      ei_pending_kind := [], ei_pending_details := JNull, ei_completed_effects := ei_completed_effects (er_result r) + 1\<rparr>\<rparr>"
    unfolding cs_def by blast
  note later = reader_ok_later [OF assms(1,2)]
  show ?thesis using later(2) succ(2) history_ok_complete [OF later(1) assms(3) i succ(1) small, of digest, folded cs_def]
    by (simp add: r' r1 reader_ok_def same_reader_def)
qed

lemma reader_ok_step:
  assumes ok: "reader_ok r" and step: "consume_record w r record_name text = Inr r'"
  shows "reader_ok r'" "same_reader r r'" "ei_next_sequence (er_result r') = ei_next_sequence (er_result r) + 1"
    "record_name = effect_filename (ei_next_sequence (er_result r))" "ei_next_sequence (er_result r) < er_record_count r"
proof -
  obtain v bytes phase details r1 digest where s: "ei_next_sequence (er_result r) < er_record_count r"
    "record_name = effect_filename (ei_next_sequence (er_result r))" "\<not> ei_sealed (er_result r)"
    and body: "(if ei_next_sequence (er_result r) = 0 then consume_context w r phase details
      else if phase = ''intent'' then consume_intent r (ei_next_sequence (er_result r)) details
      else if phase = ''complete'' then consume_complete r details
      else if phase = ''sealed'' then consume_sealed r details
      else throwE ''maintenance journal phase is invalid'') = Inr r1"
    and r': "r' = r1\<lparr>er_bytes := bytes, er_result := (er_result r1)\<lparr>ei_journal_digest := digest,
        ei_next_sequence := ei_next_sequence (er_result r) + 1\<rparr>\<rparr>"
    by (rule consume_record_step [OF step])
  have bound: "unat (er_record_count r) \<le> unat maximum_records" using ok by (simp add: reader_ok_def)
  note succ = small_below [OF s(1) bound]
  have small: "unat (ei_next_sequence (er_result r)) \<le> 200002"
    using s(1) bound by (simp add: word_less_nat_alt maximum_records_nat)
  show "record_name = effect_filename (ei_next_sequence (er_result r))" "ei_next_sequence (er_result r) < er_record_count r"
    by (fact s)+
  show "ei_next_sequence (er_result r') = ei_next_sequence (er_result r) + 1" unfolding r' by simp
  consider "ei_next_sequence (er_result r) = 0" "consume_context w r phase details = Inr r1"
    | "ei_next_sequence (er_result r) \<noteq> 0" "consume_intent r (ei_next_sequence (er_result r)) details = Inr r1"
    | "ei_next_sequence (er_result r) \<noteq> 0" "consume_complete r details = Inr r1"
    | "ei_next_sequence (er_result r) \<noteq> 0" "consume_sealed r details = Inr r1"
    using body by (auto simp only: throwE_def sum.simps split: if_splits)
  then have "reader_ok r' \<and> same_reader r r'"
  proof cases
    case 1
    from reader_ok_context [OF ok this] r' 1(1) show ?thesis by metis
  next
    case 2
    from reader_ok_intent [OF ok 2(1) s(3) succ 2(2) r'] show ?thesis .
  next
    case 3
    from reader_ok_complete [OF ok 3(1) s(3) succ small 3(2) r'] show ?thesis .
  next
    case 4
    from reader_ok_sealed [OF ok 4(1) s(3) succ 4(2) r'] show ?thesis .
  qed
  then show "reader_ok r'" "same_reader r r'" by blast+
qed

lemma consume_Inr:
  "consume w name text r = (Inr (), r') \<longleftrightarrow> \<not> er_failed r \<and> \<not> er_finished r \<and> consume_record w r name text = Inr r'"
  by (auto simp: consume_def split: sum.splits)

lemma consume_all_ok:
  assumes "consume_all w ps r = (Inr (), r')" "reader_ok r"
  shows "reader_ok r' \<and> same_reader r r' \<and> unat (ei_next_sequence (er_result r')) = unat (ei_next_sequence (er_result r)) + length ps \<and>
    map filename ps = map (\<lambda>k. effect_filename (ei_next_sequence (er_result r) + of_nat k)) [0..<length ps]"
  using assms
proof (induction ps arbitrary: r)
  case Nil
  then show ?case by (simp add: returnS_def same_reader_def)
next
  case (Cons p ps)
  then obtain content r1 where step: "consume_record w r (filename p) content = Inr r1" "consume_all w ps r1 = (Inr (), r')"
    by (auto simp: bindS_eq_Inr consume_Inr split: sum.splits)
  note one = reader_ok_step [OF Cons.prems(2) step(1)]
  note rest = Cons.IH [OF step(2) one(1)]
  have "unat (er_record_count r) \<le> unat maximum_records" using Cons.prems(2) by (simp add: reader_ok_def)
  then have "unat (ei_next_sequence (er_result r1)) = unat (ei_next_sequence (er_result r)) + 1"
    using small_below(1) [OF one(5)] one(3) by simp
  moreover have "map filename ps = map (\<lambda>k. effect_filename (ei_next_sequence (er_result r) + of_nat k)) [1..<Suc (length ps)]"
    using rest one(3) by (simp add: map_Suc_upt [symmetric] o_def add.assoc del: upt_Suc)
  ultimately show ?case using rest one(2,4) by (simp add: same_reader_def upt_rec [of 0] del: upt_Suc)
qed

lemma filename_append_element [simp]: "filename (path_append p (element_path c)) = c"
  by (simp add: filename_def path_append_def element_path_def path_empty_def)

lemma effect_records_Inr:
  "effect_records w directory rs names = Inr records \<Longrightarrow>
    records = rs @ map (\<lambda>name. path_append directory (element_path name)) names \<and>
    (\<forall>name \<in> set names. \<exists>ino content links mtime. lstat w (path_append directory (element_path name)) = Some (File ino content links mtime))"
proof (induction names arbitrary: rs)
  case (Cons name names)
  then have "effect_records w directory (rs @ [path_append directory (element_path name)]) names = Inr records"
    "\<exists>ino content links mtime. lstat w (path_append directory (element_path name)) = Some (File ino content links mtime)"
    by (auto simp: Let_def throwE_def split: if_splits option.splits entry.splits)
  with Cons.IH show ?case by fastforce
qed simp

lemma consumed_Inr:
  "(case x of (Inl e, _) \<Rightarrow> Inl e | (Inr u, r) \<Rightarrow> f r) = Inr y \<longleftrightarrow> (\<exists>r. x = (Inr (), r) \<and> f r = Inr y)"
  by (auto split: prod.splits sum.splits)

lemma new_reader_ok:
  assumes "new_reader spec identity digest n retain = Inr r"
  shows "reader_ok r" "er_spec r = spec" "er_retain_completed r = retain" "unat (er_record_count r) = n"
    "ei_next_sequence (er_result r) = 0" "0 < n" "n \<le> unat maximum_records"
proof -
  have n: "0 < n" "n \<le> 200002" and r: "r = \<lparr>er_spec = spec, er_directory_identity = identity, er_expected_source_digest = digest,
       er_record_count = of_nat n, er_retain_completed = retain, er_result = new_inspection,
       er_pending_sequence = 0, er_bytes = 0, er_failed = False, er_finished = False\<rparr>"
    using assms by (auto simp: new_reader_def throwE_def maximum_records_nat split: if_splits)
  have "unat (of_nat n :: 64 word) = n" using n by (simp add: unat_of_nat take_bit_nat_eq_self)
  with n show "reader_ok r" "er_spec r = spec" "er_retain_completed r = retain" "unat (er_record_count r) = n"
    "ei_next_sequence (er_result r) = 0" "0 < n" "n \<le> unat maximum_records"
    by (simp_all add: r reader_ok_def maximum_records_nat new_inspection_def)
qed

lemma history_ok_finish [simp]:
  "history_ok operation retain p (i\<lparr>ei_pending_sequence := s, ei_serialized_bytes := b, ei_directory_identity := d\<rparr>) =
    history_ok operation retain p i"
  by (simp add: history_ok_def)

text \<open>
  C6. What an accepted maintenance journal accounts for. When \<^verbatim>\<open>inspect\<close> returns, the directory of the
  transaction holds exactly the regular files \<^verbatim>\<open>0...0.json\<close> to the number of records less one, without
  gap or addition; the records are the context, an intent and a completion for every completed effect,
  at most one further intent, and at most one seal, which excludes an open intent; intents have the odd
  sequence numbers in order, and every effect and completion reported passed the validation of its kind.
\<close>

theorem inspection_accounts:
  assumes "inspect_effects w spec digest retain = Inr i"
  shows "\<exists>directory names. effect_directory w spec = Inr directory \<and> iterate_directory w directory = Inr names \<and>
    mset names = mset (map (\<lambda>k. effect_filename (of_nat k)) [0..<length names]) \<and>
    (\<forall>name \<in> set names. \<exists>ino content links mtime. lstat w (path_append directory (element_path name)) = Some (File ino content links mtime)) \<and>
    unat (ei_next_sequence i) = length names \<and> 0 < length names \<and> length names \<le> 200002 \<and>
    history_ok (ts_operation spec) retain (ei_pending_sequence i) i"
proof -
  from assms obtain directory identity names records reader reader' where d: "effect_directory w spec = Inr directory"
    "iterate_directory w directory = Inr names" "effect_records w directory [] names = Inr records"
    and reader: "new_reader spec identity digest (length records) retain = Inr reader"
    and run: "consume_all w (sort_key elements records) reader = (Inr (), reader')" and i: "fst (finish reader') = Inr i"
    unfolding inspect_effects_def accepted_simps consumed_Inr by blast
  note records = effect_records_Inr [OF d(3)]
  note new = new_reader_ok [OF reader]
  note all = consume_all_ok [OF run new(1)]
  have n: "length records = length names" using records by simp
  have counted: "unat (ei_next_sequence (er_result reader')) = length names" using all new(5) n by simp
  have "mset names = mset (map filename records)" using records by (simp add: o_def)
  also have "\<dots> = mset (map filename (sort_key elements records))" by (simp only: mset_map mset_sort)
  also have "map filename (sort_key elements records) = map (\<lambda>k. effect_filename (of_nat k)) [0..<length names]"
    using all new(5) n by simp
  finally have listed: "mset names = mset (map (\<lambda>k. effect_filename (of_nat k)) [0..<length names])" .
  have "ei_next_sequence (er_result reader') \<noteq> 0" using counted new(6) n by auto
  then have "history_ok (ts_operation spec) retain (er_pending_sequence reader') (er_result reader')"
    using all new(2,3) by (auto simp: reader_ok_def same_reader_def)
  moreover have "i = (er_result reader')\<lparr>ei_pending_sequence := er_pending_sequence reader', ei_serialized_bytes := er_bytes reader',
      ei_directory_identity := er_directory_identity reader'\<rparr>"
    using i by (auto simp: finish_def throwE_def split: if_splits)
  ultimately show ?thesis
    using d(1,2) listed records counted new(6,7) n by (auto simp: maximum_records_nat)
qed

end
