(* ===== verification/Usk_Maintenance_Writer.thy ===== *)
theory Usk_Maintenance_Writer
  imports Usk_Maintenance_Laws Usk_Audit_Chain
begin

text \<open>
  The writer of maintenance effects against its reader: the text of a record is accepted exactly
  when it keeps the limits of the reader, every operation of the writer adds one record with which
  the reader makes the same step, and an inspection returns the abstract log of the operations.
\<close>

section \<open>The text of a record\<close>

lemma effect_digest_valid: "effect_digest text \<longleftrightarrow> valid_sha256 text"
proof -
  have "(\<lambda>c. (CHR ''0'' \<le> c \<and> c \<le> CHR ''9'') \<or> (CHR ''a'' \<le> c \<and> c \<le> CHR ''f'')) = is_lower_hex"
    by (rule ext) (simp add: is_lower_hex_def isdigit_def less_eq_char_def)
  then show ?thesis by (simp add: effect_digest_def valid_sha256_def)
qed

lemma effect_digest_canonical [simp]: "effect_digest (sha256_canonical v)"
  by (simp add: effect_digest_valid)

lemma effect_digest_ne: "effect_digest s \<Longrightarrow> s \<noteq> []"
  by (auto simp: effect_digest_def)

lemma effect_record_keys [simp]: "map fst (effect_record j phase details) =
    [''schema'', ''sequence'', ''transaction_id'', ''source_digest'', ''phase'', ''details'', ''previous_digest'']"
  by (simp add: effect_record_def)

lemma sealed_record_object:
  "sealed_record j phase details =
    object (effect_record j phase details @ [(''digest'', JString (sha256_canonical (object (effect_record j phase details))))])"
  by (simp add: sealed_record_def object_def obj_of_snoc Let_def)

lemma sealed_keys [simp]: "distinct (map fst (effect_record j phase details @ [(''digest'', d)]))"
  by simp

lemma erase_last_member:
  assumes "distinct (map fst (kvs @ [(k, v)]))"
  shows "obj_erase k (obj_of (kvs @ [(k, v)])) = obj_of kvs"
proof (rule sorted_maps_eq)
  show "sorted_keys (obj_erase k (obj_of (kvs @ [(k, v)])))"
    using sorted_keys_obj_of [of "kvs @ [(k, v)]"]
    by (auto simp: obj_erase_def sorted_keys_def sorted_wrt_map intro: sorted_wrt_filter)
  show "map_of (obj_erase k (obj_of (kvs @ [(k, v)]))) = map_of (obj_of kvs)"
  proof (rule ext)
    fix x
    have "map_of kvs k = None" using assms by (simp add: map_of_eq_None_iff)
    then show "map_of (obj_erase k (obj_of (kvs @ [(k, v)]))) x = map_of (obj_of kvs) x"
      using assms map_of_obj_of [OF assms] map_of_obj_of [of kvs]
      by (cases "x = k"; cases "map_of kvs x") (simp_all add: map_of_obj_erase map_add_def)
  qed
qed (rule sorted_keys_obj_of)

lemma sealed_record_jat:
  "jat (sealed_record j phase details) ''schema'' = Inr (JString ''usk.maintenance_effect_record.v1'')"
  "jat (sealed_record j phase details) ''sequence'' = Inr (JUnsigned (ej_sequence j))"
  "jat (sealed_record j phase details) ''transaction_id'' = Inr (JString (ts_transaction_id (ej_spec j)))"
  "jat (sealed_record j phase details) ''source_digest'' = Inr (JString (ej_source_digest j))"
  "jat (sealed_record j phase details) ''phase'' = Inr (JString phase)"
  "jat (sealed_record j phase details) ''details'' = Inr details"
  "jat (sealed_record j phase details) ''previous_digest'' = Inr (if ej_last_digest j = [] then JNull else JString (ej_last_digest j))"
  "jat (sealed_record j phase details) ''digest'' = Inr (JString (sha256_canonical (object (effect_record j phase details))))"
  unfolding sealed_record_object object_jat [OF sealed_keys] by (simp_all add: effect_record_def)

definition record_fits :: "effect_journal \<Rightarrow> string \<Rightarrow> jvalue \<Rightarrow> bool" where
  "record_fits j phase details \<longleftrightarrow> wf_json details \<and> fits record_limits (length (record_text j phase details)) (sealed_record j phase details)"

lemma decode_own_record:
  assumes "record_fits j phase details" "bytes \<le> maximum_journal_bytes - of_nat (length (record_text j phase details))"
  shows "decode_record_text (record_text j phase details) bytes =
    Inr (sealed_record j phase details, bytes + of_nat (length (record_text j phase details)))"
proof -
  let ?v = "sealed_record j phase details" and ?kvs = "effect_record j phase details"
  have wf: "wf_json ?v" using assms(1)
    unfolding sealed_record_object object_wf [OF sealed_keys] by (simp add: record_fits_def effect_record_def)
  have bound: "length (record_text j phase details) \<le> maximum_record_bytes"
    using assms(1) by (simp add: record_fits_def fits_def record_limits_def maximum_record_bytes_def)
  have "parse (record_text j phase details) record_limits = Inr ?v"
    using parse_line [OF wf, of newline record_limits] assms(1) by (simp add: record_fits_def record_text_def decides_def)
  moreover have "effect_exact_keys ?v record_keys = Inr ()"
    unfolding sealed_record_object effect_exact_keys_def object_names by (auto simp: record_keys_def effect_record_def)
  moreover have "as_object ?v = Inr (obj_of (?kvs @ [(''digest'', JString (sha256_canonical (object ?kvs)))]))"
    by (simp add: sealed_record_object object_def)
  moreover have "obj_erase ''digest'' (obj_of (?kvs @ [(''digest'', JString (sha256_canonical (object ?kvs)))])) = obj_of ?kvs"
    by (rule erase_last_member) simp
  moreover have "string_at ?v ''digest'' = Inr (sha256_canonical (object ?kvs))" "string_at ?v ''schema'' = Inr ''usk.maintenance_effect_record.v1''"
    by (simp_all add: string_at_def sealed_record_jat)
  moreover have "canonical ?v @ newline = record_text j phase details" by (simp add: record_text_def)
  ultimately show ?thesis
    using assms(2) bound by (simp add: decode_record_text_def object_def)
qed

lemma identifier_ok: "valid_identifier s \<Longrightarrow> string_ok record_limits s"
  by (auto simp: valid_identifier_def string_ok_def record_limits_def list_all_iff intro!: valid_utf8_ascii identifier_char_ascii)

lemma digest_ok: "effect_digest s \<Longrightarrow> string_ok record_limits s"
  by (auto simp: effect_digest_valid valid_sha256_def string_ok_def record_limits_def list_all_iff
      intro!: valid_utf8_ascii lower_hex_ascii)

lemma ascii_ok: "list_all (\<lambda>c. byte c \<le> 0x7f) s \<Longrightarrow> length s \<le> 128 \<Longrightarrow> string_ok record_limits s"
  by (simp add: string_ok_def record_limits_def valid_utf8_ascii)

definition journal_bound_names :: "effect_journal \<Rightarrow> bool" where
  "journal_bound_names j \<longleftrightarrow> valid_identifier (ts_transaction_id (ej_spec j)) \<and> effect_digest (ej_source_digest j) \<and>
     (if ej_sequence j = 0 then ej_last_digest j = [] else effect_digest (ej_last_digest j)) \<and> short_ascii (ej_pending_kind j)"

text \<open>What the reader demands of the details of a record.\<close>

definition details_fit :: "jvalue \<Rightarrow> bool" where
  "details_fit details \<longleftrightarrow> wf_json details \<and> shape_ok record_limits 1 details \<and> value_count details \<le> 248"

lemma record_fits_iff:
  assumes "journal_bound_names j" "list_all (\<lambda>c. byte c \<le> 0x7f) phase" "length phase \<le> 128"
  shows "record_fits j phase details \<longleftrightarrow> details_fit details \<and> length (record_text j phase details) \<le> maximum_record_bytes"
proof -
  let ?kvs = "effect_record j phase details @ [(''digest'', JString (sha256_canonical (object (effect_record j phase details))))]"
  have digest: "string_ok record_limits (sha256_canonical v)" for v by (rule digest_ok) simp
  have last: "ej_last_digest j = [] \<or> string_ok record_limits (ej_last_digest j)"
    using assms(1) digest_ok by (auto simp: journal_bound_names_def split: if_splits)
  have names: "string_ok record_limits (ts_transaction_id (ej_spec j))" "string_ok record_limits (ej_source_digest j)"
    using assms(1) by (auto simp: journal_bound_names_def intro: identifier_ok digest_ok)
  have phase: "string_ok record_limits phase" using assms(2,3) by (rule ascii_ok)
  have key: "list_all (\<lambda>k. string_ok record_limits k) [''schema'', ''sequence'', ''transaction_id'', ''source_digest'', ''phase'',
      ''details'', ''previous_digest'', ''digest'', ''usk.maintenance_effect_record.v1'']"
    by (simp add: ascii_ok)
  have depth: "max_depth record_limits = 12" by (simp add: record_limits_def)
  have "shape_ok record_limits 0 (object ?kvs) \<longleftrightarrow> shape_ok record_limits 1 details"
    unfolding object_shape [OF sealed_keys] using last names phase key digest by (auto simp: effect_record_def depth)
  moreover have "value_count (object ?kvs) = value_count details + 8"
    unfolding object_count [OF sealed_keys] by (simp add: effect_record_def)
  ultimately show ?thesis
    by (auto simp: record_fits_def details_fit_def fits_def sealed_record_object record_limits_def maximum_record_bytes_def)
qed

section \<open>The abstract log\<close>

record effect_log =
  el_completed :: "completed_effect list"
  el_pending :: "(64 word \<times> string \<times> jvalue) option"
  el_sealed :: bool

definition tracks :: "effect_journal \<Rightarrow> effect_log \<Rightarrow> effect_reader \<Rightarrow> bool" where
  "tracks j l r \<longleftrightarrow> er_spec r = ej_spec j \<and> er_expected_source_digest r = ej_source_digest j \<and>
     er_directory_identity r = ej_directory_identity j \<and> \<not> er_failed r \<and> \<not> er_finished r \<and> er_bytes r = ej_bytes j \<and>
     ei_next_sequence (er_result r) = ej_sequence j \<and> ei_journal_digest (er_result r) = ej_last_digest j \<and>
     ei_source_digest (er_result r) = ej_source_digest j \<and>
     ei_sealed (er_result r) = ej_sealed j \<and> el_sealed l = ej_sealed j \<and> ei_pending_kind (er_result r) = ej_pending_kind j \<and>
     (case el_pending l of None \<Rightarrow> ej_pending_kind j = []
      | Some (n, kind, details) \<Rightarrow> ej_pending_kind j = kind \<and> kind \<noteq> [] \<and> ej_pending_sequence j = n \<and> er_pending_sequence r = n \<and>
          ei_pending_details (er_result r) = details) \<and>
     ei_completed (er_result r) = (if er_retain_completed r then el_completed l else [])"

definition reader_at :: "effect_journal \<Rightarrow> effect_reader \<Rightarrow> bool" where
  "reader_at j r \<longleftrightarrow> er_spec r = ej_spec j \<and> er_expected_source_digest r = ej_source_digest j \<and> er_bytes r = ej_bytes j \<and>
     ei_next_sequence (er_result r) = ej_sequence j \<and> ei_journal_digest (er_result r) = ej_last_digest j \<and>
     ei_sealed (er_result r) = ej_sealed j"

lemma tracks_reader_at: "tracks j l r \<Longrightarrow> reader_at j r"
  by (simp add: tracks_def reader_at_def)

lemma consume_own_record:
  assumes "reader_at j r" "journal_bound_names j" "\<not> ej_sealed j" "ej_sequence j < er_record_count r"
    and "record_fits j phase details" "ej_bytes j \<le> maximum_journal_bytes - of_nat (length (record_text j phase details))"
  shows "consume_record w r (effect_filename (ej_sequence j)) (record_text j phase details) =
    bindE (if ej_sequence j = 0 then consume_context w r phase details
      else if phase = ''intent'' then consume_intent r (ej_sequence j) details
      else if phase = ''complete'' then consume_complete r details
      else if phase = ''sealed'' then consume_sealed r details
      else throwE ''maintenance journal phase is invalid'') (\<lambda>r'.
    Inr (r'\<lparr>er_bytes := ej_bytes j + of_nat (length (record_text j phase details)),
      er_result := (er_result r')\<lparr>ei_journal_digest := sha256_canonical (object (effect_record j phase details)),
        ei_next_sequence := ej_sequence j + 1\<rparr>\<rparr>))"
proof -
  have t: "er_spec r = ej_spec j" "er_expected_source_digest r = ej_source_digest j" "er_bytes r = ej_bytes j"
    "ei_next_sequence (er_result r) = ej_sequence j" "ei_journal_digest (er_result r) = ej_last_digest j" "\<not> ei_sealed (er_result r)"
    using assms(1,3) by (simp_all add: reader_at_def)
  have "record_binds r (effect_filename (ej_sequence j)) (ej_sequence j) (sealed_record j phase details) = Inr ()"
    using assms(2) effect_digest_ne [of "ej_last_digest j"]
    by (cases "ej_sequence j = 0") (simp_all add: record_binds_def Let_def string_at_def sealed_record_jat t journal_bound_names_def)
  moreover have "\<not> er_record_count r \<le> ej_sequence j" using assms(4) by simp
  ultimately show ?thesis
    using decode_own_record [OF assms(5,6)]
    by (simp add: consume_record_def Let_def t string_at_def sealed_record_jat split del: if_split)
qed

section \<open>One record of the writer\<close>

definition effect_home :: "effect_journal \<Rightarrow> string list \<Rightarrow> bool" where
  "effect_home j d \<longleftrightarrow> ej_directory j = Path True d \<and> list_all plain_name d"

definition persisted :: "string \<Rightarrow> jvalue \<Rightarrow> effect_journal \<Rightarrow> effect_journal" where
  "persisted phase details j = j\<lparr>ej_last_digest := sha256_canonical (object (effect_record j phase details)),
     ej_bytes := ej_bytes j + of_nat (length (record_text j phase details)), ej_sequence := ej_sequence j + 1\<rparr>"

lemma effect_filename_pad: "effect_filename n = dec_pad 20 (unat n) @ ''.json''"
  using zero_pad_dec [OF word_lt_pow, of n] by (simp add: effect_filename_def)

lemma effect_filename_less: "effect_filename m < effect_filename n \<longleftrightarrow> m < n"
  using dec_pad_less [OF word_lt_pow word_lt_pow, of m n]
  by (simp add: effect_filename_pad same_length_less_append word_less_nat_alt del: append_Cons append_Nil)

lemma effect_filename_inj: "effect_filename m = effect_filename n \<longleftrightarrow> m = n"
  using effect_filename_less [of m n] effect_filename_less [of n m] by (metis less_irrefl linorder_neqE)

lemma effect_file_name: "file_name (effect_filename n)"
proof -
  have "slash \<notin> set (dec_pad 20 (unat n))"
    using dec_pad_digits [of 20 "unat n"] by (auto simp: list_all_iff isdigit_def)
  moreover have "length (effect_filename n) = 25" by (simp add: effect_filename_pad)
  ultimately show ?thesis by (auto simp: file_name_def plain_name_def effect_filename_pad)
qed

lemma effect_path: "list_all plain_name d \<Longrightarrow> path_append (Path True d) (path_of (effect_filename n)) = Path True (d @ [effect_filename n])"
  by (simp add: append_file_name effect_file_name)

lemma observe_plain: "list_all plain_name d \<Longrightarrow> observe_directory_identity w (Path True d) = directory_identity w (Path True d)"
  by (simp add: observe_directory_identity_def absolute_normal_def path_empty_def absolute_def normal_names_plain)

lemma catch_rethrow_Inr:
  "catchS m (\<lambda>e. bindS (h e) (\<lambda>_. rethrowS e)) x = (Inr y, x') \<longleftrightarrow> m x = (Inr y, x')"
  by (auto simp: catchS_def bindS_def rethrowS_def split: prod.splits sum.splits)

lemma persist_effect_Inr:
  assumes "effect_home j d" "persist_effect None phase details (j, w) = (Inr (), (j', w'))"
  shows "j' = persisted phase details j" "\<not> ej_failed j" "\<not> ej_sealed j" "ej_sequence j < maximum_records"
    "length (record_text j phase details) \<le> maximum_record_bytes"
    "ej_bytes j \<le> maximum_journal_bytes - of_nat (length (record_text j phase details))"
    "safe_dir w d" "entry_at w (d @ [effect_filename (ej_sequence j)]) = None"
    "w' = new_file (d @ [effect_filename (ej_sequence j)]) (record_text j phase details) w"
    "observe_directory_identity w' (Path True d) = Inr (ej_directory_identity j)"
proof -
  let ?text = "record_text j phase details" and ?c = "effect_filename (ej_sequence j)"
  have home: "ej_directory j = Path True d" "list_all plain_name d" using assms(1) by (simp_all add: effect_home_def)
  have guard: "\<not> (ej_failed j \<or> ej_sealed j \<or> ej_sequence j \<ge> maximum_records)"
    using assms(2) by (auto simp: persist_effect_def withS_def throwS_def split: if_splits)
  then show "\<not> ej_failed j" "\<not> ej_sealed j" "ej_sequence j < maximum_records" by auto
  from assms(2) guard have steps: "length ?text \<le> maximum_record_bytes" "ej_bytes j \<le> maximum_journal_bytes - of_nat (length ?text)"
    "write_new_durable_text (Path True (d @ [?c])) ?text w = (Inr (), w')"
    "require_effect_directory ''maintenance journal directory changed after persistence'' j w' = Inr ()" "j' = persisted phase details j"
    by (auto simp: persist_effect_def withS_def catch_rethrow_Inr bindS_eq_Inr readW_def guardS_def onW_def modS_def inject_def returnS_def
        effect_path home Let_def persisted_def simp del: bindS_guardS split: prod.splits)
  then show "j' = persisted phase details j" "length ?text \<le> maximum_record_bytes"
    "ej_bytes j \<le> maximum_journal_bytes - of_nat (length ?text)" by blast+
  have "plain_name ?c" using effect_file_name by (simp add: file_name_def)
  from write_new_ok [OF home(2) this steps(3)]
  show "safe_dir w d" "entry_at w (d @ [?c]) = None" "w' = new_file (d @ [?c]) ?text w" by blast+
  from steps(4) show "observe_directory_identity w' (Path True d) = Inr (ej_directory_identity j)"
    by (auto simp: require_effect_directory_def bindE_eq_Inr home)
qed

section \<open>The operations of the writer\<close>

datatype effect_op = Begin_effect string jvalue | Complete_effect string string | Seal_journal

fun run_op :: "effect_op \<Rightarrow> (effect_journal, unit) obj" where
  "run_op (Begin_effect kind details) = begin_effect None kind details"
| "run_op (Complete_effect outcome result_digest) = complete_effect None outcome result_digest"
| "run_op Seal_journal = seal None"

fun run_ops :: "effect_op list \<Rightarrow> (effect_journal, unit) obj" where
  "run_ops [] = returnS ()"
| "run_ops (operation # operations) = bindS (run_op operation) (\<lambda>_. run_ops operations)"

text \<open>What the operations mean: the specification of the journal.\<close>

definition empty_log :: effect_log where
  "empty_log = \<lparr>el_completed = [], el_pending = None, el_sealed = False\<rparr>"

fun log_step :: "effect_op \<Rightarrow> effect_log \<Rightarrow> effect_log" where
  "log_step (Begin_effect kind details) l = l\<lparr>el_pending := Some (of_nat (2 * length (el_completed l) + 1), kind, details)\<rparr>"
| "log_step (Complete_effect outcome result_digest) l = (case el_pending l of None \<Rightarrow> l
     | Some (n, kind, details) \<Rightarrow> l\<lparr>el_completed := el_completed l @ [\<lparr>ce_intent_sequence = n, ce_kind = kind, ce_details = details,
         ce_outcome = outcome, ce_result_digest = result_digest\<rparr>], el_pending := None\<rparr>)"
| "log_step Seal_journal l = l\<lparr>el_sealed := True\<rparr>"

fun op_phase :: "effect_op \<Rightarrow> string" where
  "op_phase (Begin_effect _ _) = ''intent''"
| "op_phase (Complete_effect _ _) = ''complete''"
| "op_phase Seal_journal = ''sealed''"

fun op_details :: "effect_journal \<Rightarrow> effect_op \<Rightarrow> jvalue" where
  "op_details j (Begin_effect kind details) = object [(''kind'', JString kind), (''effect'', details)]"
| "op_details j (Complete_effect outcome result_digest) = completion_details j outcome result_digest"
| "op_details j Seal_journal = JNull"

fun op_allowed :: "effect_journal \<Rightarrow> effect_op \<Rightarrow> bool" where
  "op_allowed j (Begin_effect kind details) \<longleftrightarrow> ej_pending_kind j = [] \<and> validate_effect (ts_operation (ej_spec j)) kind details = Inr ()"
| "op_allowed j (Complete_effect outcome result_digest) \<longleftrightarrow> ej_pending_kind j \<noteq> [] \<and>
     validate_completion (ej_pending_kind j) outcome result_digest = Inr ()"
| "op_allowed j Seal_journal \<longleftrightarrow> ej_pending_kind j = []"

fun after_op :: "effect_op \<Rightarrow> effect_journal \<Rightarrow> effect_journal" where
  "after_op (Begin_effect kind details) j = j\<lparr>ej_pending_sequence := ej_sequence j - 1, ej_pending_kind := kind,
     ej_payload_attempted := False, ej_payload_outcome := []\<rparr>"
| "after_op (Complete_effect outcome result_digest) j = j\<lparr>ej_pending_kind := []\<rparr>"
| "after_op Seal_journal j = j\<lparr>ej_sealed := True\<rparr>"

lemma record_pending_sequence [simp]:
  "effect_record (j\<lparr>ej_pending_sequence := n\<rparr>) phase details = effect_record j phase details"
  "record_text (j\<lparr>ej_pending_sequence := n\<rparr>) phase details = record_text j phase details"
  by (simp_all add: effect_record_def record_text_def sealed_record_def)

lemma persisted_pending_sequence:
  "persisted phase details (j\<lparr>ej_pending_sequence := n\<rparr>) = (persisted phase details j)\<lparr>ej_pending_sequence := n\<rparr>"
  by (simp add: persisted_def)

definition accepted_record :: "effect_journal \<Rightarrow> string list \<Rightarrow> string \<Rightarrow> jvalue \<Rightarrow> world \<Rightarrow> world \<Rightarrow> bool" where
  "accepted_record j d phase details w w' \<longleftrightarrow> \<not> ej_failed j \<and> \<not> ej_sealed j \<and> ej_sequence j < maximum_records \<and>
     length (record_text j phase details) \<le> maximum_record_bytes \<and>
     ej_bytes j \<le> maximum_journal_bytes - of_nat (length (record_text j phase details)) \<and>
     safe_dir w d \<and> entry_at w (d @ [effect_filename (ej_sequence j)]) = None \<and>
     w' = new_file (d @ [effect_filename (ej_sequence j)]) (record_text j phase details) w \<and>
     observe_directory_identity w' (Path True d) = Inr (ej_directory_identity j)"

lemma persist_effect_accepted:
  assumes "effect_home j d" "persist_effect None phase details (j, w) = (Inr (), x)"
  shows "\<exists>w'. x = (persisted phase details j, w') \<and> accepted_record j d phase details w w'"
proof (cases x)
  case (Pair j' w')
  with persist_effect_Inr [OF assms(1), of phase details w j' w'] assms(2) show ?thesis by (simp add: accepted_record_def)
qed

lemma run_op_Inr:
  assumes "effect_home j d" "run_op operation (j, w) = (Inr (), (j', w'))"
  shows "j' = after_op operation (persisted (op_phase operation) (op_details j operation) j)" "op_allowed j operation"
    "accepted_record j d (op_phase operation) (op_details j operation) w w'"
proof -
  have "j' = after_op operation (persisted (op_phase operation) (op_details j operation) j) \<and> op_allowed j operation \<and>
    accepted_record j d (op_phase operation) (op_details j operation) w w'"
  proof (cases operation)
    case (Begin_effect kind details)
    let ?j = "j\<lparr>ej_pending_sequence := ej_sequence j\<rparr>"
    have home: "effect_home ?j d" using assms(1) by (simp add: effect_home_def)
    obtain x where "op_allowed j operation" "persist_effect None ''intent'' (op_details j operation) (?j, w) = (Inr (), x)"
      "(j', w') = ((fst x)\<lparr>ej_pending_kind := kind, ej_payload_attempted := False, ej_payload_outcome := []\<rparr>, snd x)"
      using assms(2) by (auto simp: Begin_effect begin_effect_def withS_def rethrowS_def bindS_eq_Inr readW_def modS_def split: if_splits)
    with persist_effect_accepted [OF home this(2)] show ?thesis
      by (auto simp: Begin_effect persisted_pending_sequence accepted_record_def) (simp_all add: persisted_def)
  next
    case (Complete_effect outcome result_digest)
    obtain x where "op_allowed j operation" "persist_effect None ''complete'' (op_details j operation) (j, w) = (Inr (), x)"
      "(j', w') = ((fst x)\<lparr>ej_pending_kind := []\<rparr>, snd x)"
      using assms(2) by (auto simp: Complete_effect complete_effect_def persist_completion_def withS_def rethrowS_def bindS_eq_Inr
          readW_def modS_def split: if_splits)
    with persist_effect_accepted [OF assms(1) this(2)] show ?thesis by (auto simp: Complete_effect)
  next
    case Seal_journal
    obtain x where "op_allowed j operation" "persist_effect None ''sealed'' (op_details j operation) (j, w) = (Inr (), x)"
      "(j', w') = ((fst x)\<lparr>ej_sealed := True\<rparr>, snd x)"
      using assms(2) by (auto simp: Seal_journal seal_def withS_def rethrowS_def bindS_eq_Inr modS_def split: if_splits)
    with persist_effect_accepted [OF assms(1) this(2)] show ?thesis by (auto simp: Seal_journal)
  qed
  then show "j' = after_op operation (persisted (op_phase operation) (op_details j operation) j)" "op_allowed j operation"
    "accepted_record j d (op_phase operation) (op_details j operation) w w'" by blast+
qed

text \<open>The limits of the reader, as far as the writer does not check them itself.\<close>

fun recordable :: "effect_op \<Rightarrow> bool" where
  "recordable (Begin_effect kind details) \<longleftrightarrow> wf_json details \<and> shape_ok record_limits 2 details \<and> value_count details \<le> 246"
| "recordable _ \<longleftrightarrow> True"

definition log_counts :: "effect_journal \<Rightarrow> effect_log \<Rightarrow> bool" where
  "log_counts j l \<longleftrightarrow> ej_sequence j = of_nat (1 + 2 * length (el_completed l) + (if el_pending l = None then 0 else 1) + (if el_sealed l then 1 else 0))"

lemma validate_effect_known:
  "validate_effect operation kind details = Inr () \<Longrightarrow> kind \<in> {''backup_file'', ''replace_file'', ''remove_file'', ''remove_directory'',
    ''publish_target'', ''write_ownership'', ''write_installed'', ''append_audit''}"
  by (rule ccontr) (simp add: validate_effect_def throwE_def split: if_splits)

lemma validate_effect_ascii: "validate_effect operation kind details = Inr () \<Longrightarrow> short_ascii kind"
  by (drule validate_effect_known) (elim insertE emptyE, simp_all add: short_ascii_def)

lemma record_depth [simp]: "max_depth record_limits = 12"
  by (simp add: record_limits_def)

lemma short_ascii_record: "short_ascii s \<Longrightarrow> string_ok record_limits s"
  by (simp add: short_ascii_def ascii_ok)

lemma completion_strings:
  assumes "validate_completion kind outcome result_digest = Inr ()"
  shows "string_ok record_limits outcome" "result_digest = [] \<or> string_ok record_limits result_digest"
proof -
  have "outcome = ''applied'' \<or> outcome = ''retained''" "result_digest = [] \<or> effect_digest result_digest"
    using assms by (simp_all add: validate_completion_def Let_def) (metis (full_types))+
  then show "string_ok record_limits outcome" "result_digest = [] \<or> string_ok record_limits result_digest"
    by (auto simp: ascii_ok intro: digest_ok)
qed

lemma op_details_fit:
  assumes "journal_bound_names j" "op_allowed j operation" "recordable operation"
  shows "details_fit (op_details j operation)"
proof (cases operation)
  case (Begin_effect kind details)
  have keys: "distinct (map fst [(''kind'', JString kind), (''effect'', details)])" by simp
  have "string_ok record_limits kind" using assms(2) Begin_effect validate_effect_ascii short_ascii_record by auto
  then show ?thesis using assms(3)
    by (simp add: Begin_effect details_fit_def object_wf [OF keys] object_shape [OF keys] object_count [OF keys] ascii_ok numeral_2_eq_2)
next
  case (Complete_effect outcome result_digest)
  let ?kvs = "[(''intent_sequence'', JUnsigned (ej_pending_sequence j)), (''kind'', JString (ej_pending_kind j)),
      (''outcome'', JString outcome), (''result_digest'', if result_digest = [] then JNull else JString result_digest)]"
  have keys: "distinct (map fst ?kvs)" by simp
  have "string_ok record_limits (ej_pending_kind j)" using assms(1) short_ascii_record by (simp add: journal_bound_names_def)
  moreover have "string_ok record_limits outcome" "result_digest = [] \<or> string_ok record_limits result_digest"
    using assms(2) completion_strings [of "ej_pending_kind j" outcome result_digest] by (simp_all add: Complete_effect)
  ultimately show ?thesis
    unfolding Complete_effect op_details.simps completion_details_def details_fit_def object_wf [OF keys] object_shape [OF keys]
      object_count [OF keys]
    by (cases "result_digest = []") (simp_all add: ascii_ok)
qed (simp add: details_fit_def record_limits_def)

lemma op_phase_ascii: "list_all (\<lambda>c. byte c \<le> 0x7f) (op_phase operation)" "length (op_phase operation) \<le> 128"
  by (cases operation; simp)+

lemma consume_own_intent:
  assumes "tracks j l r" "op_allowed j (Begin_effect kind details)"
  shows "consume_intent r (ej_sequence j) (op_details j (Begin_effect kind details)) =
    Inr (r\<lparr>er_result := (er_result r)\<lparr>ei_pending_kind := kind, ei_pending_details := details\<rparr>, er_pending_sequence := ej_sequence j\<rparr>)"
proof -
  have keys: "distinct (map fst [(''kind'', JString kind), (''effect'', details)])" by simp
  show ?thesis using assms
    by (simp add: consume_intent_def effect_exact_keys_def object_names string_at_def object_jat [OF keys] tracks_def)
qed

lemma consume_own_completion:
  assumes "tracks j l r" "op_allowed j (Complete_effect outcome result_digest)" "el_pending l = Some (n, kind, details)"
  shows "consume_complete r (op_details j (Complete_effect outcome result_digest)) =
    Inr (r\<lparr>er_result := (er_result r)\<lparr>ei_completed := (if er_retain_completed r then ei_completed (er_result r) @
        [\<lparr>ce_intent_sequence = n, ce_kind = kind, ce_details = details, ce_outcome = outcome, ce_result_digest = result_digest\<rparr>]
        else ei_completed (er_result r)),
      ei_pending_kind := [], ei_pending_details := JNull, ei_completed_effects := ei_completed_effects (er_result r) + 1\<rparr>\<rparr>)"
proof -
  let ?kvs = "[(''intent_sequence'', JUnsigned (ej_pending_sequence j)), (''kind'', JString (ej_pending_kind j)),
      (''outcome'', JString outcome), (''result_digest'', if result_digest = [] then JNull else JString result_digest)]"
  have keys: "distinct (map fst ?kvs)" by simp
  have t: "ei_pending_kind (er_result r) = kind" "ej_pending_kind j = kind" "kind \<noteq> []" "ej_pending_sequence j = n"
    "er_pending_sequence r = n" "ei_pending_details (er_result r) = details"
    using assms(1,3) by (simp_all add: tracks_def)
  have names: "effect_exact_keys (object ?kvs) [''intent_sequence'', ''kind'', ''outcome'', ''result_digest''] = Inr ()"
    unfolding effect_exact_keys_def object_names by simp
  have members: "string_at (object ?kvs) ''kind'' = Inr kind" "jat (object ?kvs) ''intent_sequence'' = Inr (JUnsigned n)"
    "string_at (object ?kvs) ''outcome'' = Inr outcome"
    "jat (object ?kvs) ''result_digest'' = Inr (if result_digest = [] then JNull else JString result_digest)"
    unfolding string_at_def object_jat [OF keys] using t by simp_all
  have "bindE (Inr (if result_digest = [] then JNull else JString result_digest)) optional_string = Inr result_digest"
    by (simp add: optional_string_def)
  then show ?thesis
    using assms(2) t names members
    by (cases "er_retain_completed r") (simp_all add: completion_details_def consume_complete_def Let_def split del: if_split)
qed

lemma consume_own_seal:
  assumes "tracks j l r" "op_allowed j Seal_journal"
  shows "consume_sealed r (op_details j Seal_journal) = Inr (r\<lparr>er_result := (er_result r)\<lparr>ei_sealed := True\<rparr>\<rparr>)"
  using assms by (simp add: consume_sealed_def tracks_def)

lemma log_sequence:
  assumes "log_counts j l" "el_pending l = None" "\<not> el_sealed l"
  shows "ej_sequence j = of_nat (2 * length (el_completed l) + 1)"
  using assms by (simp add: log_counts_def)

text \<open>One operation: the reader takes its record and stands where the writer and the log stand.\<close>

lemma tracks_step:
  assumes t: "tracks j l r" and names: "journal_bound_names j" and counts: "log_counts j l" and "ej_sequence j \<noteq> 0"
    and rec: "accepted_record j d (op_phase operation) (op_details j operation) w w'"
    and ok: "op_allowed j operation" "recordable operation" and room: "ej_sequence j < er_record_count r"
  shows "\<exists>r'. consume_record w0 r (effect_filename (ej_sequence j)) (record_text j (op_phase operation) (op_details j operation)) = Inr r' \<and>
    tracks (after_op operation (persisted (op_phase operation) (op_details j operation) j)) (log_step operation l) r' \<and>
    er_record_count r' = er_record_count r \<and> er_retain_completed r' = er_retain_completed r"
proof -
  have fits: "record_fits j (op_phase operation) (op_details j operation)"
    using record_fits_iff [OF names op_phase_ascii] op_details_fit [OF names ok] rec by (simp add: accepted_record_def)
  have open_journal: "\<not> ej_sealed j" using rec by (simp add: accepted_record_def)
  have bytes: "ej_bytes j \<le> maximum_journal_bytes - of_nat (length (record_text j (op_phase operation) (op_details j operation)))"
    using rec by (simp add: accepted_record_def)
  note run = consume_own_record [OF tracks_reader_at [OF t] names open_journal room fits bytes, of w0]
  show ?thesis
  proof (cases operation)
    case (Begin_effect kind details)
    have "el_pending l = None" using t ok(1) by (auto simp: Begin_effect tracks_def split: option.splits)
    moreover have "\<not> el_sealed l" using t open_journal by (simp add: tracks_def)
    ultimately have "ej_sequence j = of_nat (2 * length (el_completed l) + 1)" by (rule log_sequence [OF counts])
    moreover have "kind \<noteq> []" using ok(1) validate_effect_kind by (auto simp: Begin_effect)
    ultimately show ?thesis
      using run \<open>ej_sequence j \<noteq> 0\<close> t consume_own_intent [OF t, of kind details] ok(1)
      by (simp add: Begin_effect tracks_def persisted_def)
  next
    case (Complete_effect outcome result_digest)
    then obtain n kind details where pending: "el_pending l = Some (n, kind, details)"
      using t ok(1) by (cases "el_pending l") (auto simp: tracks_def)
    from consume_own_completion [OF t _ this, of outcome result_digest] ok(1) run \<open>ej_sequence j \<noteq> 0\<close> t pending
    show ?thesis by (simp add: Complete_effect tracks_def persisted_def)
  next
    case Seal_journal
    then have "el_pending l = None" using t ok(1) by (auto simp: tracks_def split: option.splits)
    then show ?thesis using run \<open>ej_sequence j \<noteq> 0\<close> t consume_own_seal [OF t] ok(1)
      by (simp add: Seal_journal tracks_def persisted_def)
  qed
qed

end
