(* ===== verification/Usk_Maintenance_Log.thy ===== *)
theory Usk_Maintenance_Log
  imports Usk_Maintenance_Writer
begin

text \<open>
  A maintenance journal on disk: the files of its directory are the records of the operations
  performed so far, and inspecting the directory gives back the abstract log of them.
\<close>

section \<open>Reading depends on the working directory only\<close>

lemma normalized_cwd: "w_cwd w' = w_cwd w \<Longrightarrow> normalized w' = normalized w"
  by (rule ext) (simp add: normalized_def)

lemma root_observation_cwd:
  assumes "w_cwd w' = w_cwd w"
  shows "root_observation w' = root_observation w"
  by (intro ext) (simp only: root_observation_def normalized_cwd [OF assms])

lemma validate_context_cwd:
  assumes "w_cwd w' = w_cwd w"
  shows "validate_context w' = validate_context w"
proof -
  have "installed_observation w' = installed_observation w"
    unfolding installed_observation_def fun_eq_iff normalized_cwd [OF assms] root_observation_cwd [OF assms] by (intro allI refl)
  then show ?thesis
    by (intro ext) (simp only: validate_context_def normalized_cwd [OF assms] root_observation_cwd [OF assms] assms)
qed

lemma consume_record_cwd:
  assumes "w_cwd w' = w_cwd w"
  shows "consume_record w' r name content = consume_record w r name content"
  unfolding consume_record_def consume_context_def validate_context_cwd [OF assms] by (rule refl)

section \<open>The records of a directory\<close>

fun consume_texts :: "world \<Rightarrow> nat \<Rightarrow> string list \<Rightarrow> effect_reader \<Rightarrow> effect_reader res" where
  "consume_texts w k [] r = Inr r"
| "consume_texts w k (t # ts) r = bindE (consume_record w r (effect_filename (of_nat k)) t) (\<lambda>r'. consume_texts w (Suc k) ts r')"

lemma consume_texts_append:
  "consume_texts w k (ts @ us) r = bindE (consume_texts w k ts r) (consume_texts w (k + length ts) us)"
proof (induction ts arbitrary: k r)
  case (Cons t ts)
  have "consume_texts w (Suc k) (ts @ us) = (\<lambda>r. bindE (consume_texts w (Suc k) ts r) (consume_texts w (Suc (k + length ts)) us))"
    using Cons by (intro ext) simp
  then show ?case by (simp add: bindE_assoc)
qed simp

lemma consume_texts_cwd: "w_cwd w' = w_cwd w \<Longrightarrow> consume_texts w' k ts r = consume_texts w k ts r"
proof (induction ts arbitrary: k r)
  case (Cons t ts)
  then have "consume_texts w' (Suc k) ts = consume_texts w (Suc k) ts" by (intro ext) simp
  with Cons.prems show ?case by (simp add: consume_record_cwd [of w' w])
qed simp

definition effect_files :: "world \<Rightarrow> string list \<Rightarrow> string list \<Rightarrow> bool" where
  "effect_files w d texts \<longleftrightarrow> safe_dir w d \<and> length texts \<le> 200002 \<and>
     mset (children w d) = mset (map (\<lambda>k. effect_filename (of_nat k)) [0..<length texts]) \<and>
     (\<forall>k < length texts. \<exists>ino mtime. entry_at w (d @ [effect_filename (of_nat k)]) = Some (File ino (texts ! k) 1 mtime) \<and>
        length (texts ! k) \<le> maximum_record_bytes)"

lemma effect_files_append:
  assumes "effect_files w d texts" "entry_at w (d @ [effect_filename (of_nat (length texts))]) = None"
    and "length content \<le> maximum_record_bytes" "length texts < 200002"
  shows "effect_files (new_file (d @ [effect_filename (of_nat (length texts))]) content w) d (texts @ [content])"
proof -
  let ?w = "new_file (d @ [effect_filename (of_nat (length texts))]) content w"
  have safe: "safe_dir ?w d" using assms(1,2) by (intro safe_dir_new_file) (simp_all add: effect_files_def)
  have kids: "children ?w d = effect_filename (of_nat (length texts)) # children w d" using assms(2) by (rule children_new_file)
  have "\<exists>ino mtime. entry_at ?w (d @ [effect_filename (of_nat k)]) = Some (File ino ((texts @ [content]) ! k) 1 mtime) \<and>
      length ((texts @ [content]) ! k) \<le> maximum_record_bytes" if k: "k < length (texts @ [content])" for k
  proof (cases "k = length texts")
    case True
    then show ?thesis using assms(3) by simp
  next
    case False
    then have old: "k < length texts" using k by simp
    then obtain ino mtime where e: "entry_at w (d @ [effect_filename (of_nat k)]) = Some (File ino (texts ! k) 1 mtime)"
      "length (texts ! k) \<le> maximum_record_bytes" using assms(1) unfolding effect_files_def by blast
    with assms(2) have "effect_filename (of_nat k) \<noteq> effect_filename (of_nat (length texts))" by auto
    with e old show ?thesis by (simp add: nth_append)
  qed
  with safe kids assms(1,4) show ?thesis by (simp add: effect_files_def)
qed

section \<open>The invariant of a journal\<close>

definition reads_back :: "world \<Rightarrow> effect_journal \<Rightarrow> effect_log \<Rightarrow> string list \<Rightarrow> bool" where
  "reads_back w j l texts \<longleftrightarrow> (\<forall>n retain. length texts \<le> n \<longrightarrow> n \<le> 200002 \<longrightarrow>
     (\<exists>r r'. new_reader (ej_spec j) (ej_directory_identity j) (ej_source_digest j) n retain = Inr r \<and>
       consume_texts w 0 texts r = Inr r' \<and> tracks j l r' \<and> er_record_count r' = of_nat n \<and> er_retain_completed r' = retain))"

definition logged :: "world \<Rightarrow> string list \<Rightarrow> effect_journal \<Rightarrow> effect_log \<Rightarrow> string list \<Rightarrow> bool" where
  "logged w d j l texts \<longleftrightarrow> effect_home j d \<and> journal_bound_names j \<and> log_counts j l \<and> \<not> ej_failed j \<and>
     ej_sequence j \<noteq> 0 \<and> unat (ej_sequence j) = length texts \<and> effect_files w d texts \<and>
     observe_directory_identity w (Path True d) = Inr (ej_directory_identity j) \<and> reads_back w j l texts"

lemma word_unat_eq: "of_nat (unat (x :: 64 word)) = x"
  by simp

lemma after_op_fields [simp]:
  "ej_spec (after_op operation (persisted phase details j)) = ej_spec j"
  "ej_directory (after_op operation (persisted phase details j)) = ej_directory j"
  "ej_directory_identity (after_op operation (persisted phase details j)) = ej_directory_identity j"
  "ej_source_digest (after_op operation (persisted phase details j)) = ej_source_digest j"
  "ej_failed (after_op operation (persisted phase details j)) = ej_failed j"
  "ej_sequence (after_op operation (persisted phase details j)) = ej_sequence j + 1"
  "ej_last_digest (after_op operation (persisted phase details j)) = sha256_canonical (object (effect_record j phase details))"
  by (cases operation; simp add: persisted_def)+

lemma after_op_names:
  assumes "journal_bound_names j" "op_allowed j operation" "ej_sequence j + 1 \<noteq> 0"
  shows "journal_bound_names (after_op operation (persisted (op_phase operation) (op_details j operation) j))"
proof -
  have "short_ascii (ej_pending_kind (after_op operation (persisted (op_phase operation) (op_details j operation) j)))"
    using assms(1,2) validate_effect_ascii
    by (cases operation) (auto simp: persisted_def journal_bound_names_def short_ascii_def)
  with assms(1,3) show ?thesis by (simp add: journal_bound_names_def)
qed

lemma after_op_counts:
  assumes "log_counts j l" "op_allowed j operation" "tracks j l r" "\<not> ej_sealed j"
  shows "log_counts (after_op operation (persisted (op_phase operation) (op_details j operation) j)) (log_step operation l)"
proof -
  have t: "\<not> el_sealed l" "el_pending l = None \<longleftrightarrow> ej_pending_kind j = []"
    using assms(3,4) by (auto simp: tracks_def split: option.splits)
  then show ?thesis using assms(1,2) by (cases operation) (auto simp: log_counts_def persisted_def split: option.splits)
qed

lemma reads_back_step:
  assumes "reads_back w j l texts" "journal_bound_names j" "log_counts j l" "ej_sequence j \<noteq> 0" "unat (ej_sequence j) = length texts"
    and rec: "accepted_record j d (op_phase operation) (op_details j operation) w w'"
    and ok: "op_allowed j operation" "recordable operation"
  shows "reads_back w' (after_op operation (persisted (op_phase operation) (op_details j operation) j)) (log_step operation l)
    (texts @ [record_text j (op_phase operation) (op_details j operation)])"
  unfolding reads_back_def
proof (intro allI impI)
  fix n retain
  let ?text = "record_text j (op_phase operation) (op_details j operation)"
  assume n: "length (texts @ [?text]) \<le> n" "n \<le> 200002"
  then have "length texts \<le> n" by simp
  with n(2) obtain r r' where r: "new_reader (ej_spec j) (ej_directory_identity j) (ej_source_digest j) n retain = Inr r"
    "consume_texts w 0 texts r = Inr r'" "tracks j l r'" "er_record_count r' = of_nat n" "er_retain_completed r' = retain"
    using assms(1) unfolding reads_back_def by blast
  have "unat (of_nat n :: 64 word) = n" using n(2) by (simp add: unat_of_nat take_bit_nat_eq_self)
  then have "ej_sequence j < er_record_count r'" using r(4) n(1) assms(5) by (simp add: word_less_nat_alt)
  from tracks_step [OF r(3) assms(2,3,4) rec ok this, of w'] obtain r'' where
    r'': "consume_record w' r' (effect_filename (ej_sequence j)) ?text = Inr r''"
    "tracks (after_op operation (persisted (op_phase operation) (op_details j operation) j)) (log_step operation l) r''"
    "er_record_count r'' = er_record_count r'" "er_retain_completed r'' = er_retain_completed r'" by blast
  have "w_cwd w' = w_cwd w" using rec by (simp add: accepted_record_def)
  moreover have "ej_sequence j = of_nat (length texts)" using assms(5) by (metis word_unat_eq)
  ultimately have "consume_texts w' 0 (texts @ [?text]) r = Inr r''"
    using r(2) r''(1) by (simp add: consume_texts_append consume_texts_cwd [of w' w])
  with r(1,4,5) r'' show "\<exists>r r'. new_reader (ej_spec (after_op operation (persisted (op_phase operation) (op_details j operation) j)))
      (ej_directory_identity (after_op operation (persisted (op_phase operation) (op_details j operation) j)))
      (ej_source_digest (after_op operation (persisted (op_phase operation) (op_details j operation) j))) n retain = Inr r \<and>
    consume_texts w' 0 (texts @ [?text]) r = Inr r' \<and>
    tracks (after_op operation (persisted (op_phase operation) (op_details j operation) j)) (log_step operation l) r' \<and>
    er_record_count r' = of_nat n \<and> er_retain_completed r' = retain" by simp
qed

lemma logged_step:
  assumes "logged w d j l texts" "run_op operation (j, w) = (Inr (), (j', w'))" "recordable operation"
  shows "logged w' d j' (log_step operation l) (texts @ [record_text j (op_phase operation) (op_details j operation)])"
proof -
  have l: "effect_home j d" "journal_bound_names j" "log_counts j l" "\<not> ej_failed j" "ej_sequence j \<noteq> 0"
    "unat (ej_sequence j) = length texts" "effect_files w d texts" "reads_back w j l texts"
    using assms(1) by (simp_all add: logged_def)
  note run = run_op_Inr [OF l(1) assms(2)]
  have seq: "ej_sequence j = of_nat (length texts)" using l(6) by (metis word_unat_eq)
  have room: "ej_sequence j < maximum_records" "\<not> ej_sealed j" using run(3) by (simp_all add: accepted_record_def)
  note succ = small_below [OF room(1) order_refl]
  have small: "length texts < 200002" using room(1) l(6) by (simp add: word_less_nat_alt maximum_records_nat)
  from l(8) small obtain r' where "tracks j l r'" unfolding reads_back_def by (meson less_imp_le order_refl)
  from after_op_counts [OF l(3) run(2) this room(2)] have counts: "log_counts j' (log_step operation l)" by (simp add: run(1))
  have files: "effect_files w' d (texts @ [record_text j (op_phase operation) (op_details j operation)])"
    using effect_files_append [OF l(7) _ _ small] run(3) seq by (simp add: accepted_record_def)
  have "observe_directory_identity w' (Path True d) = Inr (ej_directory_identity j)"
    using run(3) unfolding accepted_record_def by blast
  then have "observe_directory_identity w' (Path True d) = Inr (ej_directory_identity j')" "effect_home j' d"
    "unat (ej_sequence j') = length (texts @ [record_text j (op_phase operation) (op_details j operation)])"
    "ej_sequence j' \<noteq> 0" "\<not> ej_failed j'"
    using l(1,4,6) succ by (simp_all add: run(1) effect_home_def)
  with counts files reads_back_step [OF l(8,2,3,5,6) run(3,2) assms(3)] after_op_names [OF l(2) run(2) succ(2)]
  show ?thesis unfolding logged_def run(1) by blast
qed

section \<open>From one operation to a sequence of them\<close>

text \<open>
  Operations that implement the steps of a specification one by one implement it for every
  sequence of them that returns.
\<close>

locale log_simulation =
  fixes step :: "'c \<Rightarrow> ('s, unit) st"
    and run :: "'c list \<Rightarrow> ('s, unit) st"
    and spec_step :: "'c \<Rightarrow> 'a \<Rightarrow> 'a"
    and allowed :: "'c \<Rightarrow> bool"
    and related :: "'s \<Rightarrow> 'a \<Rightarrow> bool"
  assumes run_Nil: "run [] s = (Inr (), s)"
    and run_Cons: "run (c # cs) = bindS (step c) (\<lambda>_. run cs)"
    and step_related: "related s a \<Longrightarrow> allowed c \<Longrightarrow> step c s = (Inr (), s') \<Longrightarrow> related s' (spec_step c a)"
begin

lemma run_related:
  "related s a \<Longrightarrow> list_all allowed cs \<Longrightarrow> run cs s = (Inr (), s') \<Longrightarrow> related s' (fold spec_step cs a)"
proof (induction cs arbitrary: s a)
  case Nil
  then show ?case by (simp add: run_Nil)
next
  case (Cons c cs)
  then obtain s1 where "step c s = (Inr (), s1)" "run cs s1 = (Inr (), s')" by (auto simp: run_Cons bindS_eq_Inr)
  with Cons step_related [of s a c s1] show ?case by simp
qed

end

text \<open>The journal object and the file system together stand for a log.\<close>

definition journal_state :: "world \<Rightarrow> effect_journal \<Rightarrow> string list \<Rightarrow> effect_journal \<times> world \<Rightarrow> effect_log \<Rightarrow> bool" where
  "journal_state w0 j0 d = (\<lambda>(j, w) l. (\<exists>texts. logged w d j l texts) \<and> same_system w0 w \<and> ej_spec j = ej_spec j0 \<and>
     ej_source_digest j = ej_source_digest j0)"

interpretation effect_runs: log_simulation run_op run_ops log_step recordable "journal_state w0 j0 d" for w0 j0 d
proof
  fix s s' :: "effect_journal \<times> world" and l operation
  assume "journal_state w0 j0 d s l" and ok: "recordable operation" and run: "run_op operation s = (Inr (), s')"
  moreover obtain j w j' w' where s: "s = (j, w)" "s' = (j', w')" by (metis surj_pair)
  ultimately obtain texts where log: "logged w d j l texts" and same: "same_system w0 w" "ej_spec j = ej_spec j0" "ej_source_digest j = ej_source_digest j0"
    by (auto simp: journal_state_def)
  have "effect_home j d" using log by (simp add: logged_def)
  from run_op_Inr [OF this run [unfolded s]] have "same_system w w'" "ej_spec j' = ej_spec j" "ej_source_digest j' = ej_source_digest j"
    by (auto simp: accepted_record_def)
  with logged_step [OF log run [unfolded s] ok] same show "journal_state w0 j0 d s' (log_step operation l)"
    by (auto simp: s journal_state_def intro: same_system_trans)
qed (simp_all add: returnS_def)

section \<open>Inspecting the directory\<close>

lemma consume_all_texts:
  assumes "consume_texts w k ts r = Inr r'" "reader_ok r" "\<not> er_failed r" "\<not> er_finished r"
    and "\<And>i. i < length ts \<Longrightarrow> read_stable_text w (Path True (d @ [effect_filename (of_nat (k + i))])) maximum_record_bytes = Inr (ts ! i)"
  shows "consume_all w (map (\<lambda>k. Path True (d @ [effect_filename (of_nat k)])) [k..<k + length ts]) r = (Inr (), r')"
  using assms
proof (induction ts arbitrary: k r)
  case Nil
  then show ?case by (simp add: returnS_def)
next
  case (Cons t ts)
  then obtain r1 where step: "consume_record w r (effect_filename (of_nat k)) t = Inr r1" "consume_texts w (Suc k) ts r1 = Inr r'"
    by (auto simp: bindE_eq_Inr)
  note one = reader_ok_step [OF Cons.prems(2) step(1)]
  have "consume_all w (map (\<lambda>k. Path True (d @ [effect_filename (of_nat k)])) [Suc k..<Suc k + length ts]) r1 = (Inr (), r')"
    using one(1,2) Cons.prems(3,4) Cons.prems(5) [of "Suc i" for i] by (intro Cons.IH [OF step(2)]) (auto simp: same_reader_def)
  moreover have "read_stable_text w (Path True (d @ [effect_filename (of_nat k)])) maximum_record_bytes = Inr t"
    using Cons.prems(5) [of 0] by simp
  moreover have "consume w (effect_filename (of_nat k)) t r = (Inr (), r1)" using Cons.prems(3,4) step(1) by (simp add: consume_Inr)
  ultimately show ?case
    by (simp add: upt_rec [of k] filename_def bindS_run [where m = "consume w (effect_filename (of_nat k)) t" and w = r] del: upt_Suc)
qed

lemma sorted_effect_filenames: "n < 2 ^ 64 \<Longrightarrow> sorted (map (\<lambda>i. effect_filename (of_nat i)) [0..<n])"
proof (induction n)
  case (Suc n)
  have "effect_filename (of_nat i) < effect_filename (of_nat n)" if "i < n" for i
    using that Suc.prems by (simp add: effect_filename_less word_less_nat_alt unat_of_nat take_bit_nat_eq_self)
  then have "effect_filename (of_nat i) \<le> effect_filename (of_nat n)" if "i < n" for i
    using that by (simp add: order_less_imp_le)
  with Suc show ?case by (auto simp: sorted_append)
qed simp

lemma effect_records_files:
  assumes "safe_dir w d" "\<forall>name \<in> set names. plain_name name \<and> (\<exists>ino content links mtime. entry_at w (d @ [name]) = Some (File ino content links mtime))"
    and "length rs + length names \<le> unat maximum_records"
  shows "effect_records w (Path True d) rs names = Inr (rs @ map (\<lambda>name. Path True (d @ [name])) names)"
  using assms(2,3)
proof (induction names arbitrary: rs)
  case (Cons name names)
  have "list_all plain_name d" using assms(1) by (simp add: safe_dir_def)
  then have "path_append (Path True d) (element_path name) = Path True (d @ [name])" using Cons.prems(1) by (simp add: append_element)
  moreover have "lstat w (Path True (d @ [name])) = entry_at w (d @ [name])" using Cons.prems(1) by (intro lstat_child [OF assms(1)]) simp
  ultimately show ?case using Cons by (auto simp: Let_def)
qed simp

lemma effect_files_listed:
  assumes "effect_files w d texts" "fair_order w"
  shows "iterate_directory w (Path True d) = Inr (list_directory w d)" "length (list_directory w d) = length texts"
    "effect_records w (Path True d) [] (list_directory w d) = Inr (map (\<lambda>name. Path True (d @ [name])) (list_directory w d))"
    "sort (list_directory w d) = map (\<lambda>k. effect_filename (of_nat k)) [0..<length texts]"
proof -
  have safe: "safe_dir w d" and n: "length texts \<le> 200002" using assms(1) by (simp_all add: effect_files_def)
  show "iterate_directory w (Path True d) = Inr (list_directory w d)"
    using resolve_safe [OF safe, of "[]" True] safe_dir_entry [OF safe] by (simp add: iterate_directory_def)
  have names: "mset (list_directory w d) = mset (map (\<lambda>k. effect_filename (of_nat k)) [0..<length texts])"
    using assms by (simp add: effect_files_def list_directory_def fair_order_def)
  from arg_cong [OF this, of size] show count: "length (list_directory w d) = length texts" by simp
  have "set (list_directory w d) = (\<lambda>k. effect_filename (of_nat k)) ` {0..<length texts}"
    using arg_cong [OF names, of set_mset] by simp
  moreover have "plain_name (effect_filename k)" for k using effect_file_name by (simp add: file_name_def)
  ultimately have "\<forall>name \<in> set (list_directory w d). plain_name name \<and>
      (\<exists>ino content links mtime. entry_at w (d @ [name]) = Some (File ino content links mtime))"
    using assms(1) unfolding effect_files_def by fastforce
  from effect_records_files [OF safe this, of "[]"] count n
  show "effect_records w (Path True d) [] (list_directory w d) = Inr (map (\<lambda>name. Path True (d @ [name])) (list_directory w d))"
    by (simp add: maximum_records_nat)
  show "sort (list_directory w d) = map (\<lambda>k. effect_filename (of_nat k)) [0..<length texts]"
    using properties_for_sort [OF names [symmetric] sorted_effect_filenames] n by simp
qed

text \<open>The log that an inspection reports, when it keeps the completed effects.\<close>

definition log_of :: "effect_inspection \<Rightarrow> effect_log" where
  "log_of i = \<lparr>el_completed = ei_completed i,
     el_pending = (if ei_pending_kind i = [] then None else Some (ei_pending_sequence i, ei_pending_kind i, ei_pending_details i)),
     el_sealed = ei_sealed i\<rparr>"

definition inspection_matches :: "effect_journal \<Rightarrow> effect_inspection \<Rightarrow> bool" where
  "inspection_matches j i \<longleftrightarrow> ei_source_digest i = ej_source_digest j \<and> ei_journal_digest i = ej_last_digest j \<and>
     ei_next_sequence i = ej_sequence j \<and> ei_serialized_bytes i = ej_bytes j \<and> ei_directory_identity i = ej_directory_identity j \<and>
     ei_sealed i = ej_sealed j \<and> ei_pending_kind i = ej_pending_kind j \<and>
     (ej_pending_kind j \<noteq> [] \<longrightarrow> ei_pending_sequence i = ej_pending_sequence j)"

definition openable :: "world \<Rightarrow> string list \<Rightarrow> bool" where
  "openable w d \<longleftrightarrow> fair_order w \<and> (\<forall>c. \<not> w_refuses w Sys_open (d @ [c]))"

lemma finish_tracked:
  assumes "tracks j l r" "er_record_count r = ej_sequence j"
  shows "\<exists>i. fst (finish r) = Inr i \<and> inspection_matches j i \<and> (er_retain_completed r \<longrightarrow> log_of i = l)"
proof -
  have "fst (finish r) = Inr ((er_result r)\<lparr>ei_pending_sequence := er_pending_sequence r, ei_serialized_bytes := er_bytes r,
      ei_directory_identity := er_directory_identity r\<rparr>)"
    using assms by (simp add: finish_def tracks_def)
  moreover have "inspection_matches j ((er_result r)\<lparr>ei_pending_sequence := er_pending_sequence r, ei_serialized_bytes := er_bytes r,
      ei_directory_identity := er_directory_identity r\<rparr>)"
    using assms(1) by (auto simp: inspection_matches_def tracks_def split: option.splits)
  moreover have "er_retain_completed r \<longrightarrow> log_of ((er_result r)\<lparr>ei_pending_sequence := er_pending_sequence r, ei_serialized_bytes := er_bytes r,
      ei_directory_identity := er_directory_identity r\<rparr>) = l"
    using assms(1) by (cases l) (auto simp: log_of_def tracks_def split: option.splits)
  ultimately show ?thesis by blast
qed

lemma logged_inspect:
  assumes "logged w d j l texts" "effect_directory w (ej_spec j) = Inr (Path True d)" "openable w d"
  shows "\<exists>i. inspect_effects w (ej_spec j) (ej_source_digest j) retain = Inr i \<and> inspection_matches j i \<and> (retain \<longrightarrow> log_of i = l)"
proof -
  have l: "journal_bound_names j" "ej_sequence j \<noteq> 0" "unat (ej_sequence j) = length texts" "effect_files w d texts"
    "observe_directory_identity w (Path True d) = Inr (ej_directory_identity j)" "reads_back w j l texts"
    using assms(1) by (simp_all add: logged_def)
  have safe: "safe_dir w d" and n: "length texts \<le> 200002" using l(4) by (simp_all add: effect_files_def)
  obtain r r' where r: "new_reader (ej_spec j) (ej_directory_identity j) (ej_source_digest j) (length texts) retain = Inr r"
    "consume_texts w 0 texts r = Inr r'" "tracks j l r'" "er_record_count r' = of_nat (length texts)" "er_retain_completed r' = retain"
    using l(6) n unfolding reads_back_def by blast
  note listed = effect_files_listed [OF l(4)] and new = new_reader_ok [OF r(1)]
  have fair: "fair_order w" using assms(3) by (simp add: openable_def)
  have "\<not> er_failed r" "\<not> er_finished r" using r(1) by (auto simp: new_reader_def throwE_def split: if_splits)
  moreover have "read_stable_text w (Path True (d @ [effect_filename (of_nat (0 + i))])) maximum_record_bytes = Inr (texts ! i)"
    if index: "i < length texts" for i
  proof -
    obtain ino mtime where "entry_at w (d @ [effect_filename (of_nat i)]) = Some (File ino (texts ! i) 1 mtime)"
      "length (texts ! i) \<le> maximum_record_bytes" using l(4) index unfolding effect_files_def by blast
    with read_stable_text_child [OF safe _ this(1) _ this(2)] effect_file_name [of "of_nat i"] assms(3)
    show ?thesis by (simp add: file_name_def openable_def maximum_record_bytes_def)
  qed
  ultimately have "consume_all w (map (\<lambda>k. Path True (d @ [effect_filename (of_nat k)])) [0..<0 + length texts]) r = (Inr (), r')"
    by (intro consume_all_texts [OF r(2) new(1)])
  then have run: "consume_all w (sort_key elements (map (\<lambda>name. Path True (d @ [name])) (list_directory w d))) r = (Inr (), r')"
    using listed(4) [OF fair] by (simp add: sort_child_paths o_def)
  have "er_record_count r' = ej_sequence j" using r(4) l(3) by (metis word_unat_eq)
  from finish_tracked [OF r(3) this] r(5) obtain i where "fst (finish r') = Inr i" "inspection_matches j i" "retain \<longrightarrow> log_of i = l"
    by blast
  moreover have "texts \<noteq> []" "list_directory w d \<noteq> []" using l(2,3) listed(2) [OF fair] by (auto simp: unsigned_eq_0_iff)
  ultimately show ?thesis
    using l(1,5) assms(2) listed(1,2,3) [OF fair] r(1) run by (simp add: inspect_effects_def journal_bound_names_def)
qed

text \<open>A journal reopened after any operations but the last seal continues where the writer stood.\<close>

lemma logged_resume:
  assumes "logged w d j l texts" "effect_directory w (ej_spec j) = Inr (Path True d)" "openable w d" "\<not> ej_sealed j"
  shows "\<exists>p. resume_effect_journal w (ej_spec j) (ej_source_digest j) (ej_last_digest j) =
    Inr (j\<lparr>ej_pending_sequence := p, ej_payload_attempted := False, ej_payload_outcome := []\<rparr>) \<and>
    (ej_pending_kind j \<noteq> [] \<longrightarrow> p = ej_pending_sequence j)"
proof -
  obtain i where i: "inspect_effects w (ej_spec j) (ej_source_digest j) False = Inr i" "inspection_matches j i"
    using logged_inspect [OF assms(1,2,3), of False] by blast
  have "effect_digest (ej_last_digest j)" "ej_directory j = Path True d" "\<not> ej_failed j"
    using assms(1) by (auto simp: logged_def journal_bound_names_def effect_home_def)
  with i assms(2,4) show ?thesis
    by (intro exI [of _ "ei_pending_sequence i"]) (simp add: resume_effect_journal_def inspection_matches_def fresh_effect_journal_def)
qed

end
