(* ===== verification/Usk_Maintenance_Open.thy ===== *)
theory Usk_Maintenance_Open
  imports Usk_Maintenance_Log
begin

text \<open>
  Opening a maintenance journal: the context record of a new journal, and the property that the
  writer and the inspection together implement the abstract log of effects.
\<close>

section \<open>Canonical texts are UTF-8\<close>

lemma escape_char_ascii: "byte c \<le> 0x7f \<Longrightarrow> list_all (\<lambda>c. byte c \<le> 0x7f) (escape_char c)"
  by (cases c rule: escape_char_cases) (auto simp: byte_hex_char simple_escape_def split: if_splits)

lemma escape_char_high: "byte c \<ge> 0x80 \<Longrightarrow> escape_char c = [c]"
  by (cases c rule: escape_char_cases) (auto simp: simple_escape_def split: if_splits)

lemma append_utf8_high: "\<not> cp \<le> 0x7f \<Longrightarrow> unicode_scalar cp \<Longrightarrow> list_all (\<lambda>c. byte c \<ge> 0x80) (append_utf8 cp)"
proof -
  assume "\<not> cp \<le> 0x7f" "unicode_scalar cp"
  then consider "0x80 \<le> cp" "cp \<le> 0x7ff" | "0x800 \<le> cp" "cp \<le> 0xffff" | "0x10000 \<le> cp" "cp \<le> 0x10ffff"
    by (fastforce simp: unicode_scalar_def)
  then show ?thesis by cases (simp_all add: append_utf8_eq)
qed

lemma escape_body_concat: "escape_body (a @ b) = escape_body a @ escape_body b"
  by (induction a) simp_all

lemma valid_utf8_escape:
  assumes "valid_utf8 s"
  shows "valid_utf8 (escape_body s)"
proof -
  obtain cps where cps: "list_all unicode_scalar cps" "s = concat (map append_utf8 cps)"
    using valid_utf8_decodes [OF assms] by blast
  have one: "valid_utf8 (escape_body (append_utf8 cp))" if "unicode_scalar cp" for cp
  proof (cases "cp \<le> 0x7f")
    case True
    then have "append_utf8 cp = [char_of cp]" "byte (char_of cp) \<le> 0x7f" by (simp_all add: append_utf8_eq)
    then show ?thesis using escape_char_ascii [of "char_of cp"] by (simp add: valid_utf8_ascii)
  next
    case False
    have high: "list_all (\<lambda>c. byte c \<ge> 0x80) s \<Longrightarrow> escape_body s = s" for s
      by (induction s) (simp_all add: escape_char_high)
    from append_utf8_high [OF False that] have "escape_body (append_utf8 cp) = append_utf8 cp" by (rule high)
    then show ?thesis using valid_utf8_encoded [of "[cp]"] that by simp
  qed
  show ?thesis unfolding cps(2) using cps(1)
  proof (induction cps)
    case (Cons cp cps)
    then show ?case using one [of cp] by (simp add: escape_body_concat valid_utf8_append)
  qed simp
qed

lemma valid_utf8_Cons_ascii: "byte c \<le> 0x7f \<Longrightarrow> valid_utf8 s \<Longrightarrow> valid_utf8 (c # s)"
  using valid_utf8_append [of "[c]" s] by (simp add: valid_utf8_ascii)

lemma valid_utf8_commas: "list_all valid_utf8 ts \<Longrightarrow> valid_utf8 (commas ts)"
  by (induction ts rule: commas.induct) (auto intro!: valid_utf8_append valid_utf8_Cons_ascii)

lemma valid_utf8_canonical: "shape_ok L d v \<Longrightarrow> valid_utf8 (canonical v)"
proof (induction v arbitrary: d rule: wf_json_induct)
  case (JUnsigned n)
  then show ?case by (simp add: canonical_simps valid_utf8_ascii dec_ascii)
next
  case (JString s)
  then show ?case
    by (auto simp: canonical_simps string_ok_def valid_utf8_ascii intro!: valid_utf8_Cons_ascii valid_utf8_append valid_utf8_escape)
next
  case (JArray vs)
  then have "list_all valid_utf8 (map canonical vs)" by (fastforce simp: list_all_iff)
  then show ?case
    by (auto simp: canonical_simps valid_utf8_ascii intro!: valid_utf8_Cons_ascii valid_utf8_append valid_utf8_commas)
next
  case (JObject m)
  have "valid_utf8 (member_canonical p)" if "p \<in> set m" for p
    using JObject.IH [of "fst p" "snd p" "Suc d"] JObject.prems that
    by (auto simp: member_canonical_def list_all_iff string_ok_def valid_utf8_ascii
        intro!: valid_utf8_Cons_ascii valid_utf8_append valid_utf8_escape)
  then have "list_all valid_utf8 (map member_canonical m)" by (simp add: list_all_iff)
  then show ?case
    by (auto simp: canonical_simps valid_utf8_ascii intro!: valid_utf8_Cons_ascii valid_utf8_append valid_utf8_commas)
qed (auto simp: canonical_simps valid_utf8_ascii)

section \<open>The directory of a new journal\<close>

lemma create_exclusive_Inr:
  assumes "list_all plain_name d" "plain_name c" "create_directory_exclusive (Path True d) c w = (Inr (), w')"
  shows "safe_dir w d" "entry_at w (d @ [c]) = None"
    "w' = put_entry (d @ [c]) (Dir (w_next_ino w)) (w\<lparr>w_next_ino := w_next_ino w + 1\<rparr>)"
proof -
  show safe: "safe_dir w d"
    using assms(3) require_safe_plain [OF assms(1)] by (auto simp: create_directory_exclusive_def split: sum.splits)
  have "valid_identifier c" using assms(3) by (auto simp: create_directory_exclusive_def throwE_def split: sum.splits if_splits)
  then have path: "path_append (Path True d) (path_of c) = Path True (d @ [c])"
    using append_name [OF assms(1), of "[]"] by (simp add: path_of_identifier)
  have "entry_at w (d @ [c]) = None \<and> w' = put_entry (d @ [c]) (Dir (w_next_ino w)) (w\<lparr>w_next_ino := w_next_ino w + 1\<rparr>)"
    using assms(3) resolve_child [OF safe assms(2)] sync_directory_world
    by (auto simp: create_directory_exclusive_def path Let_def make_directory_def bindS_eq_Inr throwE_def bindS_def
        split: sum.splits if_splits prod.splits) (metis snd_conv)+
  then show "entry_at w (d @ [c]) = None"
    "w' = put_entry (d @ [c]) (Dir (w_next_ino w)) (w\<lparr>w_next_ino := w_next_ino w + 1\<rparr>)" by blast+
qed

lemma maintenance_file_name:
  assumes "valid_identifier tid"
  shows "file_name (tid @ ''.maintenance'')"
proof -
  have "slash \<notin> set tid" using assms by (auto simp: valid_identifier_def list_all_iff isalnum_def isdigit_def)
  then show ?thesis by (auto simp: file_name_def plain_name_def append_eq_Cons_conv)
qed

lemma effect_directory_cwd: "w_cwd w' = w_cwd w \<Longrightarrow> effect_directory w' = effect_directory w"
  by (intro ext) (simp add: effect_directory_def)

lemma effect_directory_names:
  assumes "effect_directory w spec = Inr p" "valid_identifier (ts_transaction_id spec)"
  obtains d where "p = Path True (d @ [ts_transaction_id spec @ ''.maintenance''])" "list_all plain_name d"
proof -
  have p: "p = path_append (path_append (lexically_normal (absolute (w_cwd w) (ts_state_root spec))) (path_of ''transactions''))
       (path_of (ts_transaction_id spec @ ''.maintenance''))"
    using assms(1) by (simp add: effect_directory_def split: if_splits)
  have "is_absolute (absolute (w_cwd w) (ts_state_root spec))" by (auto simp: absolute_def path_append_def)
  then obtain t where t: "lexically_normal (absolute (w_cwd w) (ts_state_root spec)) =
      Path True (normal_names (absolute (w_cwd w) (ts_state_root spec)) @ t)" "t = [] \<or> t = [[]]"
    "list_all plain_name (normal_names (absolute (w_cwd w) (ts_state_root spec)))" by (rule lexically_normal_absolute)
  let ?d = "normal_names (absolute (w_cwd w) (ts_state_root spec)) @ [''transactions'']"
  have plain: "list_all plain_name ?d" using t(3) by (simp add: plain_name_def)
  have "path_of ''transactions'' = Path False [''transactions'']" by code_simp
  then have "p = Path True (?d @ [ts_transaction_id spec @ ''.maintenance''])"
    using p t append_file_name [OF plain maintenance_file_name [OF assms(2)]] append_name [OF t(3,2)] by simp
  with plain show thesis by (intro that [of ?d])
qed

section \<open>The context record\<close>

lemma context_binding_identifier: "context_binding spec v = Inr () \<Longrightarrow> valid_identifier (ts_transaction_id spec)"
  unfolding context_binding_def accepted_simps requireE_eq_Inr by (elim exE conjE)

lemma validate_context_Inr:
  assumes "validate_context w spec source_context = Inr ()"
  obtains v where "valid_identifier (ts_transaction_id spec)" "length source_context \<le> 16384"
    "parse source_context context_limits = Inr v" "canonical v = source_context"
  using assms unfolding validate_context_def accepted_simps requireE_eq_Inr
  by (elim exE conjE) (rule that, auto dest: context_binding_identifier)

lemma validated_context_ok:
  assumes "validate_context w spec source_context = Inr ()"
  shows "string_ok record_limits source_context"
proof -
  obtain v where "parse source_context context_limits = Inr v" "canonical v = source_context" "length source_context \<le> 16384"
    using assms by (rule validate_context_Inr)
  then show ?thesis
    using parse_sound [of source_context context_limits v] valid_utf8_canonical [of context_limits 0 v]
    by (auto simp: string_ok_def record_limits_def)
qed

definition context_details :: "string \<Rightarrow> string \<Rightarrow> jvalue" where
  "context_details source_context identity = object [(''source_context'', JString source_context), (''directory_identity'', JString identity)]"

lemma context_details_fit:
  assumes "string_ok record_limits source_context" "string_ok record_limits identity"
  shows "details_fit (context_details source_context identity)"
proof -
  have keys: "distinct (map fst [(''source_context'', JString source_context), (''directory_identity'', JString identity)])" by simp
  show ?thesis using assms
    by (simp add: context_details_def details_fit_def object_wf [OF keys] object_shape [OF keys] object_count [OF keys] ascii_ok)
qed

lemma consume_own_context:
  assumes "validate_context w spec source_context = Inr ()" "parse source_context default_limits = Inr context"
    and "er_spec r = spec" "er_directory_identity r = identity" "er_expected_source_digest r = sha256_canonical context"
  shows "consume_context w r ''context'' (context_details source_context identity) =
    Inr (r\<lparr>er_result := (er_result r)\<lparr>ei_source_context := source_context, ei_source_digest := sha256_canonical context\<rparr>\<rparr>)"
proof -
  have keys: "distinct (map fst [(''source_context'', JString source_context), (''directory_identity'', JString identity)])" by simp
  show ?thesis using assms
    by (simp add: consume_context_def context_details_def effect_exact_keys_def object_names string_at_def object_jat [OF keys] insert_commute)
qed

lemma context_record_reads_back:
  assumes ctx: "validate_context w spec source_context = Inr ()" "parse source_context default_limits = Inr context"
    and j: "j = fresh_effect_journal spec p identity (sha256_canonical context)"
    and fits: "record_fits j ''context'' (context_details source_context identity)"
    and bytes: "ej_bytes j \<le> maximum_journal_bytes - of_nat (length (record_text j ''context'' (context_details source_context identity)))"
    and cwd: "w_cwd w' = w_cwd w"
  shows "reads_back w' (persisted ''context'' (context_details source_context identity) j) empty_log
    [record_text j ''context'' (context_details source_context identity)]"
  unfolding reads_back_def
proof (intro allI impI)
  fix n retain
  let ?details = "context_details source_context identity"
  let ?text = "record_text j ''context'' ?details"
  assume n: "length [?text] \<le> n" "n \<le> 200002"
  have id: "valid_identifier (ts_transaction_id spec)" using ctx(1) by (rule validate_context_Inr)
  define r where "r = \<lparr>er_spec = spec, er_directory_identity = identity, er_expected_source_digest = sha256_canonical context,
       er_record_count = of_nat n, er_retain_completed = retain, er_result = new_inspection,
       er_pending_sequence = 0, er_bytes = 0, er_failed = False, er_finished = False\<rparr>"
  have r: "new_reader spec identity (sha256_canonical context) n retain = Inr r"
    using id n by (simp add: new_reader_def r_def maximum_records_nat)
  have "reader_at j r" by (simp add: reader_at_def r_def j fresh_effect_journal_def new_inspection_def)
  moreover have "journal_bound_names j" using id by (simp add: j journal_bound_names_def fresh_effect_journal_def short_ascii_def)
  moreover have "\<not> ej_sealed j" by (simp add: j fresh_effect_journal_def)
  moreover have "ej_sequence j < er_record_count r"
    using n by (simp add: j r_def fresh_effect_journal_def word_less_nat_alt unat_of_nat take_bit_nat_eq_self)
  moreover have "consume_context w r ''context'' ?details =
      Inr (r\<lparr>er_result := (er_result r)\<lparr>ei_source_context := source_context, ei_source_digest := sha256_canonical context\<rparr>\<rparr>)"
    by (rule consume_own_context [OF ctx]) (simp_all add: r_def)
  moreover have "ej_sequence j = 0" by (simp add: j fresh_effect_journal_def)
  ultimately obtain r' where r': "consume_record w r (effect_filename 0) ?text = Inr r'"
    "r' = r\<lparr>er_bytes := ej_bytes j + of_nat (length ?text), er_result := (er_result r)\<lparr>ei_source_context := source_context,
        ei_source_digest := sha256_canonical context, ei_journal_digest := sha256_canonical (object (effect_record j ''context'' ?details)),
        ei_next_sequence := 1\<rparr>\<rparr>"
    using consume_own_record [of j r "''context''" ?details w] fits bytes by simp
  have "tracks (persisted ''context'' ?details j) empty_log r'"
    by (simp add: r'(2) r_def tracks_def persisted_def j fresh_effect_journal_def new_inspection_def empty_log_def)
  moreover have "consume_texts w' 0 [?text] r = Inr r'" using r'(1) by (simp add: consume_record_cwd [OF cwd])
  moreover have "er_record_count r' = of_nat n" "er_retain_completed r' = retain" by (simp_all add: r'(2) r_def)
  moreover have "new_reader (ej_spec (persisted ''context'' ?details j)) (ej_directory_identity (persisted ''context'' ?details j))
      (ej_source_digest (persisted ''context'' ?details j)) n retain = Inr r"
    using r by (simp add: persisted_def j fresh_effect_journal_def)
  ultimately show "\<exists>r r'. new_reader (ej_spec (persisted ''context'' ?details j)) (ej_directory_identity (persisted ''context'' ?details j))
      (ej_source_digest (persisted ''context'' ?details j)) n retain = Inr r \<and> consume_texts w' 0 [?text] r = Inr r' \<and>
      tracks (persisted ''context'' ?details j) empty_log r' \<and> er_record_count r' = of_nat n \<and> er_retain_completed r' = retain" by blast
qed

text \<open>A file system in which only directories that exist have entries.\<close>

definition no_orphans :: "world \<Rightarrow> bool" where
  "no_orphans w \<longleftrightarrow> (\<forall>p. entry_at w p = None \<longrightarrow> children w p = [])"

lemma children_put_self: "children (put_entry p e w) p = children w p"
proof -
  have parent: "\<not> (p \<noteq> [] \<and> butlast p = p)" by (cases p rule: rev_cases) simp_all
  have "filter (\<lambda>q. q \<noteq> [] \<and> butlast q = p) (map fst (filter (\<lambda>(q, _). q \<noteq> p) xs)) = filter (\<lambda>q. q \<noteq> [] \<and> butlast q = p) (map fst xs)"
    for xs :: "(string list \<times> entry) list"
    using parent by (induction xs) auto
  with parent show ?thesis by (simp add: children_def put_entry_def)
qed

lemma identity_ok: "observe_directory_identity w (Path True d) = Inr identity \<Longrightarrow> list_all plain_name d \<Longrightarrow> string_ok record_limits identity"
proof -
  assume "observe_directory_identity w (Path True d) = Inr identity" "list_all plain_name d"
  then obtain ino where "identity = tx_hex_id (w_dev w) @ '':'' @ tx_hex_id ino"
    by (auto simp: observe_plain directory_identity_plain)
  moreover have "list_all (\<lambda>c. byte c \<le> 0x7f) (tx_hex_id n)" "length (tx_hex_id n) = 16" for n
    using hex_pad_lower_hex [of 16 "unat n"] lower_hex_ascii length_hex_pad [of 16] by (auto simp: tx_hex_id_def list_all_iff)
  ultimately show ?thesis by (intro ascii_ok) (simp_all)
qed

lemma new_journal_steps:
  assumes "new_effect_journal None spec source_context w = (Inr j, w')"
  obtains d c document identity w1 where "validate_context w spec source_context = Inr ()" "parse source_context default_limits = Inr document"
    "effect_directory w spec = Inr (Path True (d @ [c]))" "list_all plain_name d" "file_name c"
    "create_directory_exclusive (Path True d) c w = (Inr (), w1)" "observe_directory_identity w1 (Path True (d @ [c])) = Inr identity"
    "persist_effect None ''context'' (context_details source_context identity)
      (fresh_effect_journal spec (Path True (d @ [c])) identity (sha256_canonical document), w1) = (Inr (), (j, w'))"
proof -
  from assms obtain document p identity w1 where n: "validate_context w spec source_context = Inr ()"
    "parse source_context default_limits = Inr document" "effect_directory w spec = Inr p"
    "create_directory_exclusive (parent_path p) (filename p) w = (Inr (), w1)" "observe_directory_identity w1 p = Inr identity"
    "constructed (persist_effect None ''context'' (context_details source_context identity))
      (fresh_effect_journal spec p identity (sha256_canonical document)) w1 = (Inr j, w')"
    by (auto simp: new_effect_journal_def context_details_def bindS_eq_Inr simp del: bindS_liftS)
  have id: "valid_identifier (ts_transaction_id spec)" using n(1) by (rule validate_context_Inr)
  obtain d where d: "p = Path True (d @ [ts_transaction_id spec @ ''.maintenance''])" "list_all plain_name d"
    using n(3) id by (rule effect_directory_names)
  have "persist_effect None ''context'' (context_details source_context identity)
      (fresh_effect_journal spec p identity (sha256_canonical document), w1) = (Inr (), (j, w'))"
    using n(6) by (auto simp: constructed_def split: prod.splits sum.splits)
  with n d maintenance_file_name [OF id] show thesis by (intro that [of document d _ w1 identity]) (simp_all add: filename_def)
qed

lemma new_journal_logged:
  assumes "new_effect_journal None spec source_context w = (Inr j, w')" "no_orphans w"
  shows "\<exists>d texts. effect_directory w' spec = Inr (Path True d) \<and> ej_spec j = spec \<and> logged w' d j empty_log texts \<and>
    same_system w w'"
proof -
  obtain d c document identity w1 where n: "validate_context w spec source_context = Inr ()" "parse source_context default_limits = Inr document"
    "effect_directory w spec = Inr (Path True (d @ [c]))" "list_all plain_name d" "file_name c"
    "create_directory_exclusive (Path True d) c w = (Inr (), w1)" "observe_directory_identity w1 (Path True (d @ [c])) = Inr identity"
    "persist_effect None ''context'' (context_details source_context identity)
      (fresh_effect_journal spec (Path True (d @ [c])) identity (sha256_canonical document), w1) = (Inr (), (j, w'))"
    using assms(1) by (rule new_journal_steps)
  let ?d = "d @ [c]" and ?details = "context_details source_context identity"
  define j0 where "j0 = fresh_effect_journal spec (Path True ?d) identity (sha256_canonical document)"
  have plain: "list_all plain_name ?d" using n(4,5) by (simp add: file_name_def)
  have home: "effect_home j0 ?d" using plain by (simp add: effect_home_def j0_def fresh_effect_journal_def)
  have "plain_name c" using n(5) by (simp add: file_name_def)
  note made = create_exclusive_Inr [OF n(4) this n(6)]
  obtain w2 where w2: "(j, w') = (persisted ''context'' ?details j0, w2)" "accepted_record j0 ?d ''context'' ?details w1 w2"
    using persist_effect_accepted [OF home n(8) [folded j0_def]] by blast
  have j0: "ej_sequence j0 = 0" "ej_bytes j0 = 0" "ej_spec j0 = spec" "ej_directory_identity j0 = identity" "\<not> ej_failed j0"
    "ej_directory j0 = Path True ?d" by (simp_all add: j0_def fresh_effect_journal_def)
  have names: "journal_bound_names j0"
    using n(1) by (auto simp: j0_def journal_bound_names_def fresh_effect_journal_def short_ascii_def elim: validate_context_Inr)
  have fits: "record_fits j0 ''context'' ?details"
    using record_fits_iff [OF names, of "''context''"] context_details_fit [OF validated_context_ok [OF n(1)] identity_ok [OF n(7) plain]] w2(2)
    by (simp add: accepted_record_def)
  have "same_system w w'" using w2 made(3) unfolding accepted_record_def by auto
  then have cwd: "w_cwd w' = w_cwd w" "same_system w w'" by (simp_all add: same_system_def)
  have again: "reads_back w' j empty_log [record_text j0 ''context'' ?details]"
    using context_record_reads_back [OF n(1,2) j0_def fits _ cwd(1)] w2 by (auto simp: accepted_record_def)
  have "children w1 ?d = []" using made(2,3) assms(2) by (simp add: children_put_self no_orphans_def) (simp add: children_def)
  then have "effect_files w1 ?d []" using w2(2) by (simp add: effect_files_def accepted_record_def)
  from effect_files_append [OF this, of "record_text j0 ''context'' ?details"] have files: "effect_files w' ?d [record_text j0 ''context'' ?details]"
    using w2 j0(1) by (simp add: accepted_record_def)
  have "observe_directory_identity w' (Path True ?d) = Inr identity" using w2 j0(4) unfolding accepted_record_def by blast
  moreover have "j = persisted ''context'' ?details j0" using w2(1) by simp
  moreover have "journal_bound_names (persisted ''context'' ?details j0)"
    using names j0(1) by (simp add: journal_bound_names_def persisted_def)
  ultimately have "logged w' ?d j empty_log [record_text j0 ''context'' ?details]"
    using home j0 files again by (simp add: logged_def persisted_def effect_home_def log_counts_def empty_log_def)
  moreover have "effect_directory w' spec = Inr (Path True ?d)" using n(3) effect_directory_cwd [OF cwd(1)] by simp
  moreover have "ej_spec j = spec" using w2(1) j0(3) by (simp add: persisted_def)
  ultimately show ?thesis using cwd(2) by blast
qed

section \<open>The journal implements its log\<close>


end
