(* ===== verification/Usk_Maintenance_Samples.thy ===== *)
theory Usk_Maintenance_Samples
  imports Usk_Maintenance_Open
begin

text \<open>
  On a file system that refuses nothing, every allowed operation of the maintenance journal whose
  record is small enough returns; and a concrete journal with an effect begun, completed and sealed.
\<close>

section \<open>Operations that complete\<close>

lemma calm_new_file [simp]: "calm (new_file p content w) = calm w"
  by (simp add: calm_def new_file_def put_entry_def)

lemma write_new_calm:
  assumes "safe_dir w d" "plain_name c" "entry_at w (d @ [c]) = None" "calm w" "length content \<le> maximum_record_bytes"
  shows "write_new_durable_text (Path True (d @ [c])) content w = (Inr (), new_file (d @ [c]) content w)"
proof -
  have calm: "\<not> w_refuses w a q" "w_writes w q = [Wrote journal_bound]" for a q using assms(4) by (simp_all add: calm_def)
  have "write_loop [Wrote journal_bound] content [] = (content, True)"
    using assms(5) by (intro write_loop_calm) (simp_all add: journal_bound_def maximum_record_bytes_def)
  moreover have safe: "safe_dir (new_file (d @ [c]) content w) d" using assms(1,3) by (rule safe_dir_new_file) simp
  have "sync_directory (Path True d) (new_file (d @ [c]) content w) = (Inr (), new_file (d @ [c]) content w)"
    using resolve_safe [OF safe, of "[]" True] safe_dir_entry [OF assms(1)] calm by (simp add: sync_directory_def)
  ultimately show ?thesis using assms(3) calm by (simp add: write_new_safe [OF assms(1,2)])
qed

lemma identity_new_file:
  assumes "list_all plain_name d" "entry_at w (d @ [c]) = None" "observe_directory_identity w (Path True d) = Inr identity"
  shows "observe_directory_identity (new_file (d @ [c]) content w) (Path True d) = Inr identity"
proof -
  from assms(3) obtain ino where "safe_dir w d" "entry_at w d = Some (Dir ino)" "identity = tx_hex_id (w_dev w) @ '':'' @ tx_hex_id ino"
    by (auto simp: observe_plain assms(1) directory_identity_plain)
  with safe_dir_new_file [OF this(1) assms(2), of content] show ?thesis
    by (auto simp: observe_plain assms(1) directory_identity_plain)
qed

lemma persist_effect_completes:
  assumes "effect_home j d" "\<not> ej_failed j" "\<not> ej_sealed j" "ej_sequence j < maximum_records" "calm w"
    and "observe_directory_identity w (Path True d) = Inr (ej_directory_identity j)" "check_predecessor j w = Inr ()"
    and "length (record_text j phase details) \<le> maximum_record_bytes"
    and "ej_bytes j \<le> maximum_journal_bytes - of_nat (length (record_text j phase details))"
    and "entry_at w (d @ [effect_filename (ej_sequence j)]) = None"
  shows "persist_effect None phase details (j, w) =
    (Inr (), (persisted phase details j, new_file (d @ [effect_filename (ej_sequence j)]) (record_text j phase details) w))"
proof -
  let ?c = "effect_filename (ej_sequence j)" and ?text = "record_text j phase details"
  have home: "ej_directory j = Path True d" "list_all plain_name d" using assms(1) by (simp_all add: effect_home_def)
  have safe: "safe_dir w d" using assms(6) home(2) by (simp add: observe_plain directory_identity_plain)
  have "plain_name ?c" using effect_file_name by (simp add: file_name_def)
  note written = write_new_calm [OF safe this assms(10,5,8)]
  have "require_effect_directory msg j w = Inr ()" "require_effect_directory msg j (new_file (d @ [?c]) ?text w) = Inr ()" for msg
    using assms(6) identity_new_file [OF home(2) assms(10,6)] by (simp_all add: require_effect_directory_def home)
  moreover have "\<not> maximum_records \<le> ej_sequence j" using assms(4) by simp
  ultimately show ?thesis
    using assms(2,3,7,8,9) written
    by (simp add: persist_effect_def withS_def catchS_def bindS_def readW_def guardS_def onW_def modS_def inject_def returnS_def
        effect_path home Let_def persisted_def not_less)
qed

lemma decode_first: "decode_record_text content bytes = Inr (v, b) \<Longrightarrow> \<exists>b'. decode_record_text content 0 = Inr (v, b')"
  unfolding decode_record_text_def accepted_simps by auto

lemma logged_predecessor:
  assumes "logged w d j l texts" "calm w"
  shows "check_predecessor j w = Inr ()"
proof -
  have l: "effect_home j d" "ej_sequence j \<noteq> 0" "unat (ej_sequence j) = length texts" "effect_files w d texts" "reads_back w j l texts"
    using assms(1) by (simp_all add: logged_def)
  then have "texts \<noteq> []" by (auto simp: unsigned_eq_0_iff)
  then obtain ts t where texts: "texts = ts @ [t]" by (cases texts rule: rev_cases) auto
  have n: "length texts \<le> 200002" and safe: "safe_dir w d" using l(4) by (simp_all add: effect_files_def)
  obtain r r' where r: "consume_texts w 0 texts r = Inr r'" "tracks j l r'"
    using l(5) n unfolding reads_back_def by blast
  then obtain r1 where "consume_record w r1 (effect_filename (of_nat (length ts))) t = Inr r'"
    by (auto simp: texts consume_texts_append bindE_eq_Inr)
  then obtain v bytes digest r2 where v: "decode_record_text t (er_bytes r1) = Inr (v, bytes)" "string_at v ''digest'' = Inr digest"
    "r' = r2\<lparr>er_bytes := bytes, er_result := (er_result r2)\<lparr>ei_journal_digest := digest,
        ei_next_sequence := ei_next_sequence (er_result r1) + 1\<rparr>\<rparr>"
    by (rule consume_record_step)
  have digest: "digest = ej_last_digest j" using r(2) v(3) by (simp add: tracks_def)
  obtain b where b: "decode_record_text t 0 = Inr (v, b)" using decode_first [OF v(1)] by blast
  have prior: "ej_sequence j - 1 = of_nat (length ts)"
    using l(3) unfolding texts by (metis add_diff_cancel_left' length_append_singleton of_nat_Suc word_unat_eq)
  obtain ino mtime where e: "entry_at w (d @ [effect_filename (of_nat (length ts))]) = Some (File ino t 1 mtime)"
    "length t \<le> maximum_record_bytes"
    using l(4) unfolding effect_files_def texts by (metis length_append_singleton lessI nth_append_length)
  have "\<not> w_refuses w Sys_open p" for p using assms(2) by (simp add: calm_def)
  then have "read_stable_text w (Path True (d @ [effect_filename (of_nat (length ts))])) maximum_record_bytes = Inr t"
    using read_stable_text_child [OF safe _ e(1) _ e(2)] effect_file_name e(2) by (simp add: file_name_def maximum_record_bytes_def)
  then show ?thesis
    using l(1) b v(2) digest by (simp add: check_predecessor_def read_record_def prior effect_home_def effect_path)
qed

lemma logged_next_free:
  assumes "logged w d j l texts"
  shows "entry_at w (d @ [effect_filename (ej_sequence j)]) = None"
proof (rule ccontr)
  have l: "unat (ej_sequence j) = length texts" "length texts \<le> 200002"
    "mset (children w d) = mset (map (\<lambda>k. effect_filename (of_nat k)) [0..<length texts])"
    using assms by (simp_all add: logged_def effect_files_def)
  assume "entry_at w (d @ [effect_filename (ej_sequence j)]) \<noteq> None"
  then have "effect_filename (ej_sequence j) \<in> set (children w d)" by (simp only: children_iff not_False_eq_True)
  then have "effect_filename (ej_sequence j) \<in> (\<lambda>k. effect_filename (of_nat k)) ` {0..<length texts}"
    using arg_cong [OF l(3), of set_mset] by simp
  then obtain k where "k < length texts" "ej_sequence j = of_nat k" by (auto simp: effect_filename_inj)
  with l(1,2) show False by (simp add: unat_of_nat take_bit_nat_eq_self)
qed

lemma check_predecessor_sequence: "check_predecessor (j\<lparr>ej_pending_sequence := n\<rparr>) = check_predecessor j"
  by (intro ext) (simp add: check_predecessor_def)

lemma run_op_completes:
  assumes log: "logged w d j l texts" and calm: "calm w" and "\<not> ej_sealed j" "ej_sequence j < maximum_records" and ok: "op_allowed j operation"
    and size: "length (record_text j (op_phase operation) (op_details j operation)) \<le> maximum_record_bytes"
    and bytes: "ej_bytes j \<le> maximum_journal_bytes - of_nat (length (record_text j (op_phase operation) (op_details j operation)))"
  shows "run_op operation (j, w) = (Inr (), (after_op operation (persisted (op_phase operation) (op_details j operation) j),
    new_file (d @ [effect_filename (ej_sequence j)]) (record_text j (op_phase operation) (op_details j operation)) w))"
proof -
  have l: "effect_home j d" "\<not> ej_failed j" "observe_directory_identity w (Path True d) = Inr (ej_directory_identity j)"
    using log by (simp_all add: logged_def)
  note before = logged_predecessor [OF log calm] logged_next_free [OF log]
  show ?thesis
  proof (cases operation)
    case (Begin_effect kind details)
    let ?j = "j\<lparr>ej_pending_sequence := ej_sequence j\<rparr>"
    have "check_predecessor ?j w = Inr ()" using before(1) by (simp add: check_predecessor_sequence)
    with persist_effect_completes [of ?j d w "''intent''" "op_details j operation"] assms l before
    show ?thesis
      by (simp add: Begin_effect begin_effect_def withS_def bindS_def readW_def modS_def effect_home_def persisted_def)
  next
    case (Complete_effect outcome result_digest)
    with persist_effect_completes [of j d w "''complete''" "op_details j operation"] assms l before
    show ?thesis
      by (simp add: complete_effect_def persist_completion_def withS_def bindS_def readW_def modS_def)
  next
    case Seal_journal
    with persist_effect_completes [of j d w "''sealed''" "op_details j operation"] assms l before
    show ?thesis by (simp add: seal_def withS_def bindS_def modS_def)
  qed
qed

section \<open>Sizes of records\<close>

lemma escape_char_printable: "list_all (\<lambda>c. byte c \<ge> 0x20) (escape_char c)"
  by (cases c rule: escape_char_cases) (auto simp: byte_hex_char simple_escape_def split: if_splits)

lemma escape_body_printable: "list_all (\<lambda>c. byte c \<ge> 0x20) (escape_body s)"
  by (induction s) (simp_all add: escape_char_printable)

lemma commas_printable: "list_all (list_all (\<lambda>c. byte c \<ge> 0x20)) ts \<Longrightarrow> list_all (\<lambda>c. byte c \<ge> 0x20) (commas ts)"
  by (induction ts rule: commas.induct) simp_all

lemma canonical_printable: "list_all (\<lambda>c. byte c \<ge> 0x20) (canonical v)"
proof (induction v rule: wf_json_induct)
  case (JUnsigned n)
  then show ?case by (auto simp: canonical_simps list_all_iff isdigit_def dest: dec_isdigit)
next
  case (JArray vs)
  then show ?case using commas_printable [of "map canonical vs"] by (simp add: canonical_simps list.pred_map list_all_iff)
next
  case (JObject m)
  then have "list_all (\<lambda>c. byte c \<ge> 0x20) (member_canonical p)" if "p \<in> set m" for p
    using that by (cases p) (simp add: member_canonical_def escape_body_printable)
  then show ?case using commas_printable [of "map member_canonical m"] by (simp add: canonical_simps list.pred_map list_all_iff)
qed (simp_all add: canonical_simps escape_body_printable)

lemma length_escape_printable: "list_all (\<lambda>c. byte c \<ge> 0x20) s \<Longrightarrow> length (escape_body s) \<le> 2 * length s"
proof (induction s)
  case (Cons c s)
  have "length (escape_char c) \<le> 2" using Cons.prems by (cases c rule: escape_char_cases) auto
  with Cons show ?case by simp
qed simp

lemma object_length:
  assumes "distinct (map fst kvs)"
  shows "length (canonical (object kvs)) \<le> 2 + sum_list (map (\<lambda>p. 6 * length (fst p) + 4 + length (canonical (snd p))) kvs)"
proof -
  have member: "Suc (length (member_canonical p)) \<le> 6 * length (fst p) + 4 + length (canonical (snd p))" for p
    using length_escape_body [of "fst p"] by (simp add: member_canonical_def)
  have "sum_list (map (\<lambda>t. Suc (length t)) (map member_canonical (obj_of kvs))) \<le>
      sum_list (map (\<lambda>p. 6 * length (fst p) + 4 + length (canonical (snd p))) (obj_of kvs))"
    unfolding map_map o_def using member by (intro sum_list_mono)
  also have "\<dots> = sum_list (map (\<lambda>p. 6 * length (fst p) + 4 + length (canonical (snd p))) kvs)"
  proof -
    have "mset (map (\<lambda>p. 6 * length (fst p) + 4 + length (canonical (snd p))) (obj_of kvs)) =
        mset (map (\<lambda>p. 6 * length (fst p) + 4 + length (canonical (snd p))) kvs)"
      using mset_obj_of [OF assms] by (simp only: mset_map)
    from arg_cong [OF this, of sum_mset] show ?thesis unfolding sum_mset_sum_list .
  qed
  finally show ?thesis
    using length_commas_bound [of "map member_canonical (obj_of kvs)"] by (simp add: object_def canonical_simps)
qed

lemma length_record_text:
  assumes "journal_bound_names j" "length phase \<le> 10"
  shows "length (record_text j phase details) \<le> 4000 + length (canonical details)"
proof -
  let ?kvs = "effect_record j phase details @ [(''digest'', JString (sha256_canonical (object (effect_record j phase details))))]"
  have escaped: "length s \<le> n \<Longrightarrow> length (canonical (JString s)) \<le> 6 * n + 2" for s n
    using length_escape_body [of s] by (simp add: canonical_simps)
  have "length (ts_transaction_id (ej_spec j)) \<le> 128" "length (ej_source_digest j) \<le> 64" "length (ej_last_digest j) \<le> 64"
    using assms(1) by (auto simp: journal_bound_names_def valid_identifier_def effect_digest_def split: if_splits)
  moreover have "length (sha256_canonical v) \<le> 64" for v using effect_digest_canonical [of v] by (simp add: effect_digest_def)
  moreover have "length (canonical (JUnsigned n)) \<le> 20" for n using length_dec [OF word_lt_pow, of n] by (simp add: canonical_simps)
  ultimately have sizes: "length (canonical (JString (ts_transaction_id (ej_spec j)))) \<le> 770" "length (canonical (JString (ej_source_digest j))) \<le> 386"
    "length (canonical (if ej_last_digest j = [] then JNull else JString (ej_last_digest j))) \<le> 386"
    "\<And>v. length (canonical (JString (sha256_canonical v))) \<le> 386" "\<And>n. length (canonical (JUnsigned n)) \<le> 20"
    "length (canonical (JString phase)) \<le> 62" "length (canonical (JString ''usk.maintenance_effect_record.v1'')) \<le> 194"
    using escaped [of "ts_transaction_id (ej_spec j)" 128] escaped [of "ej_source_digest j" 64] escaped [of "ej_last_digest j" 64]
      escaped [of "sha256_canonical v" 64 for v] escaped [OF assms(2)] escaped [of "''usk.maintenance_effect_record.v1''" 32]
    by (simp_all add: canonical_simps(1))
  have "length (record_text j phase details) \<le> 3 + sum_list (map (\<lambda>p. 6 * length (fst p) + 4 + length (canonical (snd p))) ?kvs)"
    using object_length [OF sealed_keys, of j phase details] by (simp add: record_text_def sealed_record_object)
  also have "\<dots> \<le> 4000 + length (canonical details)"
    using sizes(1,2,3,6,7) sizes(4) [of "object (effect_record j phase details)"] sizes(5) [of "ej_sequence j"]
    by (simp add: effect_record_def split del: if_split)
  finally show ?thesis .
qed

section \<open>A concrete journal\<close>

definition maintenance_spec :: transaction_spec where
  "maintenance_spec = sample_spec\<lparr>ts_operation := ''repair''\<rparr>"

definition maintenance_tree :: world where
  "maintenance_tree = \<lparr>w_tree = [([''srv''], Dir 1), ([''srv'', ''app''], Dir 2), ([''st''], Dir 4), ([''st'', ''transactions''], Dir 5), ([''au''], Dir 7)],
    w_dev = 1, w_cwd = [], w_next_ino = 9, w_now = 0, w_clock = [], w_order = (\<lambda>names. names), w_refuses = (\<lambda>_ _. False),
    w_writes = (\<lambda>_. [])\<rparr>"

definition maintenance_world :: world where
  "maintenance_world = maintenance_tree\<lparr>w_writes := (\<lambda>_. [Wrote journal_bound])\<rparr>"

definition sample_digest :: string where "sample_digest = replicate 64 (CHR ''a'')"
definition sample_identity :: string where "sample_identity = replicate 16 (CHR ''0'') @ '':'' @ replicate 16 (CHR ''1'')"

definition observed_root :: "string \<Rightarrow> jvalue" where
  "observed_root root = object [(''root'', JString root), (''native_identity'', JString sample_identity)]"

definition context_members :: "(string \<times> jvalue) list" where
  "context_members = [(''schema'', JString ''usk.maintenance_source_context.v1''), (''operation'', JString ''repair''),
     (''install_id'', JString ''i1''), (''transaction_id'', JString ''tx1''), (''plan_id'', JString ''p1''),
     (''plan_digest'', JString sample_digest), (''policy_digest'', JString sample_digest),
     (''applied_at'', JString ''2026-01-01T00:00:00Z''), (''original_installed_transaction_id'', JString ''tx0''),
     (''original_installed_state_digest'', JString sample_digest), (''ownership_manifest_ref'', JString ''m.json''),
     (''ownership_manifest_digest'', JString sample_digest), (''original_source_archive_digest'', JString sample_digest),
     (''installed_root'', object [(''root'', JString ''/srv/app''), (''native_identity'', JNull), (''parent'', observed_root ''/srv'')]),
     (''operation_target_root'', JString ''/srv/app''), (''operation_target_parent'', observed_root ''/srv''),
     (''staging_parent'', observed_root ''/srv''), (''state_root'', observed_root ''/st''), (''audit_root'', observed_root ''/au'')]"

abbreviation context_value :: jvalue where "context_value \<equiv> object context_members"
definition sample_context :: string where "sample_context = canonical context_value"

lemma context_keys_distinct: "distinct (map fst context_members)"
  by (simp add: context_members_def)

lemma context_plan: "reviewed_plan maintenance_spec context_value = Inr ()"
  by code_simp

lemma context_bound: "context_binding maintenance_spec context_value = Inr ()"
  by code_simp

lemma context_digested: "context_digests context_value [''policy_digest'', ''original_installed_state_digest'', ''ownership_manifest_digest'',
         ''original_source_archive_digest''] = Inr ()"
  by code_simp

lemma context_roots:
  "bindE (string_at context_value ''ownership_manifest_ref'') (\<lambda>reference. relative_path reference False) = Inr ()"
  "bindE (jat context_value ''installed_root'') (installed_observation maintenance_tree) = Inr ()"
  "string_at context_value ''operation_target_root'' = Inr ''/srv/app''"
  "normalized maintenance_tree (ts_target_root maintenance_spec) = Inr ''/srv/app''"
  "bindE (jat context_value ''operation_target_parent'')
         (\<lambda>root. root_observation maintenance_tree root (parent_path (absolute (w_cwd maintenance_tree) (ts_target_root maintenance_spec)))) = Inr ()"
  "bindE (jat context_value ''staging_parent'') (\<lambda>root. root_observation maintenance_tree root (ts_staging_parent maintenance_spec)) = Inr ()"
  "bindE (jat context_value ''state_root'') (\<lambda>root. root_observation maintenance_tree root (ts_state_root maintenance_spec)) = Inr ()"
  "bindE (jat context_value ''audit_root'') (\<lambda>root. root_observation maintenance_tree root (ts_audit_root maintenance_spec)) = Inr ()"
  by code_simp+

lemma observed_root_keys: "distinct (map fst [(''root'', JString root), (''native_identity'', JString sample_identity)])"
  by simp

lemma installed_keys: "distinct (map fst [(''root'', JString ''/srv/app''), (''native_identity'', JNull), (''parent'', v)])"
  by simp

lemma context_string_ok: "list_all (\<lambda>c. byte c \<le> 0x7f) s \<Longrightarrow> length s \<le> 128 \<Longrightarrow> string_ok context_limits s"
  by (simp add: string_ok_def context_limits_def valid_utf8_ascii)

lemma context_depth [simp]: "max_depth context_limits = 8" "max_bytes context_limits = 16384" "max_values context_limits = 128"
  by (simp_all add: context_limits_def)

lemma sample_strings: "list_all (\<lambda>c. byte c \<le> 0x7f) sample_digest" "length sample_digest = 64"
  "list_all (\<lambda>c. byte c \<le> 0x7f) sample_identity" "length sample_identity = 33"
  by (simp_all add: sample_digest_def sample_identity_def list_all_iff)

lemma observed_root_facts:
  "wf_json (observed_root root)" "value_count (observed_root root) = 3" "text_bound (observed_root root) = 6 * length root + 326"
  "list_all (\<lambda>c. byte c \<le> 0x7f) root \<Longrightarrow> length root \<le> 128 \<Longrightarrow> d \<le> 7 \<Longrightarrow> shape_ok context_limits d (observed_root root)"
  unfolding observed_root_def object_wf [OF observed_root_keys] object_count [OF observed_root_keys] object_bound [OF observed_root_keys]
    object_shape [OF observed_root_keys]
  by (simp_all add: sample_strings context_string_ok)

lemma installed_facts:
  assumes "v = observed_root ''/srv''"
  shows "wf_json (object [(''root'', JString ''/srv/app''), (''native_identity'', JNull), (''parent'', v)])"
    "value_count (object [(''root'', JString ''/srv/app''), (''native_identity'', JNull), (''parent'', v)]) = 6"
    "text_bound (object [(''root'', JString ''/srv/app''), (''native_identity'', JNull), (''parent'', v)]) \<le> 600"
    "shape_ok context_limits (Suc 0) (object [(''root'', JString ''/srv/app''), (''native_identity'', JNull), (''parent'', v)])"
  unfolding object_wf [OF installed_keys] object_count [OF installed_keys] object_bound [OF installed_keys] object_shape [OF installed_keys]
  by (simp_all add: assms observed_root_facts context_string_ok)

lemma context_wf: "wf_json context_value"
  unfolding object_wf [OF context_keys_distinct] by (simp add: context_members_def observed_root_facts installed_facts)

lemma context_shape: "shape_ok context_limits 0 context_value" "value_count context_value \<le> 128"
  unfolding object_shape [OF context_keys_distinct] object_count [OF context_keys_distinct]
  by (simp_all add: context_members_def observed_root_facts installed_facts context_string_ok sample_strings)

lemma context_length: "text_bound context_value \<le> 8000"
  unfolding object_bound [OF context_keys_distinct]
  using installed_facts(3) [OF refl] by (simp add: context_members_def observed_root_facts sample_strings)

section \<open>The sample journal\<close>

lemma maintenance_cwd: "w_cwd maintenance_world = w_cwd maintenance_tree"
  by (simp add: maintenance_world_def)

lemma context_fits: "length sample_context \<le> 8000" "fits context_limits (length sample_context) context_value"
  using length_canonical [of context_value] context_length context_shape by (simp_all add: sample_context_def fits_def)

lemma shape_ok_mono:
  assumes "max_depth L \<le> max_depth L'" "max_string_bytes L \<le> max_string_bytes L'"
  shows "shape_ok L d v \<Longrightarrow> shape_ok L' d v"
proof (induction v arbitrary: d rule: wf_json_induct)
  case (JArray vs)
  then show ?case using assms(1) by (auto simp: list_all_iff)
next
  case (JObject m)
  then show ?case using assms by (fastforce simp: list_all_iff string_ok_def)
qed (use assms in \<open>auto simp: string_ok_def\<close>)

lemma context_parsed: "parse sample_context context_limits = Inr context_value" "parse sample_context default_limits = Inr context_value"
proof -
  have "shape_ok default_limits 0 context_value"
    by (rule shape_ok_mono [OF _ _ context_shape(1)]) (simp_all add: context_limits_def default_limits_def)
  then show "parse sample_context context_limits = Inr context_value" "parse sample_context default_limits = Inr context_value"
    using parse_decides [OF json_text_canonical [OF context_wf], of context_limits]
      parse_decides [OF json_text_canonical [OF context_wf], of default_limits] context_fits(1) context_shape
    by (simp_all add: decides_def sample_context_def default_limits_def)
qed

lemma sample_context_valid: "validate_context maintenance_world maintenance_spec sample_context = Inr ()"
proof -
  have "sample_context \<noteq> []" by (simp add: sample_context_def object_def canonical_simps)
  then have "validate_context maintenance_tree maintenance_spec sample_context = Inr ()"
    using context_fits(1) context_parsed(1) context_plan context_bound context_digested context_roots
    by (simp add: validate_context_def sample_context_def)
  then show ?thesis by (simp add: validate_context_cwd [OF maintenance_cwd])
qed

lemma create_exclusive_completes:
  assumes "safe_dir w d" "valid_identifier c" "plain_name c" "entry_at w (d @ [c]) = None" "calm w"
  shows "create_directory_exclusive (Path True d) c w =
    (Inr (), put_entry (d @ [c]) (Dir (w_next_ino w)) (w\<lparr>w_next_ino := w_next_ino w + 1\<rparr>))" (is "_ = (_, ?w)")
proof -
  have plain: "list_all plain_name d" using assms(1) by (simp add: safe_dir_def)
  have path: "path_append (Path True d) (path_of c) = Path True (d @ [c])"
    using append_name [OF plain, of "[]"] assms(2) by (simp add: path_of_identifier)
  have "only_changes {d @ [c]} w ?w" by (simp add: only_changes_def seen_simps)
  from safe_dir_only_changes [OF assms(1) this] have safe: "safe_dir ?w d" by simp
  have "safe_dir ?w (d @ [c])" using safe assms(3) by (simp add: safe_dir_snoc entry_at_put)
  from safe_not_linked [OF this, of "[]"] have "\<not> linked ?w (Path True (d @ [c]))" by simp
  moreover have "make_directory (Path True (d @ [c])) w = (Inr True, ?w)"
    using resolve_child [OF assms(1,3)] safe_dir_entry [OF assms(1)] assms(4,5) by (simp add: make_directory_def calm_def)
  moreover have "sync_directory (Path True d) ?w = (Inr (), ?w)"
    using resolve_safe [OF safe, of "[]" True] safe_dir_entry [OF safe] assms(5) by (simp add: sync_directory_def calm_def put_entry_def)
  moreover have "require_safe_directory w (Path True d) = Inr ()" using require_safe_plain [OF plain] assms(1) by simp
  ultimately show ?thesis using assms(2) by (simp add: create_directory_exclusive_def path bindS_def liftS_def guardS_def Let_def)
qed

text \<open>A short journal has room for another record.\<close>

lemma bytes_room:
  assumes "unat (b :: 64 word) \<le> 2 ^ 25" "n \<le> maximum_record_bytes"
  shows "b \<le> maximum_journal_bytes - of_nat n" "unat (b + of_nat n) = unat b + n"
proof -
  have n: "unat (of_nat n :: 64 word) = n" using assms(2) by (simp add: maximum_record_bytes_def unat_of_nat take_bit_nat_eq_self)
  have m: "unat maximum_journal_bytes = 2 ^ 26" by (simp add: maximum_journal_bytes_def)
  have le: "of_nat n \<le> maximum_journal_bytes" using n m assms(2) by (simp add: word_le_nat_alt maximum_record_bytes_def)
  then have "unat (maximum_journal_bytes - of_nat n) = 2 ^ 26 - n" using n m by (simp add: unat_sub)
  then show "b \<le> maximum_journal_bytes - of_nat n" using assms by (simp add: word_le_nat_alt maximum_record_bytes_def)
  show "unat (b + of_nat n) = unat b + n" using assms n by (simp add: unat_word_ariths(1) maximum_record_bytes_def)
qed

definition short_journal :: "world \<Rightarrow> string list \<Rightarrow> effect_journal \<Rightarrow> effect_log \<Rightarrow> nat \<Rightarrow> bool" where
  "short_journal w d j l n \<longleftrightarrow> (\<exists>texts. logged w d j l texts \<and> length texts = n) \<and> calm w \<and> \<not> ej_sealed j \<and> n < 100 \<and>
     unat (ej_bytes j) \<le> n * 32768"

lemma run_op_short:
  assumes "short_journal w d j l n" "op_allowed j operation" "recordable operation" "length (canonical (op_details j operation)) \<le> 20000"
    and "j' = after_op operation (persisted (op_phase operation) (op_details j operation) j)"
  shows "\<exists>w' texts. run_op operation (j, w) = (Inr (), (j', w')) \<and> logged w' d j' (log_step operation l) texts \<and>
    (Suc n < 100 \<longrightarrow> \<not> ej_sealed j' \<longrightarrow> short_journal w' d j' (log_step operation l) (Suc n))"
proof -
  let ?text = "record_text j (op_phase operation) (op_details j operation)"
  obtain texts where log: "logged w d j l texts" and n: "length texts = n" "n < 100" "calm w" "\<not> ej_sealed j" "unat (ej_bytes j) \<le> n * 32768"
    using assms(1) by (auto simp: short_journal_def)
  have names: "journal_bound_names j" "unat (ej_sequence j) = n" using log n(1) by (simp_all add: logged_def)
  have "length (op_phase operation) \<le> 10" by (cases operation) simp_all
  from length_record_text [OF names(1) this, of "op_details j operation"] assms(4)
  have size: "length ?text \<le> maximum_record_bytes" by (simp add: maximum_record_bytes_def)
  have "unat (ej_bytes j) \<le> 2 ^ 25"
    using n(2,5) by simp
  note room = bytes_room [OF this size]
  have "ej_sequence j < maximum_records" using names(2) n(2) by (simp add: word_less_nat_alt maximum_records_nat)
  note run = run_op_completes [OF log n(3,4) this assms(2) size room(1)]
  define w' where "w' = new_file (d @ [effect_filename (ej_sequence j)]) ?text w"
  have step: "run_op operation (j, w) = (Inr (), (j', w'))" unfolding run assms(5) w'_def ..
  note log' = logged_step [OF log step assms(3)]
  have "ej_bytes j' = ej_bytes j + of_nat (length ?text)" unfolding assms(5) by (cases operation) (simp_all add: persisted_def)
  then have "unat (ej_bytes j') \<le> Suc n * 32768" using room(2) size n(5) by (simp add: maximum_record_bytes_def)
  then have "short_journal w' d j' (log_step operation l) (Suc n)" if "Suc n < 100" "\<not> ej_sealed j'"
    using log' n(1,3) that unfolding short_journal_def by (auto simp: w'_def)
  with step log' show ?thesis by blast
qed

definition effect_dir :: "string list" where "effect_dir = [''st'', ''transactions'', ''tx1.maintenance'']"

definition opened_world :: world where
  "opened_world = put_entry effect_dir (Dir 9) (maintenance_world\<lparr>w_next_ino := 10\<rparr>)"

abbreviation sample_details :: jvalue where "sample_details \<equiv> context_details sample_context (dir_id 9)"

definition opening_journal :: effect_journal where
  "opening_journal = fresh_effect_journal maintenance_spec (Path True effect_dir) (dir_id 9) (sha256_canonical context_value)"

definition opened_journal :: effect_journal where
  "opened_journal = persisted ''context'' sample_details opening_journal"

lemma maintenance_calm: "calm maintenance_world" "calm opened_world"
  by (simp_all add: calm_def opened_world_def maintenance_world_def maintenance_tree_def put_entry_def)

lemma maintenance_safe: "safe_dir maintenance_world [''st'', ''transactions'']" "safe_dir opened_world effect_dir"
  by (simp_all add: safe_dir_def maintenance_world_def maintenance_tree_def entry_at_def plain_name_def le_Suc_eq opened_world_def
      put_entry_def effect_dir_def)

lemma maintenance_directory: "effect_directory maintenance_world maintenance_spec = Inr (Path True effect_dir)"
proof -
  have "effect_directory maintenance_tree maintenance_spec = Inr (Path True effect_dir)" by code_simp
  then show ?thesis by (simp add: effect_directory_cwd [OF maintenance_cwd])
qed

lemma effect_dir_split: "effect_dir = [''st'', ''transactions''] @ [''tx1.maintenance'']"
  by (simp add: effect_dir_def)

lemma opened_by: "create_directory_exclusive (Path True [''st'', ''transactions'']) ''tx1.maintenance'' maintenance_world = (Inr (), opened_world)"
proof -
  have "valid_identifier ''tx1.maintenance''" by code_simp
  moreover have "plain_name ''tx1.maintenance''" by (simp add: plain_name_def)
  moreover have "entry_at maintenance_world ([''st'', ''transactions''] @ [''tx1.maintenance'']) = None"
    by (simp add: entry_at_def maintenance_world_def maintenance_tree_def)
  ultimately show ?thesis
    using create_exclusive_completes [OF maintenance_safe(1)] maintenance_calm(1)
    by (simp add: opened_world_def effect_dir_def) (simp add: maintenance_world_def maintenance_tree_def)
qed

lemma opened_identity: "observe_directory_identity opened_world (Path True effect_dir) = Inr (dir_id 9)"
proof -
  have plain: "list_all plain_name effect_dir" by (simp add: effect_dir_def plain_name_def)
  have "entry_at opened_world effect_dir = Some (Dir 9)" by (simp add: opened_world_def entry_at_put effect_dir_def)
  then show ?thesis using maintenance_safe(2)
    by (simp add: observe_plain [OF plain] directory_identity_plain [OF plain] dir_id_def)
      (simp add: opened_world_def maintenance_world_def maintenance_tree_def put_entry_def)
qed

lemma opening_names: "journal_bound_names opening_journal"
proof -
  have "valid_identifier ''tx1''" by code_simp
  then show ?thesis by (simp add: opening_journal_def fresh_effect_journal_def journal_bound_names_def maintenance_spec_def sample_spec_def short_ascii_def)
qed

lemma sample_details_length: "length (canonical sample_details) \<le> 20000"
proof -
  have keys: "distinct (map fst [(''source_context'', JString sample_context), (''directory_identity'', JString (dir_id 9))])" by simp
  have "length (escape_body sample_context) \<le> 16000"
    using length_escape_printable [OF canonical_printable, of context_value] context_fits(1) by (simp add: sample_context_def)
  moreover have "length (dir_id 9) = 33" unfolding dir_id_def tx_hex_id_def using length_hex_pad [of 16] by simp
  then have "length (escape_body (dir_id 9)) \<le> 198" using length_escape_body [of "dir_id 9"] by simp
  ultimately show ?thesis using object_length [OF keys] by (simp add: context_details_def canonical_simps(4))
qed

lemma opening_completes:
  "new_effect_journal None maintenance_spec sample_context maintenance_world =
    (Inr opened_journal, new_file (effect_dir @ [effect_filename 0]) (record_text opening_journal ''context'' sample_details) opened_world)"
proof -
  have size: "length (record_text opening_journal ''context'' sample_details) \<le> maximum_record_bytes"
    using length_record_text [OF opening_names, of "''context''" sample_details] sample_details_length by (simp add: maximum_record_bytes_def)
  have j: "effect_home opening_journal effect_dir" "\<not> ej_failed opening_journal" "\<not> ej_sealed opening_journal" "ej_sequence opening_journal = 0"
    "ej_directory_identity opening_journal = dir_id 9" "ej_bytes opening_journal = 0" "check_predecessor opening_journal w = Inr ()" for w
    by (simp_all add: opening_journal_def fresh_effect_journal_def effect_home_def effect_dir_def plain_name_def check_predecessor_def)
  have free: "entry_at opened_world (effect_dir @ [effect_filename (ej_sequence opening_journal)]) = None"
    by (simp add: opened_world_def entry_at_put effect_dir_def) (simp add: entry_at_def maintenance_world_def maintenance_tree_def)
  have "0 < maximum_records" by (simp add: maximum_records_def)
  then have "persist_effect None ''context'' sample_details (opening_journal, opened_world) =
    (Inr (), (opened_journal, new_file (effect_dir @ [effect_filename 0]) (record_text opening_journal ''context'' sample_details) opened_world))"
    using persist_effect_completes [OF j(1,2,3) _ maintenance_calm(2) _ j(7) size _ free] opened_identity j(4,5,6)
    by (simp add: opened_journal_def)
  moreover have "require_safe_directory maintenance_world (Path True [''st'', ''transactions'']) = Inr ()"
    using require_safe_plain [of "[''st'', ''transactions'']"] maintenance_safe(1) by (simp add: plain_name_def)
  moreover have "parent_path (Path True effect_dir) = Path True [''st'', ''transactions'']" "filename (Path True effect_dir) = ''tx1.maintenance''"
    by (simp_all add: parent_path_def filename_def effect_dir_def)
  ultimately show ?thesis
    using sample_context_valid context_parsed(2) maintenance_directory opened_by opened_identity
    by (simp add: new_effect_journal_def constructed_def bindS_def liftS_def flip: context_details_def opening_journal_def)
qed

lemma maintenance_no_orphans: "no_orphans maintenance_world"
  unfolding no_orphans_def
proof (intro allI impI)
  fix p assume none: "entry_at maintenance_world p = None"
  have "c \<notin> set (children maintenance_world p)" for c
  proof
    assume "c \<in> set (children maintenance_world p)"
    then have "entry_at maintenance_world (p @ [c]) \<noteq> None" by (simp only: children_iff not_False_eq_True)
    then have "p @ [c] \<in> {[''srv''], [''srv'', ''app''], [''st''], [''st'', ''transactions''], [''au'']}"
      by (auto simp: entry_at_def maintenance_world_def maintenance_tree_def split: if_splits)
    then have "p \<in> {[], [''srv''], [''st'']}" by (auto simp: append_eq_Cons_conv)
    with none show False by (auto simp: entry_at_def maintenance_world_def maintenance_tree_def)
  qed
  then show "children maintenance_world p = []" by (cases "children maintenance_world p") auto
qed

lemma opened_short:
  "\<exists>w. new_effect_journal None maintenance_spec sample_context maintenance_world = (Inr opened_journal, w) \<and>
    short_journal w effect_dir opened_journal empty_log 1 \<and> effect_directory w maintenance_spec = Inr (Path True effect_dir)"
proof -
  define w where "w = new_file (effect_dir @ [effect_filename 0]) (record_text opening_journal ''context'' sample_details) opened_world"
  have new: "new_effect_journal None maintenance_spec sample_context maintenance_world = (Inr opened_journal, w)"
    using opening_completes by (simp add: w_def)
  obtain d texts where d: "effect_directory w maintenance_spec = Inr (Path True d)" "logged w d opened_journal empty_log texts"
    "same_system maintenance_world w" using new_journal_logged [OF new maintenance_no_orphans] by blast
  have "w_cwd w = w_cwd maintenance_world" using d(3) by (simp add: same_system_def)
  from effect_directory_cwd [OF this] have dir: "d = effect_dir" using d(1) maintenance_directory by simp
  have "length (record_text opening_journal ''context'' sample_details) \<le> maximum_record_bytes"
    using length_record_text [OF opening_names, of "''context''" sample_details] sample_details_length by (simp add: maximum_record_bytes_def)
  from bytes_room(2) [OF _ this, of 0] this have "unat (ej_bytes opened_journal) \<le> 32768"
    by (simp add: opened_journal_def persisted_def maximum_record_bytes_def) (simp add: opening_journal_def fresh_effect_journal_def)
  moreover have "ej_sequence opened_journal = 1" "\<not> ej_sealed opened_journal"
    by (simp_all add: opened_journal_def opening_journal_def persisted_def fresh_effect_journal_def)
  moreover have "length texts = 1" using d(2) calculation(2) by (simp add: logged_def)
  moreover have "calm w" using maintenance_calm(2) by (simp add: w_def)
  ultimately have "short_journal w effect_dir opened_journal empty_log 1"
    using d(2) unfolding short_journal_def dir by (intro conjI exI [of _ texts]) simp_all
  with new d(1) show ?thesis unfolding dir by blast
qed

definition sample_effect :: jvalue where
  "sample_effect = object [(''native_identity'', JString sample_identity)]"

definition sample_operations :: "effect_op list" where
  "sample_operations = [Begin_effect ''publish_target'' sample_effect, Complete_effect ''applied'' [], Seal_journal]"

lemma sample_effect_valid: "validate_effect ''repair'' ''publish_target'' sample_effect = Inr ()" "recordable (Begin_effect kind sample_effect)"
  "length (canonical sample_effect) \<le> 400"
proof -
  have keys: "distinct (map fst [(''native_identity'', JString sample_identity)])" by simp
  have "length (escape_body sample_identity) \<le> 198" using length_escape_body [of sample_identity] by (simp add: sample_strings)
  then show small: "length (canonical sample_effect) \<le> 400"
    unfolding sample_effect_def using object_length [OF keys] by (simp add: canonical_simps(4))
  have "native_identity sample_identity" by code_simp
  then show "validate_effect ''repair'' ''publish_target'' sample_effect = Inr ()" using small
    by (simp add: validate_effect_def) (simp add: sample_effect_def effect_exact_keys_def object_names string_at_def object_jat [OF keys])
  show "recordable (Begin_effect kind sample_effect)"
    by (simp add: sample_effect_def object_wf [OF keys] object_shape [OF keys] object_count [OF keys] ascii_ok sample_strings)
qed

lemma op_details_length:
  "length (canonical (op_details j (Begin_effect ''publish_target'' sample_effect))) \<le> 20000"
  "short_ascii (ej_pending_kind j) \<Longrightarrow> length (canonical (op_details j (Complete_effect ''applied'' []))) \<le> 20000"
  "length (canonical (op_details j Seal_journal)) \<le> 20000"
proof -
  have keys: "distinct (map fst [(''kind'', JString ''publish_target''), (''effect'', sample_effect)])"
    "distinct (map fst [(''intent_sequence'', JUnsigned n), (''kind'', JString s), (''outcome'', JString ''applied''), (''result_digest'', JNull)])"
    for n s by simp_all
  have escaped: "length (canonical (JString s)) \<le> 6 * length s + 2" for s
    using length_escape_body [of s] by (simp add: canonical_simps(4))
  show "length (canonical (op_details j (Begin_effect ''publish_target'' sample_effect))) \<le> 20000"
    using object_length [OF keys(1)] escaped [of "''publish_target''"] sample_effect_valid(3) by simp
  show "length (canonical (op_details j Seal_journal)) \<le> 20000" by (simp add: canonical_simps(1))
  assume "short_ascii (ej_pending_kind j)"
  then have "length (canonical (JString (ej_pending_kind j))) \<le> 242" using escaped [of "ej_pending_kind j"] by (simp add: short_ascii_def)
  moreover have "length (canonical (JUnsigned (ej_pending_sequence j))) \<le> 20"
    using length_dec [OF word_lt_pow, of "ej_pending_sequence j"] by (simp add: canonical_simps(3))
  moreover have "length (canonical (JString ''applied'')) \<le> 44" using escaped [of "''applied''"] by simp
  ultimately show "length (canonical (op_details j (Complete_effect ''applied'' []))) \<le> 20000"
    using object_length [OF keys(2), of "ej_pending_sequence j" "ej_pending_kind j"] by (simp add: completion_details_def canonical_simps(1))
qed

lemma sample_run:
  "\<exists>w j w' texts. new_effect_journal None maintenance_spec sample_context maintenance_world = (Inr opened_journal, w) \<and>
    run_ops sample_operations (opened_journal, w) = (Inr (), (j, w')) \<and> logged w' effect_dir j (fold log_step sample_operations empty_log) texts"
proof -
  obtain w where w: "new_effect_journal None maintenance_spec sample_context maintenance_world = (Inr opened_journal, w)"
    "short_journal w effect_dir opened_journal empty_log 1" using opened_short by blast
  define j1 where "j1 = after_op (Begin_effect ''publish_target'' sample_effect)
    (persisted (op_phase (Begin_effect ''publish_target'' sample_effect)) (op_details opened_journal (Begin_effect ''publish_target'' sample_effect)) opened_journal)"
  define j2 where "j2 = after_op (Complete_effect ''applied'' []) (persisted (op_phase (Complete_effect ''applied'' [])) (op_details j1 (Complete_effect ''applied'' [])) j1)"
  define j3 where "j3 = after_op Seal_journal (persisted (op_phase Seal_journal) (op_details j2 Seal_journal) j2)"
  have kinds: "ej_pending_kind opened_journal = []" "ej_pending_kind j1 = ''publish_target''" "ej_pending_kind j2 = []" "\<not> ej_sealed j1" "\<not> ej_sealed j2"
    "ts_operation (ej_spec opened_journal) = ''repair''"
    by (simp_all add: j1_def j2_def persisted_def opened_journal_def opening_journal_def fresh_effect_journal_def maintenance_spec_def)
  have allowed: "op_allowed opened_journal (Begin_effect ''publish_target'' sample_effect)" "op_allowed j1 (Complete_effect ''applied'' [])"
    "op_allowed j2 Seal_journal" using kinds sample_effect_valid(1) by (simp_all add: validate_completion_def)
  have "short_ascii (ej_pending_kind j1)" unfolding kinds by (simp add: short_ascii_def)
  note sizes = op_details_length(1) op_details_length(2) [OF this] op_details_length(3)
  obtain w1 where w1: "run_op (Begin_effect ''publish_target'' sample_effect) (opened_journal, w) = (Inr (), (j1, w1))"
    "short_journal w1 effect_dir j1 (log_step (Begin_effect ''publish_target'' sample_effect) empty_log) (Suc 1)"
    using run_op_short [OF w(2) allowed(1) sample_effect_valid(2) sizes(1) j1_def] kinds(4) by auto
  obtain w2 where w2: "run_op (Complete_effect ''applied'' []) (j1, w1) = (Inr (), (j2, w2))"
    "short_journal w2 effect_dir j2 (log_step (Complete_effect ''applied'' []) (log_step (Begin_effect ''publish_target'' sample_effect) empty_log)) (Suc (Suc 1))"
    using run_op_short [OF w1(2) allowed(2) recordable.simps(2) [THEN iffD2, OF TrueI] sizes(2) j2_def] kinds(5) by auto
  obtain w3 texts where "run_op Seal_journal (j2, w2) = (Inr (), (j3, w3))"
    "logged w3 effect_dir j3 (fold log_step sample_operations empty_log) texts"
    using run_op_short [OF w2(2) allowed(3) recordable.simps(3) [THEN iffD2, OF TrueI] sizes(3) j3_def] by (auto simp: sample_operations_def)
  with w(1) w1(1) w2(1) show ?thesis by (auto simp: sample_operations_def bindS_def returnS_def)
qed

lemma sample_log:
  "fold log_step sample_operations empty_log = \<lparr>el_completed = [\<lparr>ce_intent_sequence = 1, ce_kind = ''publish_target'',
     ce_details = sample_effect, ce_outcome = ''applied'', ce_result_digest = []\<rparr>], el_pending = None, el_sealed = True\<rparr>"
  by (simp add: sample_operations_def empty_log_def)

lemma sample_recordable: "list_all recordable sample_operations"
  using sample_effect_valid(2) by (simp add: sample_operations_def)

lemma maintenance_fair: "fair_order maintenance_world" "\<not> w_refuses maintenance_world Sys_open p"
  by (simp_all add: fair_order_def maintenance_world_def maintenance_tree_def)

section \<open>The properties apply to it\<close>


lemma sample_inspected:
  "\<exists>w i. inspect_effects w maintenance_spec (sha256_canonical context_value) True = Inr i \<and>
    log_of i = fold log_step sample_operations empty_log"
proof -
  obtain w j w' texts where new: "new_effect_journal None maintenance_spec sample_context maintenance_world = (Inr opened_journal, w)"
    and run: "run_ops sample_operations (opened_journal, w) = (Inr (), (j, w'))" using sample_run by blast
  obtain d texts where d: "effect_directory w maintenance_spec = Inr (Path True d)" "logged w d opened_journal empty_log texts"
    "same_system maintenance_world w" using new_journal_logged [OF new maintenance_no_orphans] by blast
  have opened: "ej_spec opened_journal = maintenance_spec" "ej_source_digest opened_journal = sha256_canonical context_value"
    by (simp_all add: opened_journal_def opening_journal_def persisted_def fresh_effect_journal_def)
  have "journal_state w opened_journal d (opened_journal, w) empty_log" using d(2) by (auto simp: journal_state_def)
  from effect_runs.run_related [OF this sample_recordable run] opened obtain texts' where
    log: "logged w' d j (fold log_step sample_operations empty_log) texts'" and same: "same_system w w'"
    and j: "ej_spec j = maintenance_spec" "ej_source_digest j = sha256_canonical context_value" by (auto simp: journal_state_def)
  have "w_cwd w' = w_cwd w" using same by (simp add: same_system_def)
  from effect_directory_cwd [OF this] d(1) j(1) have "effect_directory w' (ej_spec j) = Inr (Path True d)" by simp
  moreover have "openable w' d" using maintenance_fair d(3) same by (simp add: openable_def same_system_def fair_order_def)
  ultimately show ?thesis using logged_inspect [OF log, of True] j by auto
qed

theorem inspection_accounts_witness:
  "\<exists>w i directory names. inspect_effects w maintenance_spec (sha256_canonical context_value) True = Inr i \<and>
    ei_sealed i \<and> ei_pending_kind i = [] \<and> unat (ei_completed_effects i) = 1 \<and>
    effect_directory w maintenance_spec = Inr directory \<and> iterate_directory w directory = Inr names \<and> length names = 4 \<and>
    mset names = mset (map (\<lambda>k. effect_filename (of_nat k)) [0..<4])"
proof -
  obtain w i where i: "inspect_effects w maintenance_spec (sha256_canonical context_value) True = Inr i"
    "log_of i = fold log_step sample_operations empty_log" using sample_inspected by blast
  from inspection_accounts [OF i(1)] obtain directory names where d: "effect_directory w maintenance_spec = Inr directory"
    "iterate_directory w directory = Inr names" "mset names = mset (map (\<lambda>k. effect_filename (of_nat k)) [0..<length names])"
    "unat (ei_next_sequence i) = length names" "history_ok (ts_operation maintenance_spec) True (ei_pending_sequence i) i" by blast
  have log: "length (ei_completed i) = 1" "ei_pending_kind i = []" "ei_sealed i"
    using i(2) sample_log by (auto simp: log_of_def split: if_splits)
  with d(5) have "unat (ei_completed_effects i) = 1" "unat (ei_next_sequence i) = 4" by (simp_all add: history_ok_def Let_def)
  with i(1) d log show ?thesis by (metis (no_types, lifting))
qed

end
