(* ===== verification/Spec2Isabelle.thy ===== *)
theory Spec2Isabelle
  imports Usk_Base_Properties Usk_Policy Usk_Audit_Append Usk_State_Properties Usk_Maintenance_Samples
begin

text \<open>
  A verification library for the Universal Setup Kernel: the durable core of an installer. It models
  the base layer, the target policy, the two record repositories, the transaction session with its
  recovery, and the journal of maintenance effects. All source paths below are relative to
  \<^verbatim>\<open>src/runtime\<close>.

  \<^bold>\<open>The program.\<close> An installation stages files below a staging root, verifies them, and moves the
  whole tree to its target with one rename. A \<^verbatim>\<open>TransactionSession\<close> keeps a journal of its states,
  replaced as a whole at every transition, so that a later process can inspect, finalize or roll back
  what an earlier one left. Before the rename the staged tree is compared with the recorded files
  (the commit closure). What was installed is recorded by the state repository, what was done by the
  audit repository, a chain of events linked by digests; both write one canonical JSON document per
  file through the record layer, which never overwrites. Repair, move and uninstall write down every
  effect before and after it in an append-only directory of records, the maintenance journal. All
  of these share the JSON reader and encoder, SHA-256 and UTF-8 validation of the base layer.

  \<^bold>\<open>How it is modelled.\<close> A \<^verbatim>\<open>std::string\<close> is a list of 8-bit characters, a \<^verbatim>\<open>std::uint64_t\<close> is a
  \<open>64 word\<close>, a class is a record of its fields, and an exception is a value of \<open>exn\<close> carrying the message of the
  source (\<open>Usk_Prelude\<close>). The operating system is the record \<open>world\<close> (\<open>Usk_Store\<close>): the tree, the device,
  the working directory, the next inode number, the clock, the order in which directories are listed,
  which system calls are refused and how much each write takes. A function with effects returns its
  result and the world, also when it throws, because effects outlive an exception. Theorems hold for
  every world that meets their hypotheses, hence for every pattern of refused calls and partial
  writes those admit. Only the branches compiled on POSIX are modelled.

  \<^bold>\<open>Theories and sources.\<close>

  \<^item> \<open>Usk_Prelude\<close>, \<open>Usk_Path\<close>, \<open>Usk_Store\<close>: results and exceptions, the decimal and hexadecimal formats, the
    lexical part of \<^verbatim>\<open>std::filesystem::path\<close>, the file system and its calls.
  \<^item> \<open>Usk_Sha256\<close>: \<^verbatim>\<open>base/usk_sha256.cpp\<close>. The object with its block buffer and both loops; the round constants
    are the table of the source, written as eight rows. The locale \<open>digest_stream\<close> is the contract of an
    incremental digest, interpreted by the hash and by the buffered digest sink of the JSON encoder.
  \<^item> \<open>Usk_Utf8\<close>: \<^verbatim>\<open>valid_utf8\<close> of \<^verbatim>\<open>base/usk_utf8_path.cpp\<close> and \<^verbatim>\<open>append_utf8\<close> of the JSON reader.
  \<^item> \<open>Usk_Json\<close>, \<open>Usk_Json_Parse\<close>, \<open>Usk_Json_Budget\<close>: values, encoder, parser and budget walker of
    \<^verbatim>\<open>base/usk_json.cpp\<close>. \<open>Usk_Json_Text\<close>, \<open>Usk_Json_Roundtrip\<close>, \<open>Usk_Json_Equal\<close>, \<open>Usk_Json_Size\<close> hold their laws,
    \<open>Usk_Base_Properties\<close> the properties of the base layer.
  \<^item> \<open>Usk_Policy\<close>: \<^verbatim>\<open>setup/policy/usk_target_policy.cpp\<close>, the decision on a live target and its evidence digest.
  \<^item> \<open>Usk_Record_Io\<close>, \<open>Usk_Record_Laws\<close>: \<^verbatim>\<open>base/usk_record_io.cpp\<close> and \<^verbatim>\<open>base/usk_stable_file.cpp\<close>. The locale
    \<open>record_store\<close> is the append-only contract that \<open>write_record\<close> fulfils.
  \<^item> \<open>Usk_Documents\<close>, \<open>Usk_Repository\<close>: what the decoders and repositories share.
  \<^item> \<open>Usk_Audit\<close>, \<open>Usk_Audit_Laws\<close>, \<open>Usk_Audit_Chain\<close>, \<open>Usk_Audit_Append\<close>: \<^verbatim>\<open>setup/audit/usk_audit_repository.cpp\<close>. The
    locale \<open>hash_chain\<close> treats digest-linked histories in general and is interpreted by the audit events.
  \<^item> \<open>Usk_State\<close>, \<open>Usk_State_Laws\<close>, \<open>Usk_State_Properties\<close>: \<^verbatim>\<open>setup/state/usk_state_repository.cpp\<close>.
  \<^item> \<open>Usk_Stream_Journal\<close>, \<open>Usk_Stream_Laws\<close>: \<^verbatim>\<open>setup/transaction/usk_stream_entry_journal.cpp\<close>.
  \<^item> \<open>Usk_Transaction\<close>, \<open>Usk_Transaction_Laws\<close>, \<open>Usk_Journal_Properties\<close>, \<open>Usk_Journal_Samples\<close>: the part of
    \<^verbatim>\<open>setup/transaction/usk_transaction_session.cpp\<close> and \<^verbatim>\<open>usk_commit_authority.cpp\<close> that opens no file: the
    state table, the text of the journal, its decoding, the comparison of two journals.
  \<^item> \<open>Usk_Session_Files\<close>, \<open>Usk_Session\<close>, \<open>Usk_Recovery\<close>: the file operations, the closure scan, the operations of a
    session, its constructor in four modes, recovery inspection and finalization, from the same two files.
    \<open>Usk_Session_Laws\<close>, \<open>Usk_Closure_Laws\<close>, \<open>Usk_Commit_Laws\<close>, \<open>Usk_Rollback_Laws\<close>, \<open>Usk_Recovery_Laws\<close> hold their laws,
    \<open>Usk_Session_Samples\<close> sessions that run to their end.
  \<^item> \<open>Usk_Maintenance\<close>: \<^verbatim>\<open>setup/transaction/usk_maintenance_effect_journal.cpp\<close>, writer and reader. \<open>Usk_Maintenance_Laws\<close>,
    \<open>Usk_Maintenance_Writer\<close>, \<open>Usk_Maintenance_Log\<close>, \<open>Usk_Maintenance_Open\<close> relate them to the abstract \<open>effect_log\<close>; the
    locale \<open>log_simulation\<close> carries one step to sequences of calls. \<open>Usk_Maintenance_Samples\<close> runs one journal.

  \<^bold>\<open>What is shown.\<close>

  \<^item> Commit and rollback (C1, C2, C4, C5, C25): the journal announces a commit before the rename, the
    target then holds exactly the recorded files, a rollback touches nothing but the staging tree and the journal,
    a transition is recorded entirely or not at all, and the closure scan is exact and ends.
  \<^item> Maintenance journal (C3, C6): it refines an append-only log, and an accepted journal accounts for every file.
  \<^item> Transaction and stream journals (C7, C8, C9, C18): round trip, histories are runs of the state table,
    accepted extensions keep the history.
  \<^item> Audit (C10, C11, C12, C39) and state (C13 to C17): what is written reads back exactly when it keeps the limits of the
    reader, chains are linked and determined by their heads, a lookup returns a newest state.
  \<^item> Records (C19 to C24): durable writes are exact, append-only, confined when they fail and complete when
    nothing is refused; stable readings are consistent whatever happens between their observations.
  \<^item> Base layer (C26 to C34, C40) and policy (C35 to C38): the parser inverts the encoder and keeps its limits, the budget walker agrees
    with the parser, the hash is that of FIPS 180-4 for every way of feeding it, UTF-8 validation is exact, the
    policy accepts exactly its conditions and its digest input is unambiguous.

  C38 and C39 state behaviour that the code hardly intends: the acceptance root counts as strictly below itself
  when it is spelled with a trailing separator, and a chain with a very long id cannot be read after its first event. C10, C13
  and C14 say exactly which accepted inputs give records that the reader of the same component refuses.

  \<^bold>\<open>Bounds and fuel.\<close> The only fuel of the model is the number of symbolic links a path resolution may follow, forty, the
  limit of Linux; with more the call fails there as here. All other recursions are total functions with termination
  proofs. The loops of the hash are \<open>while\<close> loops that \<open>sha_inv\<close> shows to stop. The closure scan of the model terminates
  because each pass spends the budget of 200000 entries; C25 shows that the loop of the source takes at most 200001 passes and agrees with it.
  Limits are those of the source: 4 MiB for a transaction journal; 4 MiB, depth 64 and 100000 values for the
  JSON reader by default; 32768 bytes, depth 12 and 256 values for a maintenance record, 200002 records and 64 MiB for a maintenance journal.

  \<^bold>\<open>Assumptions.\<close> Operations on the world run without another process writing to it, except stable readings,
  whose observations are arbitrary. Read-only queries are not refused permission. The fault injector of a session is an
  argument of the model; the theorems on sessions and on the maintenance journal are for its default, none. The
  hash is never assumed injective: C11 has the hypothesis that SHA-256 does not collide on the payloads of
  the two chains it compares, and no other property needs one. Every property with hypotheses is
  applied to a concrete input in a witness.

  \<^bold>\<open>Not modelled.\<close>

  \<^item> The Windows branches of every file, \<^verbatim>\<open>platform/windows\<close>, the protected publisher, its leases, its retirement and its service
    processes: Win32 handles, security descriptors and pipes.
  \<^item> \<^verbatim>\<open>setup/lifecycle\<close>: install, repair, move, uninstall and their documents compose the modelled parts with
    archives; the parts are modelled, the compositions are not.
  \<^item> \<^verbatim>\<open>setup/package\<close>, \<^verbatim>\<open>setup/verify\<close>, \<^verbatim>\<open>setup/streaming\<close>: archive inspection over zlib, verification on top of it, and the
    copying of a source tree through a callback. zlib itself is third-party code.
  \<^item> \<^verbatim>\<open>setup/policy/usk_target_inspect.cpp\<close>, \<^verbatim>\<open>setup/evidence\<close>, \<^verbatim>\<open>base/usk_diagnostic_metrics.cpp\<close>: observations of the
    platform and documents of acceptance runs.
  \<^item> \<^verbatim>\<open>setup/transaction/usk_replacement_session.cpp\<close>: the exchange of whole roots, which the public interface refuses.
  \<^item> The C interface, the command runtime and the command-line programs: marshalling, argument parsing and printing; the Python tools of the repository.
  \<^item> The text that the system gives for an \<^verbatim>\<open>errno\<close> value, where a message ends in it, and durability across a power failure: a flush may be refused, but
    what it makes durable is not distinguished from what the tree shows.
\<close>

end
